theory Spec2Isabelle
  imports Complex_Main "HOL-Library.Word"
begin

section \<open>Medium-grain blocking of one tensor mode (Genten_TensorBlockSystem.cpp)\<close>

text \<open>
  C++ \<^verbatim>\<open>int\<close> division and remainder truncate towards zero; HOL's \<open>div\<close> and
  \<open>mod\<close> round down.  The two agree on non-negative operands.  Division by zero is
  undefined behaviour in C++ and is an explicit error of the model.
\<close>

definition c_quot :: "int \<Rightarrow> int \<Rightarrow> int" where
  "c_quot a b = (if (a < 0) = (b < 0) then \<bar>a\<bar> div \<bar>b\<bar> else - (\<bar>a\<bar> div \<bar>b\<bar>))"

definition c_rem :: "int \<Rightarrow> int \<Rightarrow> int" where
  "c_rem a b = a - b * c_quot a b"

datatype genten_error =
  DivisionByZero | AssertionFailed | OutOfBounds | ConversionOutOfRange | GentenError string





section \<open>Floating-point values of the fit estimate\<close>

text \<open>
  \<^verbatim>\<open>ElementType\<close> of \<^verbatim>\<open>DistGCP\<close> is an IEEE floating-point type.  The control flow
  of the epoch loops depends on how comparisons treat NaN and the infinities, so that
  these are values of the model.  Rounding and overflow of finite results are not
  modelled: finite values are real numbers.  The sign of zero is not modelled either;
  no comparison below observes it.
\<close>

datatype fp = Finite real | PlusInf | MinusInf | NaN

fun fp_neg :: "fp \<Rightarrow> fp" where
  "fp_neg (Finite x) = Finite (- x)"
| "fp_neg PlusInf = MinusInf"
| "fp_neg MinusInf = PlusInf"
| "fp_neg NaN = NaN"

fun fp_add :: "fp \<Rightarrow> fp \<Rightarrow> fp" where
  "fp_add NaN _ = NaN"
| "fp_add _ NaN = NaN"
| "fp_add (Finite x) (Finite y) = Finite (x + y)"
| "fp_add PlusInf MinusInf = NaN"
| "fp_add MinusInf PlusInf = NaN"
| "fp_add PlusInf _ = PlusInf"
| "fp_add MinusInf _ = MinusInf"
| "fp_add (Finite x) PlusInf = PlusInf"
| "fp_add (Finite x) MinusInf = MinusInf"

definition fp_sub :: "fp \<Rightarrow> fp \<Rightarrow> fp" where
  "fp_sub a b = fp_add a (fp_neg b)"

fun fp_sign_inf :: "real \<Rightarrow> fp" where
  "fp_sign_inf x = (if x = 0 then NaN else if 0 < x then PlusInf else MinusInf)"

fun fp_mul :: "fp \<Rightarrow> fp \<Rightarrow> fp" where
  "fp_mul NaN _ = NaN"
| "fp_mul _ NaN = NaN"
| "fp_mul (Finite x) (Finite y) = Finite (x * y)"
| "fp_mul (Finite x) PlusInf = fp_sign_inf x"
| "fp_mul (Finite x) MinusInf = fp_sign_inf (- x)"
| "fp_mul PlusInf (Finite y) = fp_sign_inf y"
| "fp_mul MinusInf (Finite y) = fp_sign_inf (- y)"
| "fp_mul PlusInf PlusInf = PlusInf"
| "fp_mul MinusInf MinusInf = PlusInf"
| "fp_mul PlusInf MinusInf = MinusInf"
| "fp_mul MinusInf PlusInf = MinusInf"

text \<open>\<^verbatim>\<open>a < b\<close>: false whenever an operand is NaN.\<close>

fun fp_less :: "fp \<Rightarrow> fp \<Rightarrow> bool" where
  "fp_less NaN _ = False"
| "fp_less _ NaN = False"
| "fp_less (Finite x) (Finite y) = (x < y)"
| "fp_less MinusInf MinusInf = False"
| "fp_less MinusInf _ = True"
| "fp_less _ MinusInf = False"
| "fp_less PlusInf _ = False"
| "fp_less (Finite x) PlusInf = True"

definition fp_greater :: "fp \<Rightarrow> fp \<Rightarrow> bool" where
  "fp_greater a b = fp_less b a"

fun isnan :: "fp \<Rightarrow> bool" where
  "isnan NaN = True"
| "isnan _ = False"

fun isfinite :: "fp \<Rightarrow> bool" where
  "isfinite (Finite _) = True"
| "isfinite _ = False"

text \<open>
  Division.  The sign of zero is not modelled: a zero divisor is \<open>+0\<close>, which is what
  the conversion of an unsigned count gives.
\<close>

fun fp_div :: "fp \<Rightarrow> fp \<Rightarrow> fp" where
  "fp_div NaN _ = NaN"
| "fp_div _ NaN = NaN"
| "fp_div (Finite x) (Finite y) = (if y = 0 then fp_sign_inf x else Finite (x / y))"
| "fp_div (Finite x) PlusInf = Finite 0"
| "fp_div (Finite x) MinusInf = Finite 0"
| "fp_div PlusInf (Finite y) = (if 0 \<le> y then PlusInf else MinusInf)"
| "fp_div MinusInf (Finite y) = (if 0 \<le> y then MinusInf else PlusInf)"
| "fp_div PlusInf _ = NaN"
| "fp_div MinusInf _ = NaN"

text \<open>\<^verbatim>\<open>std::min(a, b)\<close> is \<^verbatim>\<open>(b < a) ? b : a\<close> and \<^verbatim>\<open>std::max(a, b)\<close> is \<^verbatim>\<open>(a < b) ? b : a\<close>.\<close>

definition fp_min :: "fp \<Rightarrow> fp \<Rightarrow> fp" where
  "fp_min a b = (if fp_less b a then b else a)"

text \<open>
  \<^verbatim>\<open>ttb_indx\<close> is an unsigned 64-bit integer, modelled as a natural number with the
  wrap-around written out.  \<^verbatim>\<open>ttb_real(n)\<close> converts exactly (rounding is not modelled);
  \<^verbatim>\<open>ttb_indx(r)\<close> truncates towards zero and is undefined when the truncated value is
  not representable.
\<close>

definition indx_wrap :: "nat \<Rightarrow> nat" where
  "indx_wrap n = n mod 2 ^ 64"

definition indx_max :: "nat \<Rightarrow> nat \<Rightarrow> nat" where
  "indx_max a b = (if a < b then b else a)"

definition indx_min :: "nat \<Rightarrow> nat \<Rightarrow> nat" where
  "indx_min a b = (if b < a then b else a)"

definition fp_of_indx :: "nat \<Rightarrow> fp" where
  "fp_of_indx n = Finite (real n)"

fun indx_of_fp :: "fp \<Rightarrow> genten_error + nat" where
  "indx_of_fp (Finite r) =
     (if - 1 < r \<and> r < 2 ^ 64 then Inr (nat \<lfloor>r\<rfloor>) else Inl ConversionOutOfRange)"
| "indx_of_fp _ = Inl ConversionOutOfRange"

section \<open>The epoch loops of DistGCP (allReduceTrad and fedOpt)\<close>

text \<open>
  The annealer (\<^verbatim>\<open>Genten_Annealer.hpp\<close>), the steppers (\<^verbatim>\<open>Genten_GCP_SGD_Step.hpp\<close>)
  and the value kernel \<^verbatim>\<open>Impl::gcp_value\<close> are collaborators whose code is not part of
  the sources at hand.  Their states are type parameters and their member functions are
  the fields of \<open>collab\<close>; a call is the application of the field to the state.
  \<open>'u\<close> is the type of the parameter vector (\<^verbatim>\<open>KokkosVector\<close>; the Ktensor \<^verbatim>\<open>ut\<close> is a
  view of \<^verbatim>\<open>u\<close>), \<open>'s\<close> the stepper, \<open>'m\<close> the meta stepper, \<open>'a\<close> the annealer.
  \<open>gcp_value\<close> stands for
  \<^verbatim>\<open>pmap().gridAllReduce(Impl::gcp_value(X_val, ut, w_val, loss))\<close>, the same number on
  every rank.  All ranks run the same control flow on it.
\<close>

record ('u, 's, 'm, 'a) collab =
  annealer_call :: "'a \<Rightarrow> nat \<Rightarrow> fp \<times> 'a"
  annealer_success :: "'a \<Rightarrow> 'a"
  annealer_failed :: "'a \<Rightarrow> 'a"
  stepper_setStep :: "fp \<Rightarrow> 's \<Rightarrow> 's"
  stepper_setPassed :: "'s \<Rightarrow> 's"
  stepper_setFailed :: "'s \<Rightarrow> 's"
  meta_setPassed :: "'m \<Rightarrow> 'm"
  meta_setFailed :: "'m \<Rightarrow> 'm"
  gcp_value :: "'u \<Rightarrow> fp"

record ('u, 's, 'a) trad_state =
  u :: 'u
  u_best :: 'u
  fest :: fp
  fest_best :: fp
  fest_prev :: fp
  stepper :: 's
  annealer :: 'a

record ('u, 's, 'm, 'a) fed_state = "('u, 's, 'a) trad_state" +
  meta_stepper :: 'm

text \<open>The test \<^verbatim>\<open>fest_diff > -0.001 * fest_best\<close> with \<^verbatim>\<open>fest_diff = fest_prev - fest\<close>.\<close>

definition accepts :: "fp \<Rightarrow> fp \<Rightarrow> fp \<Rightarrow> bool" where
  "accepts prev cur best =
     (let fest_diff = fp_sub prev cur
      in fp_greater fest_diff (fp_mul (Finite (- 0.001)) best))"

subsection \<open>allReduceTrad\<close>

text \<open>The \<^verbatim>\<open>if (fest_diff > -0.001 * fest_best) ... else ...\<close> at the end of an epoch.\<close>

definition trad_accept_reject ::
  "('u, 's, 'm, 'a) collab \<Rightarrow> ('u, 's, 'a) trad_state \<Rightarrow> ('u, 's, 'a) trad_state" where
  "trad_accept_reject c s =
     (if accepts (fest_prev s) (fest s) (fest_best s) then
        let s1 = s\<lparr>stepper := stepper_setPassed c (stepper s)\<rparr>;
            s2 = s1\<lparr>fest_prev := fest s1\<rparr>;
            s3 = s2\<lparr>annealer := annealer_success c (annealer s2)\<rparr>
        in if fp_less (fest s3) (fest_best s3)
           then s3\<lparr>u_best := u s3, fest_best := fest s3\<rparr>
           else s3
      else
        let s1 = s\<lparr>u := u_best s\<rparr>;
            s2 = s1\<lparr>fest := fest_prev s1\<rparr>;
            s3 = s2\<lparr>stepper := stepper_setFailed c (stepper s2)\<rparr>
        in s3\<lparr>annealer := annealer_failed c (annealer s3)\<rparr>)"

text \<open>
  One epoch: learning rate from the annealer, \<open>epochIters\<close> inner iterations (\<open>iter\<close>
  is the body of the inner loop, a function of the parameters and the stepper), the fit
  estimate, and the decision.
\<close>

definition trad_epoch ::
  "('u, 's, 'm, 'a) collab \<Rightarrow> ('u \<times> 's \<Rightarrow> 'u \<times> 's) \<Rightarrow> nat \<Rightarrow> nat \<Rightarrow>
   ('u, 's, 'a) trad_state \<Rightarrow> ('u, 's, 'a) trad_state" where
  "trad_epoch c iter epochIters e s =
     (let (epoch_lr, an) = annealer_call c (annealer s) e;
          s1 = s\<lparr>annealer := an, stepper := stepper_setStep c epoch_lr (stepper s)\<rparr>;
          (u', st') = (iter ^^ epochIters) (u s1, stepper s1);
          s2 = s1\<lparr>u := u', stepper := st'\<rparr>;
          s3 = s2\<lparr>fest := gcp_value c (u s2)\<rparr>
      in trad_accept_reject c s3)"

text \<open>\<^verbatim>\<open>for (auto e = 0; e < maxEpochs; ++e)\<close>, entered at \<open>e\<close>.\<close>

function trad_epochs ::
  "('u, 's, 'm, 'a) collab \<Rightarrow> ('u \<times> 's \<Rightarrow> 'u \<times> 's) \<Rightarrow> nat \<Rightarrow> nat \<Rightarrow> nat \<Rightarrow>
   ('u, 's, 'a) trad_state \<Rightarrow> ('u, 's, 'a) trad_state" where
  "trad_epochs c iter epochIters maxEpochs e s =
     (if e < maxEpochs
      then trad_epochs c iter epochIters maxEpochs (Suc e) (trad_epoch c iter epochIters e s)
      else s)"
  by pat_completeness auto
termination
  by (relation "measure (\<lambda>(c, iter, epochIters, maxEpochs, e, s). maxEpochs - e)") auto

declare trad_epochs.simps [simp del]

text \<open>
  The function from the initial fit estimate on: \<^verbatim>\<open>fest_best\<close> and \<^verbatim>\<open>fest_prev\<close> start
  at it, \<^verbatim>\<open>u_best\<close> is a clone of \<^verbatim>\<open>u\<close>; after the loop \<^verbatim>\<open>u.set(u_best)\<close>, and the value
  returned is \<^verbatim>\<open>fest_prev\<close>.
\<close>

definition allReduceTrad ::
  "('u, 's, 'm, 'a) collab \<Rightarrow> ('u \<times> 's \<Rightarrow> 'u \<times> 's) \<Rightarrow> nat \<Rightarrow> nat \<Rightarrow> 'u \<Rightarrow> 's \<Rightarrow> 'a \<Rightarrow>
   fp \<times> ('u, 's, 'a) trad_state" where
  "allReduceTrad c iter epochIters maxEpochs u0 stepper0 annealer0 =
     (let f0 = gcp_value c u0;
          s0 = \<lparr>u = u0, u_best = u0, fest = f0, fest_best = f0, fest_prev = f0,
                stepper = stepper0, annealer = annealer0\<rparr>;
          s1 = trad_epochs c iter epochIters maxEpochs 0 s0;
          s2 = s1\<lparr>u := u_best s1\<rparr>
      in (fest_prev s2, s2))"

subsection \<open>fedOpt\<close>

definition fed_accept_reject ::
  "('u, 's, 'm, 'a) collab \<Rightarrow> ('u, 's, 'm, 'a) fed_state \<Rightarrow> ('u, 's, 'm, 'a) fed_state" where
  "fed_accept_reject c s =
     (if accepts (fest_prev s) (fest s) (fest_best s) then
        let s1 = s\<lparr>stepper := stepper_setPassed c (stepper s)\<rparr>;
            s2 = s1\<lparr>meta_stepper := meta_setPassed c (meta_stepper s1)\<rparr>;
            s3 = s2\<lparr>fest_prev := fest s2\<rparr>;
            s4 = s3\<lparr>annealer := annealer_success c (annealer s3)\<rparr>
        in if fp_less (fest s4) (fest_best s4)
           then s4\<lparr>fest_best := fest s4, u_best := u s4\<rparr>
           else s4
      else
        let s1 = s\<lparr>u := u_best s\<rparr>;
            s2 = s1\<lparr>annealer := annealer_failed c (annealer s1)\<rparr>;
            s3 = s2\<lparr>stepper := stepper_setFailed c (stepper s2)\<rparr>;
            s4 = s3\<lparr>meta_stepper := meta_setFailed c (meta_stepper s3)\<rparr>
        in s4\<lparr>fest := fest_best s4\<rparr>)"

text \<open>
  The inner loop of fedOpt: \<open>do_epoch_iter\<close> is the local gradient step, \<open>avg\<close> the
  call \<^verbatim>\<open>allReduceKT(ut, true)\<close> and \<open>meta\<close> the meta-gradient branch; both act on the
  parameters, the stepper and the meta stepper.  \<^verbatim>\<open>(i + 1) % dp_iters\<close> is evaluated in
  every iteration; with \<^verbatim>\<open>dp_iters == 0\<close> it is a division by zero.
\<close>

type_synonym ('u, 's, 'm) fed_local = "'u \<times> 's \<times> 'm"

function fed_inner ::
  "(('u, 's, 'm) fed_local \<Rightarrow> ('u, 's, 'm) fed_local) \<Rightarrow>
   (('u, 's, 'm) fed_local \<Rightarrow> ('u, 's, 'm) fed_local) \<Rightarrow>
   (('u, 's, 'm) fed_local \<Rightarrow> ('u, 's, 'm) fed_local) \<Rightarrow>
   int \<Rightarrow> bool \<Rightarrow> nat \<Rightarrow> nat \<Rightarrow> ('u, 's, 'm) fed_local \<Rightarrow> genten_error + ('u, 's, 'm) fed_local" where
  "fed_inner do_epoch_iter avg meta dp_iters fedavg epochIters i x =
     (if i < epochIters then
        let x1 = do_epoch_iter x in
        if dp_iters = 0 then Inl DivisionByZero
        else if c_rem (int i + 1) dp_iters = 0 \<or> int i = int epochIters - 1
        then fed_inner do_epoch_iter avg meta dp_iters fedavg epochIters (Suc i)
               (if fedavg then avg x1 else meta x1)
        else fed_inner do_epoch_iter avg meta dp_iters fedavg epochIters (Suc i) x1
      else Inr x)"
  by pat_completeness auto
termination
  by (relation "measure (\<lambda>(d, a, m, dp, fa, epochIters, i, x). epochIters - i)") auto

declare fed_inner.simps [simp del]

text \<open>
  The epoch loop, entered at \<open>e\<close>.  A NaN fit estimate returns \<^verbatim>\<open>fest_best\<close> at once, on
  rank 0 and on every other rank alike; otherwise the loop runs to \<open>maxEpochs\<close> and the
  value returned is \<^verbatim>\<open>fest_prev\<close>.
\<close>

function fed_epochs ::
  "('u, 's, 'm, 'a) collab \<Rightarrow>
   (('u, 's, 'm) fed_local \<Rightarrow> ('u, 's, 'm) fed_local) \<Rightarrow>
   (('u, 's, 'm) fed_local \<Rightarrow> ('u, 's, 'm) fed_local) \<Rightarrow>
   (('u, 's, 'm) fed_local \<Rightarrow> ('u, 's, 'm) fed_local) \<Rightarrow>
   int \<Rightarrow> bool \<Rightarrow> nat \<Rightarrow> nat \<Rightarrow> nat \<Rightarrow> ('u, 's, 'm, 'a) fed_state \<Rightarrow>
   genten_error + fp \<times> ('u, 's, 'm, 'a) fed_state" where
  "fed_epochs c do_epoch_iter avg meta dp_iters fedavg epochIters maxEpochs e s =
     (if e < maxEpochs then
        let (epoch_lr, an) = annealer_call c (annealer s) e;
            s1 = s\<lparr>annealer := an, stepper := stepper_setStep c epoch_lr (stepper s)\<rparr>
        in case fed_inner do_epoch_iter avg meta dp_iters fedavg epochIters 0
                  (u s1, stepper s1, meta_stepper s1) of
             Inl err \<Rightarrow> Inl err
           | Inr (u', st', mst') \<Rightarrow>
               let s2 = s1\<lparr>u := u', stepper := st', meta_stepper := mst'\<rparr>;
                   s3 = s2\<lparr>fest := gcp_value c (u s2)\<rparr>
               in if isnan (fest s3) then Inr (fest_best s3, s3)
                  else fed_epochs c do_epoch_iter avg meta dp_iters fedavg epochIters maxEpochs
                         (Suc e) (fed_accept_reject c s3)
      else Inr (fest_prev s, s))"
  by pat_completeness auto
termination
  by (relation "measure (\<lambda>(c, d, a, m, dp, fa, ei, maxEpochs, e, s). maxEpochs - e)") auto

declare fed_epochs.simps [simp del]

definition fedOpt ::
  "('u, 's, 'm, 'a) collab \<Rightarrow>
   (('u, 's, 'm) fed_local \<Rightarrow> ('u, 's, 'm) fed_local) \<Rightarrow>
   (('u, 's, 'm) fed_local \<Rightarrow> ('u, 's, 'm) fed_local) \<Rightarrow>
   (('u, 's, 'm) fed_local \<Rightarrow> ('u, 's, 'm) fed_local) \<Rightarrow>
   int \<Rightarrow> bool \<Rightarrow> nat \<Rightarrow> nat \<Rightarrow> 'u \<Rightarrow> 's \<Rightarrow> 'm \<Rightarrow> 'a \<Rightarrow>
   genten_error + fp \<times> ('u, 's, 'm, 'a) fed_state" where
  "fedOpt c do_epoch_iter avg meta dp_iters fedavg epochIters maxEpochs u0 stepper0 meta0 annealer0 =
     (let f0 = gcp_value c u0;
          s0 = \<lparr>u = u0, u_best = u0, fest = f0, fest_best = f0, fest_prev = f0,
                stepper = stepper0, annealer = annealer0, meta_stepper = meta0\<rparr>
      in fed_epochs c do_epoch_iter avg meta dp_iters fedavg epochIters maxEpochs 0 s0)"

subsection \<open>Concrete collaborators for the closed instances\<close>

text \<open>
  A small instance of the collaborators: the parameter vector is a counter of the inner
  iterations run on it, the steppers count passes minus failures, and the annealer
  records the number of epochs it was asked a learning rate for together with its
  successes minus failures.
\<close>

definition demo_collab :: "(nat \<Rightarrow> fp) \<Rightarrow> (nat, int, int, nat \<times> int) collab" where
  "demo_collab fit =
     \<lparr>annealer_call = (\<lambda>a e. (Finite 1, (Suc (fst a), snd a))),
      annealer_success = (\<lambda>a. (fst a, snd a + 1)),
      annealer_failed = (\<lambda>a. (fst a, snd a - 1)),
      stepper_setStep = (\<lambda>lr s. s),
      stepper_setPassed = (\<lambda>s. s + 1),
      stepper_setFailed = (\<lambda>s. s - 1),
      meta_setPassed = (\<lambda>m. m + 1),
      meta_setFailed = (\<lambda>m. m - 1),
      gcp_value = fit\<rparr>"

definition demo_iter :: "nat \<times> int \<Rightarrow> nat \<times> int" where
  "demo_iter x = (Suc (fst x), snd x)"

definition demo_local_iter :: "(nat, int, int) fed_local \<Rightarrow> (nat, int, int) fed_local" where
  "demo_local_iter x = (Suc (fst x), snd x)"

definition demo_sync :: "(nat, int, int) fed_local \<Rightarrow> (nat, int, int) fed_local" where
  "demo_sync x = x"

definition inf_after_start :: "nat \<Rightarrow> fp" where
  "inf_after_start n = (if n = 0 then Finite 1 else PlusInf)"

definition nan_after_start :: "nat \<Rightarrow> fp" where
  "nan_after_start n = (if n = 0 then Finite 1 else NaN)"

definition fit_after_start :: "real \<Rightarrow> nat \<Rightarrow> fp" where
  "fit_after_start v n = (if n = 0 then Finite 1 else Finite v)"

definition demo_fed_state :: "fp \<Rightarrow> (nat, int, int, nat \<times> int) fed_state" where
  "demo_fed_state f =
     \<lparr>u = 1, u_best = 0, fest = f, fest_best = Finite 1, fest_prev = Finite 1,
      stepper = 0, annealer = (1, 0), meta_stepper = 0\<rparr>"


text \<open>The states at the start of epoch 0: no inner iteration has run, the fit is 1.\<close>

definition demo_trad_start :: "(nat, int, nat \<times> int) trad_state" where
  "demo_trad_start =
     \<lparr>u = 0, u_best = 0, fest = Finite 1, fest_best = Finite 1, fest_prev = Finite 1,
      stepper = 0, annealer = (0, 0)\<rparr>"

definition demo_fed_start :: "(nat, int, int, nat \<times> int) fed_state" where
  "demo_fed_start =
     \<lparr>u = 0, u_best = 0, fest = Finite 1, fest_best = Finite 1, fest_prev = Finite 1,
      stepper = 0, annealer = (0, 0), meta_stepper = 0\<rparr>"
section \<open>AlgParams::fixup (Genten_AlgParams.hpp)\<close>

text \<open>
  The enumerations are declared in \<^verbatim>\<open>Genten_Util.hpp\<close>, which is not among the sources at
  hand.  Each is a datatype of the enumerators that the sources name, with one more
  constructor for any enumerator they do not name.  The tables
  \<^verbatim>\<open>MTTKRP_Method::names\<close> and \<^verbatim>\<open>MTTKRP_All_Method::names\<close> are parameters.
\<close>

datatype Solver_Method = CP_ALS | CP_OPT | GCP_SGD | GCP_OPT | Solver_Method_other nat

datatype MTTKRP_Method =
  MTTKRP_Default | MTTKRP_Single | MTTKRP_Atomic | MTTKRP_Duplicated | MTTKRP_Perm
  | MTTKRP_Method_other nat

datatype MTTKRP_All_Method =
  All_Default | All_Single | All_Atomic | All_Duplicated | All_Iterated
  | MTTKRP_All_Method_other nat

datatype GCP_Sampling = SemiStratified | GCP_Sampling_other nat

text \<open>
  The fields of \<^verbatim>\<open>AlgParams\<close> that \<^verbatim>\<open>fixup\<close> and the constructor of the semi-stratified
  sampler read or write.  The member \<^verbatim>\<open>method\<close> is the field \<open>solver_method\<close>.
\<close>

record AlgParams =
  solver_method :: Solver_Method
  maxiters :: nat
  mttkrp_method :: MTTKRP_Method
  mttkrp_all_method :: MTTKRP_All_Method
  sampling_type :: GCP_Sampling
  num_samples_nonzeros_value :: nat
  num_samples_zeros_value :: nat
  num_samples_nonzeros_grad :: nat
  num_samples_zeros_grad :: nat
  w_f_nz :: fp
  w_f_z :: fp
  w_g_nz :: fp
  w_g_z :: fp
  fuse :: bool

text \<open>
  \<^verbatim>\<open>SpaceProperties<ExecSpace>\<close> and \<^verbatim>\<open>sizeof(ttb_real)\<close>: what the execution space and
  the build fix.
\<close>

record space_prop =
  is_cuda :: bool
  concurrency :: nat
  cuda_arch :: nat
  sizeof_ttb_real :: nat

definition endl :: string where
  "endl = [CHR 0x0A]"

text \<open>The first block: the default MTTKRP method.\<close>

definition fixup_default_mttkrp :: "space_prop \<Rightarrow> AlgParams \<Rightarrow> AlgParams" where
  "fixup_default_mttkrp sp p =
     (if mttkrp_method p = MTTKRP_Default then
        if concurrency sp = 1 then p\<lparr>mttkrp_method := MTTKRP_Single\<rparr>
        else if is_cuda sp \<and> (cuda_arch sp \<ge> 600 \<or> sizeof_ttb_real sp = 4)
        then p\<lparr>mttkrp_method := MTTKRP_Atomic\<rparr>
        else if is_cuda sp then p\<lparr>mttkrp_method := MTTKRP_Perm\<rparr>
        else if solver_method p = GCP_SGD then p\<lparr>mttkrp_method := MTTKRP_Duplicated\<rparr>
        else p\<lparr>mttkrp_method := MTTKRP_Perm\<rparr>
      else p)"

text \<open>
  The second block: the default MTTKRP-All method.  The test for a single thread is an
  \<^verbatim>\<open>if\<close> of its own, followed by the \<^verbatim>\<open>if ... else if ... else\<close> chain.
\<close>

definition fixup_default_mttkrp_all :: "space_prop \<Rightarrow> AlgParams \<Rightarrow> AlgParams" where
  "fixup_default_mttkrp_all sp p =
     (if mttkrp_all_method p = All_Default then
        let p1 = (if concurrency sp = 1 then p\<lparr>mttkrp_all_method := All_Single\<rparr> else p)
        in if is_cuda sp \<and> solver_method p1 = GCP_SGD \<and> sampling_type p1 = SemiStratified \<and> fuse p1
           then p1\<lparr>mttkrp_all_method := All_Atomic\<rparr>
           else if is_cuda sp \<and> (cuda_arch sp \<ge> 600 \<or> sizeof_ttb_real sp = 4)
           then p1\<lparr>mttkrp_all_method := All_Atomic\<rparr>
           else if is_cuda sp then p1\<lparr>mttkrp_all_method := All_Iterated\<rparr>
           else if solver_method p1 = GCP_SGD then p1\<lparr>mttkrp_all_method := All_Duplicated\<rparr>
           else p1\<lparr>mttkrp_all_method := All_Iterated\<rparr>
      else p)"

text \<open>The third block: invalid choices on Cuda.  \<open>out\<close> is the text written so far.\<close>

definition fixup_cuda ::
  "(MTTKRP_Method \<Rightarrow> string) \<Rightarrow> (MTTKRP_All_Method \<Rightarrow> string) \<Rightarrow> space_prop \<Rightarrow>
   AlgParams \<times> string \<Rightarrow> AlgParams \<times> string" where
  "fixup_cuda names all_names sp po =
     (if is_cuda sp then
        let (p, out) = po;
            (p1, out1) =
              (if mttkrp_method p = MTTKRP_Single \<or> mttkrp_method p = MTTKRP_Duplicated then
                 let o1 = out @ ''MTTKRP method '' @ names (mttkrp_method p)
                              @ '' is invalid for Cuda, changing to '';
                     q = (if cuda_arch sp \<ge> 600 \<or> sizeof_ttb_real sp = 4
                          then p\<lparr>mttkrp_method := MTTKRP_Atomic\<rparr>
                          else p\<lparr>mttkrp_method := MTTKRP_Perm\<rparr>)
                 in (q, o1 @ names (mttkrp_method q) @ ''.'' @ endl)
               else (p, out));
            (p2, out2) =
              (if mttkrp_all_method p1 = All_Single \<or> mttkrp_all_method p1 = All_Duplicated then
                 let o1 = out1 @ ''MTTKRP-All method '' @ all_names (mttkrp_all_method p1)
                               @ '' is invalid for Cuda, changing to '';
                     q = (if cuda_arch sp \<ge> 600 \<or> sizeof_ttb_real sp = 4 \<or>
                             (solver_method p1 = GCP_SGD \<and> sampling_type p1 = SemiStratified \<and> fuse p1)
                          then p1\<lparr>mttkrp_all_method := All_Atomic\<rparr>
                          else p1\<lparr>mttkrp_all_method := All_Iterated\<rparr>)
                 in (q, o1 @ all_names (mttkrp_all_method q) @ ''.'' @ endl)
               else (p1, out1))
        in if solver_method p2 = GCP_SGD \<and> sampling_type p2 = SemiStratified \<and> fuse p2 \<and>
              mttkrp_all_method p2 \<noteq> All_Atomic
           then (p2\<lparr>mttkrp_all_method := All_Atomic\<rparr>,
                 out2 @ ''Fused semi-stratified sampling/MTTKRP method requires atomic''
                      @ '' on Cuda.  Changing MTTKRP-All method to atomic.'' @ endl)
           else (p2, out2)
      else po)"

definition fixup ::
  "(MTTKRP_Method \<Rightarrow> string) \<Rightarrow> (MTTKRP_All_Method \<Rightarrow> string) \<Rightarrow> space_prop \<Rightarrow>
   AlgParams \<Rightarrow> string \<Rightarrow> AlgParams \<times> string" where
  "fixup names all_names sp p out =
     fixup_cuda names all_names sp (fixup_default_mttkrp_all sp (fixup_default_mttkrp sp p), out)"

text \<open>
  The guard at the head of \<^verbatim>\<open>GCP_SS_Grad_Str<Kokkos::Cuda,loss_type>::run\<close>
  (Genten_GCP_SS_Grad_Streaming_Def.hpp): \<^verbatim>\<open>Genten::error\<close> unless the method is Atomic.
\<close>

definition cuda_run_guard :: "AlgParams \<Rightarrow> genten_error + unit" where
  "cuda_run_guard algParams =
     (if mttkrp_all_method algParams \<noteq> All_Atomic
      then Inl (GentenError ''MTTKRP-All method must be atomic on Cuda!'')
      else Inr ())"

text \<open>The two notices that report a change of the MTTKRP-All method.\<close>

definition notice_invalid_all :: "(MTTKRP_All_Method \<Rightarrow> string) \<Rightarrow> MTTKRP_All_Method \<Rightarrow> string" where
  "notice_invalid_all all_names m =
     ''MTTKRP-All method '' @ all_names m @ '' is invalid for Cuda, changing to ''
       @ all_names All_Atomic @ ''.'' @ endl"

definition notice_fused :: string where
  "notice_fused =
     ''Fused semi-stratified sampling/MTTKRP method requires atomic''
       @ '' on Cuda.  Changing MTTKRP-All method to atomic.'' @ endl"

definition demo_names :: "MTTKRP_Method \<Rightarrow> string" where
  "demo_names m = (case m of MTTKRP_Default \<Rightarrow> ''default'' | MTTKRP_Single \<Rightarrow> ''single''
     | MTTKRP_Atomic \<Rightarrow> ''atomic'' | MTTKRP_Duplicated \<Rightarrow> ''duplicated''
     | MTTKRP_Perm \<Rightarrow> ''perm'' | MTTKRP_Method_other n \<Rightarrow> ''other'')"

definition demo_all_names :: "MTTKRP_All_Method \<Rightarrow> string" where
  "demo_all_names m = (case m of All_Default \<Rightarrow> ''default'' | All_Single \<Rightarrow> ''single''
     | All_Atomic \<Rightarrow> ''atomic'' | All_Duplicated \<Rightarrow> ''duplicated''
     | All_Iterated \<Rightarrow> ''iterated'' | MTTKRP_All_Method_other n \<Rightarrow> ''other'')"

definition demo_cuda :: space_prop where
  "demo_cuda = \<lparr>is_cuda = True, concurrency = 5120, cuda_arch = 700, sizeof_ttb_real = 8\<rparr>"

definition demo_params :: "MTTKRP_All_Method \<Rightarrow> AlgParams" where
  "demo_params m =
     \<lparr>solver_method = GCP_SGD, maxiters = 1000, mttkrp_method = MTTKRP_Atomic, mttkrp_all_method = m,
      sampling_type = SemiStratified,
      num_samples_nonzeros_value = 0, num_samples_zeros_value = 0,
      num_samples_nonzeros_grad = 0, num_samples_zeros_grad = 0,
      w_f_nz = Finite (- 1), w_f_z = Finite (- 1), w_g_nz = Finite (- 1), w_g_z = Finite (- 1),
      fuse = True\<rparr>"

section \<open>The constructor of SemiStratifiedSampler (Genten_GCP_SemiStratifiedSampler.hpp)\<close>

text \<open>
  The members that the constructor sets.  The sample counts carry the names of the
  members; the counts of the configuration are the fields of \<open>AlgParams\<close>.
\<close>

record SemiStratifiedSampler =
  nsamples_nonzeros_value :: nat
  nsamples_zeros_value :: nat
  nsamples_nonzeros_grad :: nat
  nsamples_zeros_grad :: nat
  weight_nonzeros_value :: fp
  weight_zeros_value :: fp
  weight_nonzeros_grad :: fp
  weight_zeros_grad :: fp

text \<open>
  \<open>nnz\<close> is \<^verbatim>\<open>X.nnz()\<close> and \<open>tsz\<close> is \<^verbatim>\<open>X.numel_float()\<close>, the number of entries of the
  tensor as a floating-point number.  \<^verbatim>\<open>gtmp\<close> is computed before any test, so that
  \<^verbatim>\<open>maxiters == 0\<close> divides by zero whatever the configuration says.
\<close>

definition SemiStratifiedSampler_init ::
  "nat \<Rightarrow> fp \<Rightarrow> AlgParams \<Rightarrow> genten_error + SemiStratifiedSampler" where
  "SemiStratifiedSampler_init nnz tsz algParams =
     (let nz = fp_sub tsz (fp_of_indx nnz);
          maxEpochs = maxiters algParams;
          ftmp = indx_max (indx_wrap (nnz + 99) div 100) 100000
      in if maxEpochs = 0 then Inl DivisionByZero
         else
           let gtmp = indx_max (indx_wrap (indx_wrap (indx_wrap (3 * nnz) + maxEpochs) + 2 ^ 64 - 1)
                                 div maxEpochs) 1000;
               nsnv = (if num_samples_nonzeros_value algParams = 0 then indx_min ftmp nnz
                       else num_samples_nonzeros_value algParams)
           in case (if num_samples_zeros_value algParams = 0
                    then indx_of_fp (fp_min (fp_of_indx nsnv) nz)
                    else Inr (num_samples_zeros_value algParams)) of
                Inl err \<Rightarrow> Inl err
              | Inr nszv \<Rightarrow>
                  let nsng = (if num_samples_nonzeros_grad algParams = 0 then indx_min gtmp nnz
                              else num_samples_nonzeros_grad algParams)
                  in case (if num_samples_zeros_grad algParams = 0
                           then indx_of_fp (fp_min (fp_of_indx nsng) nz)
                           else Inr (num_samples_zeros_grad algParams)) of
                       Inl err \<Rightarrow> Inl err
                     | Inr nszg \<Rightarrow>
                         Inr \<lparr>nsamples_nonzeros_value = nsnv,
                              nsamples_zeros_value = nszv,
                              nsamples_nonzeros_grad = nsng,
                              nsamples_zeros_grad = nszg,
                              weight_nonzeros_value =
                                (if fp_less (w_f_nz algParams) (Finite 0)
                                 then fp_div (fp_of_indx nnz) (fp_of_indx nsnv)
                                 else w_f_nz algParams),
                              weight_zeros_value =
                                (if fp_less (w_f_z algParams) (Finite 0)
                                 then fp_div (fp_sub tsz (fp_of_indx nnz)) (fp_of_indx nszv)
                                 else w_f_z algParams),
                              weight_nonzeros_grad =
                                (if fp_less (w_g_nz algParams) (Finite 0)
                                 then fp_div (fp_of_indx nnz) (fp_of_indx nsng)
                                 else w_g_nz algParams),
                              weight_zeros_grad =
                                (if fp_less (w_g_z algParams) (Finite 0)
                                 then fp_div tsz (fp_of_indx nszg)
                                 else w_g_z algParams)\<rparr>)"

text \<open>
  The sample counts that the constructor arrives at when no arithmetic wraps around, in
  closed form; the statements about the constructor refer to them.
\<close>

definition default_nsnv :: "nat \<Rightarrow> AlgParams \<Rightarrow> nat" where
  "default_nsnv nnz ap =
     (if num_samples_nonzeros_value ap = 0 then min (max ((nnz + 99) div 100) 100000) nnz
      else num_samples_nonzeros_value ap)"

definition default_nsng :: "nat \<Rightarrow> AlgParams \<Rightarrow> nat" where
  "default_nsng nnz ap =
     (if num_samples_nonzeros_grad ap = 0
      then min (max ((3 * nnz + (maxiters ap - 1)) div maxiters ap) 1000) nnz
      else num_samples_nonzeros_grad ap)"

definition default_nszv :: "nat \<Rightarrow> nat \<Rightarrow> AlgParams \<Rightarrow> nat" where
  "default_nszv nnz numel ap =
     (if num_samples_zeros_value ap = 0 then min (default_nsnv nnz ap) (numel - nnz)
      else num_samples_zeros_value ap)"

definition default_nszg :: "nat \<Rightarrow> nat \<Rightarrow> AlgParams \<Rightarrow> nat" where
  "default_nszg nnz numel ap =
     (if num_samples_zeros_grad ap = 0 then min (default_nsng nnz ap) (numel - nnz)
      else num_samples_zeros_grad ap)"

definition demo_sampler_params :: "nat \<Rightarrow> AlgParams" where
  "demo_sampler_params n =
     \<lparr>solver_method = GCP_SGD, maxiters = 1000, mttkrp_method = MTTKRP_Default,
      mttkrp_all_method = All_Default, sampling_type = SemiStratified,
      num_samples_nonzeros_value = n, num_samples_zeros_value = n,
      num_samples_nonzeros_grad = n, num_samples_zeros_grad = n,
      w_f_nz = Finite (- 1), w_f_z = Finite (- 1), w_g_nz = Finite (- 1), w_g_z = Finite (- 1),
      fuse = True\<rparr>"

section \<open>Ktensors (Genten_Ktensor.hpp, Genten_Ktensor.cpp)\<close>

text \<open>
  A Ktensor is a vector of weights (\<^verbatim>\<open>lambda\<close>) and one factor matrix per mode (\<^verbatim>\<open>data\<close>),
  each with one column per component.  A factor matrix is the list of its rows.  The
  entries are \<^verbatim>\<open>ttb_real\<close>; the arithmetic on them is modelled on the real numbers, without
  rounding, and results that are not finite are outside the model.
\<close>

type_synonym facmat = "real list list"

record ktensor =
  weights :: "real list"
  factors :: "facmat list"

definition ncomponents :: "ktensor \<Rightarrow> nat" where
  "ncomponents M = length (weights M)"

definition ndims :: "ktensor \<Rightarrow> nat" where
  "ndims M = length (factors M)"

text \<open>\<^verbatim>\<open>setWeights(val)\<close> assigns \<open>val\<close> to every weight; \<^verbatim>\<open>weights().times(c)\<close> scales them.\<close>

definition setWeights :: "real \<Rightarrow> ktensor \<Rightarrow> ktensor" where
  "setWeights val M = M\<lparr>weights := map (\<lambda>_. val) (weights M)\<rparr>"

definition weights_times :: "real \<Rightarrow> ktensor \<Rightarrow> ktensor" where
  "weights_times c M = M\<lparr>weights := map (\<lambda>w. w * c) (weights M)\<rparr>"

text \<open>
  \<^verbatim>\<open>normFsq\<close>.  The matrix \<^verbatim>\<open>cH\<close> starts as all ones and is multiplied entry by entry
  with the Gramian of every factor matrix; \<^verbatim>\<open>FacMatrixT::gramian\<close> is not among the
  sources at hand and is the parameter \<open>gramian\<close>.  The reduction adds, for every
  component \<open>r\<close>, \<^verbatim>\<open>lr * lr * cH(r,r)\<close> and \<^verbatim>\<open>2 * lr * l[q] * cH(r,q)\<close> for every \<open>q > r\<close>.
\<close>

definition hadamard_of_gramians ::
  "(facmat \<Rightarrow> nat \<Rightarrow> nat \<Rightarrow> real) \<Rightarrow> facmat list \<Rightarrow> nat \<Rightarrow> nat \<Rightarrow> real" where
  "hadamard_of_gramians gramian dat r q = fold (\<lambda>A h. h * gramian A r q) dat 1"

definition normFsq :: "(facmat \<Rightarrow> nat \<Rightarrow> nat \<Rightarrow> real) \<Rightarrow> ktensor \<Rightarrow> real" where
  "normFsq gramian M =
     (let n = ncomponents M; l = weights M; cH = hadamard_of_gramians gramian (factors M)
      in \<Sum>r \<leftarrow> [0..<n]. l ! r * l ! r * cH r r + (\<Sum>q \<leftarrow> [r + 1..<n]. 2 * l ! r * l ! q * cH r q))"

text \<open>
  The random initial guess of \<^verbatim>\<open>driver\<close>: unit weights, random factor matrices \<open>mats\<close>
  (the outcome of \<^verbatim>\<open>setMatricesScatter\<close>), then the weights are scaled by
  \<^verbatim>\<open>norm_x / norm_u\<close>.  The quotient is finite only for \<^verbatim>\<open>norm_u \<noteq> 0\<close>.
\<close>

definition driver_initial_guess ::
  "(facmat \<Rightarrow> nat \<Rightarrow> nat \<Rightarrow> real) \<Rightarrow> real \<Rightarrow> nat \<Rightarrow> facmat list \<Rightarrow> ktensor option" where
  "driver_initial_guess gramian norm_x rank mats =
     (let u_init = setWeights 1 \<lparr>weights = replicate rank 1, factors = mats\<rparr>;
          norm_u = sqrt (normFsq gramian u_init)
      in if norm_u = 0 then None
         else Some (weights_times (norm_x / norm_u) u_init))"

text \<open>
  \<^verbatim>\<open>KtensorT::distribute()\<close>: the \<open>nd\<close>-th root of every weight is taken
  (\<^verbatim>\<open>lambda.power(1.0/nd)\<close>), the columns of every factor matrix are scaled by the rooted
  weights (\<^verbatim>\<open>data[i].colScale(lambda, false)\<close>), and the weights are reset to 1.

  \<^verbatim>\<open>ArrayT::power\<close> and \<^verbatim>\<open>FacMatrixT::colScale\<close> are not among the sources at hand.  By the
  comments at the two calls (\<^verbatim>\<open>Take nd^th root of each component of lambda\<close>,
  \<^verbatim>\<open>Scale factor matrix columns by rooted lambda\<close>), \<^verbatim>\<open>power(a)\<close> is \<^verbatim>\<open>std::pow\<close> on every
  entry and \<^verbatim>\<open>colScale(v, false)\<close> multiplies column \<open>j\<close> by \<open>v[j]\<close>.  On the reals,
  \<^verbatim>\<open>pow(w, 1.0/nd)\<close> is \<open>w\<close> for \<open>nd = 1\<close> and the \<open>nd\<close>-th root for \<open>w \<ge> 0\<close>; for a negative
  \<open>w\<close> and \<open>nd > 1\<close> it is NaN, which is outside the model (\<open>None\<close>).  With no mode at all
  the loop over the factor matrices is empty and only the reset of the weights is seen.
\<close>

definition power_nd_root :: "nat \<Rightarrow> real \<Rightarrow> real option" where
  "power_nd_root nd w =
     (if nd = 1 then Some w
      else if 0 \<le> w then Some (root nd w)
      else None)"

definition colScale :: "real list \<Rightarrow> facmat \<Rightarrow> facmat" where
  "colScale v A = map (\<lambda>row. map2 (\<lambda>x c. x * c) row v) A"

definition distribute :: "ktensor \<Rightarrow> ktensor option" where
  "distribute M =
     (let nd = ndims M;
          rooted = map (power_nd_root nd) (weights M)
      in if nd = 0 then Some (M\<lparr>weights := map (\<lambda>_. 1) (weights M)\<rparr>)
         else if None \<in> set rooted then None
         else Some \<lparr>weights = map (\<lambda>_. 1) (weights M),
                    factors = map (colScale (map the rooted)) (factors M)\<rparr>)"

text \<open>The Gramian of a matrix given by its rows, for the closed instances.\<close>

definition rows_gramian :: "facmat \<Rightarrow> nat \<Rightarrow> nat \<Rightarrow> real" where
  "rows_gramian A r q = (\<Sum>row \<leftarrow> A. row ! r * row ! q)"

section \<open>The fused semi-stratified gradient kernel (Genten_GCP_SS_Grad_Streaming_Def.hpp)\<close>

text \<open>
  \<^verbatim>\<open>gcp_sgd_ss_grad_atomic_kernel\<close>.  A sparse tensor is the list of the subscripts of its
  nonzeros, the list of their values and the sizes of its modes.
\<close>

record sptensor =
  subs :: "nat list list"
  vals :: "real list"
  sizes :: "nat list"

definition entry :: "facmat \<Rightarrow> nat \<Rightarrow> nat \<Rightarrow> real" where
  "entry A i j = A ! i ! j"

text \<open>
  \<^verbatim>\<open>compute_Ktensor_value(M, ind)\<close> (Genten_Ktensor.hpp): for every component the weight
  times the entries of all factor matrices at the rows \<open>ind\<close>, summed over the components.
\<close>

definition compute_Ktensor_value :: "ktensor \<Rightarrow> nat list \<Rightarrow> real" where
  "compute_Ktensor_value M ind =
     (\<Sum>j \<leftarrow> [0..<ncomponents M].
        fold (\<lambda>m tmp. tmp * entry (factors M ! m) (ind ! m) j) [0..<ndims M] (weights M ! j))"

text \<open>
  The kernel works on blocks of \<^verbatim>\<open>FacBlockSize\<close> columns with \<^verbatim>\<open>TinyVec\<close>
  (Genten_TinyVec.hpp, not among the sources at hand), whose operations act on each column
  of the block separately; the model works column by column.

  The loop \<^verbatim>\<open>for (m = 0; m < bound; ++m) if (m != n) tmp *= &(M[m].entry(ind[m],j))\<close>
  of \<^verbatim>\<open>row_func\<close>, started at \<open>v\<close>:
\<close>

definition row_product :: "ktensor \<Rightarrow> nat list \<Rightarrow> nat \<Rightarrow> nat \<Rightarrow> nat \<Rightarrow> real \<Rightarrow> real" where
  "row_product M ind bound n j v =
     fold (\<lambda>m tmp. if m \<noteq> n then tmp * entry (factors M ! m) (ind ! m) j else tmp) [0..<bound] v"

text \<open>
  \<^verbatim>\<open>Kokkos::atomic_add(&(G[n].entry(k,j)), tmp)\<close>.  The atomic additions of concurrent
  samples commute on the reals; the model performs them one after the other.  A write
  outside \<open>G\<close> is undefined behaviour and an error of the model.
\<close>

definition atomic_add :: "facmat list \<Rightarrow> nat \<Rightarrow> nat \<Rightarrow> nat \<Rightarrow> real \<Rightarrow> genten_error + facmat list" where
  "atomic_add G n k j tmp =
     (if n < length G \<and> k < length (G ! n) \<and> j < length (G ! n ! k)
      then Inr (G[n := (G ! n)[k := (G ! n ! k)[j := G ! n ! k ! j + tmp]]])
      else Inl OutOfBounds)"

fun for_each :: "('a \<Rightarrow> 's \<Rightarrow> genten_error + 's) \<Rightarrow> 'a list \<Rightarrow> 's \<Rightarrow> genten_error + 's" where
  "for_each body [] s = Inr s"
| "for_each body (x # xs) s = (case body x s of Inl err \<Rightarrow> Inl err | Inr s' \<Rightarrow> for_each body xs s')"

text \<open>
  \<^verbatim>\<open>row_func\<close> of the nonzero samples: the product runs over \<^verbatim>\<open>m < nd\<close>.  With a previous
  model (\<^verbatim>\<open>have_Mprev\<close>) the term for \<^verbatim>\<open>yt_val\<close> is added as well.
\<close>

definition nonzero_row_func ::
  "ktensor \<Rightarrow> bool \<Rightarrow> nat \<Rightarrow> nat list \<Rightarrow> real \<Rightarrow> real \<Rightarrow> nat \<Rightarrow> nat \<Rightarrow> nat \<Rightarrow>
   facmat list \<Rightarrow> genten_error + facmat list" where
  "nonzero_row_func M have_Mprev nd ind y_val yt_val j k n G =
     (case atomic_add G n k j (row_product M ind nd n j y_val) of
        Inl err \<Rightarrow> Inl err
      | Inr G1 \<Rightarrow>
          if have_Mprev then atomic_add G1 n k j (row_product M ind nd n j yt_val)
          else Inr G1)"

text \<open>
  \<^verbatim>\<open>row_func\<close> of the zero samples: the first product runs over \<^verbatim>\<open>m < d\<close>, the number of
  modes in \<^verbatim>\<open>modes\<close>; the product for \<^verbatim>\<open>yt_val\<close> runs over \<^verbatim>\<open>m < nd\<close>.
\<close>

definition zero_row_func ::
  "ktensor \<Rightarrow> bool \<Rightarrow> nat \<Rightarrow> nat \<Rightarrow> nat list \<Rightarrow> real \<Rightarrow> real \<Rightarrow> nat \<Rightarrow> nat \<Rightarrow> nat \<Rightarrow>
   facmat list \<Rightarrow> genten_error + facmat list" where
  "zero_row_func M have_Mprev d nd ind y_val yt_val j k n G =
     (case atomic_add G n k j (row_product M ind d n j y_val) of
        Inl err \<Rightarrow> Inl err
      | Inr G1 \<Rightarrow>
          if have_Mprev then atomic_add G1 n k j (row_product M ind nd n j yt_val)
          else Inr G1)"

definition have_Mprev :: "ktensor \<Rightarrow> bool" where
  "have_Mprev Mprev = (ndims Mprev > 0 \<and> ncomponents Mprev > 0)"

text \<open>
  One nonzero sample: \<open>i\<close> is the position drawn by \<^verbatim>\<open>Rand::draw(gen,0,nnz)\<close>.  The loop
  over the modes runs over \<^verbatim>\<open>n < d\<close>, reads \<^verbatim>\<open>nn = modes[n]\<close> and \<^verbatim>\<open>k = ind[nn]\<close>, and
  calls \<^verbatim>\<open>row_func\<close> with \<^verbatim>\<open>nn\<close> for every column.  \<open>deriv\<close> is \<^verbatim>\<open>f.deriv\<close>.
\<close>

definition nonzero_sample ::
  "sptensor \<Rightarrow> ktensor \<Rightarrow> ktensor \<Rightarrow> ktensor \<Rightarrow> (real \<Rightarrow> real \<Rightarrow> real) \<Rightarrow> real \<Rightarrow> nat list \<Rightarrow>
   nat \<Rightarrow> facmat list \<Rightarrow> genten_error + facmat list" where
  "nonzero_sample X M Mt Mprev deriv weight_nonzeros modes i G =
     (let d = length modes; nd = ndims M; nc = ncomponents M
      in if \<not> (i < length (subs X) \<and> i < length (vals X) \<and> nd \<le> length (subs X ! i))
         then Inl OutOfBounds
         else
           let ind = take nd (subs X ! i);
               x_val = vals X ! i;
               m_val = compute_Ktensor_value M ind;
               y_val = weight_nonzeros * (deriv x_val m_val - deriv 0 m_val);
               yt_val = (if have_Mprev Mprev
                         then weight_nonzeros *
                              deriv (compute_Ktensor_value Mprev ind) (compute_Ktensor_value Mt ind)
                         else 0)
           in for_each
                (\<lambda>n G. let nn = modes ! n in
                        if \<not> nn < length ind then Inl OutOfBounds
                        else let k = ind ! nn in
                          for_each (\<lambda>j G. nonzero_row_func M (have_Mprev Mprev) nd ind y_val yt_val j k nn G)
                            [0..<nc] G)
                [0..<d] G)"

text \<open>
  One zero sample: \<open>ind\<close> are the coordinates drawn by \<^verbatim>\<open>Rand::draw(gen,0,X.size(m))\<close>.
  The loop over the modes runs over \<^verbatim>\<open>n < nd\<close> and reads \<^verbatim>\<open>modes[n]\<close>, which lies
  outside \<^verbatim>\<open>modes\<close> for \<^verbatim>\<open>n \<ge> d\<close>.
\<close>

definition zero_sample ::
  "ktensor \<Rightarrow> ktensor \<Rightarrow> ktensor \<Rightarrow> (real \<Rightarrow> real \<Rightarrow> real) \<Rightarrow> real \<Rightarrow> nat list \<Rightarrow>
   nat list \<Rightarrow> facmat list \<Rightarrow> genten_error + facmat list" where
  "zero_sample M Mt Mprev deriv weight_zeros modes ind G =
     (let d = length modes; nd = ndims M; nc = ncomponents M
      in if length ind \<noteq> nd then Inl OutOfBounds
         else
           let m_val = compute_Ktensor_value M ind;
               y_val = weight_zeros * deriv 0 m_val;
               yt_val = (if have_Mprev Mprev
                         then weight_zeros *
                              deriv (compute_Ktensor_value Mprev ind) (compute_Ktensor_value Mt ind)
                         else 0)
           in for_each
                (\<lambda>n G. if \<not> n < length modes then Inl OutOfBounds
                        else let nn = modes ! n in
                          if \<not> nn < length ind then Inl OutOfBounds
                          else let k = ind ! nn in
                            for_each (\<lambda>j G. zero_row_func M (have_Mprev Mprev) d nd ind y_val yt_val j k nn G)
                              [0..<nc] G)
                [0..<nd] G)"

text \<open>
  The kernel: the nonzero samples at the drawn positions, then the zero samples at the
  drawn coordinates.
\<close>

definition gcp_sgd_ss_grad_atomic_kernel ::
  "sptensor \<Rightarrow> ktensor \<Rightarrow> ktensor \<Rightarrow> ktensor \<Rightarrow> (real \<Rightarrow> real \<Rightarrow> real) \<Rightarrow> real \<Rightarrow> real \<Rightarrow>
   nat list \<Rightarrow> nat list \<Rightarrow> nat list list \<Rightarrow> facmat list \<Rightarrow> genten_error + facmat list" where
  "gcp_sgd_ss_grad_atomic_kernel X M Mt Mprev deriv weight_nonzeros weight_zeros modes
       drawn_nonzeros drawn_zeros G =
     (case for_each (nonzero_sample X M Mt Mprev deriv weight_nonzeros modes) drawn_nonzeros G of
        Inl err \<Rightarrow> Inl err
      | Inr G1 \<Rightarrow> for_each (zero_sample M Mt Mprev deriv weight_zeros modes) drawn_zeros G1)"

text \<open>
  A concrete instance: three modes of size 1, one component, factor entries 2, 3 and 5;
  the Gaussian loss, whose derivative in the model value is \<open>2 (m - x)\<close>; one nonzero of
  value 1 at the only coordinate.  The same Ktensor serves as the previous model, so that
  the term for \<^verbatim>\<open>yt_val\<close> is zero.
\<close>

definition demo_M :: ktensor where
  "demo_M = \<lparr>weights = [1], factors = [[[2]], [[3]], [[5]]]\<rparr>"

definition gaussian_deriv :: "real \<Rightarrow> real \<Rightarrow> real" where
  "gaussian_deriv x m = 2 * (m - x)"

definition demo_X :: sptensor where
  "demo_X = \<lparr>subs = [[0, 0, 0]], vals = [1], sizes = [1, 1, 1]\<rparr>"

section \<open>The processor grid (CartGrid and the Cartesian communicator)\<close>

text \<open>
  The numbers of processes and the mode sizes are \<^verbatim>\<open>int\<close>s that are never negative here;
  they are modelled as natural numbers, and the storage count (\<^verbatim>\<open>int64_t\<close>) as an integer,
  taken without overflow.

  \<^verbatim>\<open>divisors\<close>: the list starts with \<open>input\<close> itself; \<^verbatim>\<open>int sroot = std::sqrt(input)\<close> is the
  integer square root; every \<open>i\<close> from 1 to \<open>sroot\<close> that divides \<open>input\<close> is appended, and
  \<open>input / i\<close> with it unless \<open>i\<close> is \<open>sroot\<close>; the list is sorted at the end.
\<close>

definition int_sqrt :: "nat \<Rightarrow> nat" where
  "int_sqrt input = last (filter (\<lambda>i. i * i \<le> input) [0..<Suc input])"

definition divisors :: "nat \<Rightarrow> nat list" where
  "divisors input =
     (let sroot = int_sqrt input
      in sort (input # concat (map (\<lambda>i. if input mod i = 0
                                         then (if i \<noteq> sroot then [i, input div i] else [i])
                                         else [])
                                [1..<Suc sroot])))"

text \<open>
  \<^verbatim>\<open>nelementsForRank1Factors\<close>: the factor matrix of mode \<open>i\<close> is held by
  \<^verbatim>\<open>nprocs / grid[i]\<close> processes.
\<close>

definition nelementsForRank1Factors :: "nat list \<Rightarrow> nat list \<Rightarrow> genten_error + int" where
  "nelementsForRank1Factors grid tensor_dims =
     (let nprocs = prod_list grid
      in if 0 \<in> set grid then Inl DivisionByZero
         else if length tensor_dims < length grid then Inl OutOfBounds
         else Inr (\<Sum>i \<leftarrow> [0..<length grid]. int (nprocs div (grid ! i)) * int (tensor_dims ! i)))"

definition INT64_MAX :: int where
  "INT64_MAX = 2 ^ 63 - 1"

text \<open>
  \<^verbatim>\<open>recurseMinSpaceGrid(nprocs, grid, tensor_dims, dims_remaining)\<close> writes into \<open>grid\<close>,
  which the model returns.  The state of the loop over the divisors is \<open>grid\<close>, the copy
  \<open>test\<close> (which the recursive call writes into) and \<open>min_storage\<close>.  The function is
  called with \<open>dims_remaining \<le> grid.size()\<close> only.
\<close>

fun recurseMinSpaceGrid :: "nat \<Rightarrow> nat list \<Rightarrow> nat list \<Rightarrow> nat \<Rightarrow> genten_error + nat list" where
  "recurseMinSpaceGrid nprocs grid tensor_dims 0 = Inl AssertionFailed"
| "recurseMinSpaceGrid nprocs grid tensor_dims (Suc 0) = Inr (grid[length grid - 1 := nprocs])"
| "recurseMinSpaceGrid nprocs grid tensor_dims (Suc (Suc k)) =
     (let current_index = length grid - Suc (Suc k)
      in case fold (\<lambda>d acc.
                 case acc of
                   Inl err \<Rightarrow> Inl err
                 | Inr (grid', test, min_storage) \<Rightarrow>
                     if d = 0 then Inl DivisionByZero
                     else
                       case recurseMinSpaceGrid (nprocs div d) (test[current_index := d])
                              tensor_dims (Suc k) of
                         Inl err \<Rightarrow> Inl err
                       | Inr test' \<Rightarrow>
                           (case nelementsForRank1Factors test' tensor_dims of
                              Inl err \<Rightarrow> Inl err
                            | Inr test_storage \<Rightarrow>
                                if test_storage < min_storage
                                then Inr (test', test', test_storage)
                                else Inr (grid', test', min_storage)))
             (divisors nprocs) (Inr (grid, grid, INT64_MAX)) of
           Inl err \<Rightarrow> Inl err
         | Inr (grid', test, min_storage) \<Rightarrow> Inr grid')"

definition minFactorSpaceGrid :: "nat \<Rightarrow> nat list \<Rightarrow> genten_error + nat list" where
  "minFactorSpaceGrid nprocs tensor_dims =
     (let grid = replicate (length tensor_dims) 0
      in recurseMinSpaceGrid nprocs grid tensor_dims (length tensor_dims))"

definition minAllReduceComm :: "nat \<Rightarrow> nat list \<Rightarrow> genten_error + nat list" where
  "minAllReduceComm nprocs tensor_dims = minFactorSpaceGrid nprocs tensor_dims"

datatype CartGridStratagy = MinAllReduceComm | MinFactorSpace

definition CartGrid :: "nat \<Rightarrow> nat list \<Rightarrow> CartGridStratagy \<Rightarrow> genten_error + nat list" where
  "CartGrid nprocs tensor_dims strat =
     (case strat of
        MinAllReduceComm \<Rightarrow> minAllReduceComm nprocs tensor_dims
      | MinFactorSpace \<Rightarrow> minFactorSpaceGrid nprocs tensor_dims)"

text \<open>
  The Cartesian communicator.  \<^verbatim>\<open>MPI_Cart_create\<close> numbers the processes of the grid in
  row-major order of their coordinates (\<^verbatim>\<open>MPI_Cart_coords\<close>), and \<^verbatim>\<open>MPI_Cart_sub\<close> with
  \<^verbatim>\<open>dim_filter[i] = 0\<close> and 1 elsewhere puts into one sub-communicator the processes that
  differ in the kept dimensions only, that is the processes with the same coordinate \<open>i\<close>.
\<close>

fun cart_coords :: "nat list \<Rightarrow> nat \<Rightarrow> nat list" where
  "cart_coords [] r = []"
| "cart_coords (d # ds) r = (r div prod_list ds) # cart_coords ds (r mod prod_list ds)"

definition cart_sub :: "nat list \<Rightarrow> nat \<Rightarrow> nat \<Rightarrow> nat list" where
  "cart_sub dims i r =
     filter (\<lambda>q. cart_coords dims q ! i = cart_coords dims r ! i) [0..<prod_list dims]"

section \<open>Synchronisation across the process grid (DistGCP::allReduceKT and the inner loops)\<close>

text \<open>
  The processor map.  Its constructor is modelled further down; the accessors of
  \<^verbatim>\<open>Genten_Pmap.hpp\<close> are not among the sources at hand and are taken to return the members
  that the constructor sets: \<^verbatim>\<open>gridSize()\<close> the size of the Cartesian communicator
  (\<^verbatim>\<open>grid_nprocs_\<close>), \<^verbatim>\<open>subCommSizes()\<close> the sizes of the sub-communicators of the modes
  (\<^verbatim>\<open>sub_comm_sizes_\<close>), and \<^verbatim>\<open>subComm(i)\<close> the sub-communicator of mode \<open>i\<close> (\<^verbatim>\<open>sub_maps_[i]\<close>),
  given here for every rank as the list of the ranks that belong to it.  \<open>nprocs\<close> is
  \<^verbatim>\<open>spTensor_.nprocs()\<close>, the number of processes over which the tensor is distributed.

  All processes run the same program and meet in the collective calls; the state of a
  step is the list of the states of all ranks, and a collective call acts on the list.
\<close>

record pmap =
  nprocs :: nat
  gridSize :: nat
  subCommSizes :: "nat list"
  subComm :: "nat \<Rightarrow> nat \<Rightarrow> nat list"

text \<open>
  \<^verbatim>\<open>MPI_Allreduce(MPI_IN_PLACE, fac_ptr, fac_size, ..., MPI_SUM, subComm)\<close>: the buffer of
  the calling rank (\<open>own\<close>) receives, entry by entry, the sum of the buffers of all
  members of the communicator (\<open>bufs\<close>, which includes \<open>own\<close>).
\<close>

definition MPI_Allreduce_SUM :: "facmat \<Rightarrow> facmat list \<Rightarrow> facmat" where
  "MPI_Allreduce_SUM own bufs =
     map (\<lambda>a. map (\<lambda>b. \<Sum>buf \<leftarrow> bufs. buf ! a ! b) [0..<length (own ! a)]) [0..<length own]"

text \<open>\<^verbatim>\<open>FacMatrixT::times(scale)\<close>: every entry is multiplied by the scalar.\<close>

definition facmat_times :: "real \<Rightarrow> facmat \<Rightarrow> facmat" where
  "facmat_times scale A = map (map (\<lambda>x. x * scale)) A"

text \<open>
  One pass of the first loop of \<^verbatim>\<open>allReduceKT\<close>, for mode \<open>i\<close>, on all ranks at once: a
  mode whose sub-communicator has size 1 is skipped; otherwise every rank's factor matrix
  \<open>i\<close> is replaced by the sum over its sub-communicator.
\<close>

definition allreduce_mode :: "pmap \<Rightarrow> nat \<Rightarrow> ktensor list \<Rightarrow> ktensor list" where
  "allreduce_mode pm i gs =
     (if subCommSizes pm ! i = 1 then gs
      else map (\<lambda>r. (gs ! r)\<lparr>factors := (factors (gs ! r))
                  [i := MPI_Allreduce_SUM (factors (gs ! r) ! i)
                          (map (\<lambda>q. factors (gs ! q) ! i) (subComm pm i r))]\<rparr>)
             [0..<length gs])"

text \<open>One pass of the second loop, for mode \<open>d\<close>: \<^verbatim>\<open>g.factors()[d].times(1.0 / gridSizes[d])\<close>.\<close>

definition scale_mode :: "pmap \<Rightarrow> nat \<Rightarrow> ktensor list \<Rightarrow> ktensor list" where
  "scale_mode pm d gs =
     map (\<lambda>g. g\<lparr>factors := (factors g)[d := facmat_times (1 / real (subCommSizes pm ! d)) (factors g ! d)]\<rparr>) gs"

text \<open>\<^verbatim>\<open>allReduceKT(g, divide_by_grid_size)\<close> on the Ktensors \<open>gs\<close> of all ranks; \<open>nd\<close> is \<^verbatim>\<open>ndims()\<close>.\<close>

definition allReduceKT :: "pmap \<Rightarrow> nat \<Rightarrow> bool \<Rightarrow> ktensor list \<Rightarrow> ktensor list" where
  "allReduceKT pm nd divide_by_grid_size gs =
     (if nprocs pm = 1 then gs
      else
        let gs1 = fold (allreduce_mode pm) [0..<nd] gs
        in if divide_by_grid_size then fold (scale_mode pm) [0..<nd] gs1 else gs1)"

text \<open>
  The state of a rank in the inner loops: the parameter vector \<^verbatim>\<open>u\<close> (the Ktensor \<^verbatim>\<open>ut\<close>
  is a view of it), the gradient vector \<^verbatim>\<open>g\<close> (with its view \<^verbatim>\<open>GFac\<close>), the stepper and
  the sampler with its random pool.
\<close>

record ('s, 'r) rank_state =
  rk_u :: ktensor
  rk_g :: ktensor
  rk_stepper :: 's
  rk_sampler :: 'r

text \<open>\<^verbatim>\<open>g.zero()\<close>.\<close>

definition kt_zero :: "ktensor \<Rightarrow> ktensor" where
  "kt_zero g = g\<lparr>factors := map (map (map (\<lambda>_. 0))) (factors g)\<rparr>"

text \<open>
  The body of the inner loop of \<^verbatim>\<open>allReduceTrad\<close>.  \<open>update\<close> and \<open>eval\<close> are the
  members of the stepper (a template parameter), \<open>fusedGradient\<close> is
  \<^verbatim>\<open>sampler.fusedGradient(ut, loss, GFac, ...)\<close>, which accumulates the local gradient
  estimate into the zeroed \<^verbatim>\<open>GFac\<close>.  The flag passed to \<^verbatim>\<open>allReduceKT\<close> is \<^verbatim>\<open>false\<close> in the
  source (\<^verbatim>\<open>/* don't average */\<close>); it is a parameter of \<open>allreduce_step\<close> so that the
  averaging variant can be stated.
\<close>

definition allreduce_step ::
  "bool \<Rightarrow> pmap \<Rightarrow> nat \<Rightarrow> ('s \<Rightarrow> 's) \<Rightarrow> ('s \<Rightarrow> ktensor \<Rightarrow> ktensor \<Rightarrow> 's \<times> ktensor) \<Rightarrow>
   ('r \<Rightarrow> ktensor \<Rightarrow> ktensor \<Rightarrow> ktensor \<times> 'r) \<Rightarrow>
   ('s, 'r) rank_state list \<Rightarrow> ('s, 'r) rank_state list" where
  "allreduce_step divide_by_grid_size pm nd update eval fusedGradient rs =
     (let rs1 = map (\<lambda>x. x\<lparr>rk_stepper := update (rk_stepper x), rk_g := kt_zero (rk_g x)\<rparr>) rs;
          rs2 = map (\<lambda>x. let (G, smp) = fusedGradient (rk_sampler x) (rk_u x) (rk_g x)
                          in x\<lparr>rk_g := G, rk_sampler := smp\<rparr>) rs1;
          gs = allReduceKT pm nd divide_by_grid_size (map rk_g rs2);
          rs3 = map (\<lambda>r. (rs2 ! r)\<lparr>rk_g := gs ! r\<rparr>) [0..<length rs2]
      in map (\<lambda>x. let (st, u') = eval (rk_stepper x) (rk_g x) (rk_u x)
                    in x\<lparr>rk_stepper := st, rk_u := u'\<rparr>) rs3)"

definition allReduceTrad_iter ::
  "pmap \<Rightarrow> nat \<Rightarrow> ('s \<Rightarrow> 's) \<Rightarrow> ('s \<Rightarrow> ktensor \<Rightarrow> ktensor \<Rightarrow> 's \<times> ktensor) \<Rightarrow>
   ('r \<Rightarrow> ktensor \<Rightarrow> ktensor \<Rightarrow> ktensor \<times> 'r) \<Rightarrow>
   ('s, 'r) rank_state list \<Rightarrow> ('s, 'r) rank_state list" where
  "allReduceTrad_iter = allreduce_step False"

text \<open>\<^verbatim>\<open>for (auto i = 0; i < epochIters; ++i)\<close>: the same body in every iteration.\<close>

definition allReduceTrad_inner_loop ::
  "pmap \<Rightarrow> nat \<Rightarrow> ('s \<Rightarrow> 's) \<Rightarrow> ('s \<Rightarrow> ktensor \<Rightarrow> ktensor \<Rightarrow> 's \<times> ktensor) \<Rightarrow>
   ('r \<Rightarrow> ktensor \<Rightarrow> ktensor \<Rightarrow> ktensor \<times> 'r) \<Rightarrow> nat \<Rightarrow>
   ('s, 'r) rank_state list \<Rightarrow> ('s, 'r) rank_state list" where
  "allReduceTrad_inner_loop pm nd update eval fusedGradient epochIters rs =
     ((allReduceTrad_iter pm nd update eval fusedGradient) ^^ epochIters) rs"

text \<open>
  \<^verbatim>\<open>do_epoch_iter\<close> of fedOpt: zero the gradient, the local gradient estimate, the local
  step; and the synchronisation of the federated-averaging branch,
  \<^verbatim>\<open>allReduceKT(ut, true)\<close>, on the parameters.
\<close>

definition fedOpt_do_epoch_iter ::
  "('s \<Rightarrow> ktensor \<Rightarrow> ktensor \<Rightarrow> 's \<times> ktensor) \<Rightarrow> ('r \<Rightarrow> ktensor \<Rightarrow> ktensor \<Rightarrow> ktensor \<times> 'r) \<Rightarrow>
   ('s, 'r) rank_state list \<Rightarrow> ('s, 'r) rank_state list" where
  "fedOpt_do_epoch_iter eval fusedGradient rs =
     map (\<lambda>x. let x1 = x\<lparr>rk_g := kt_zero (rk_g x)\<rparr>;
                  (G, smp) = fusedGradient (rk_sampler x1) (rk_u x1) (rk_g x1);
                  x2 = x1\<lparr>rk_g := G, rk_sampler := smp\<rparr>;
                  (st, u') = eval (rk_stepper x2) (rk_g x2) (rk_u x2)
              in x2\<lparr>rk_stepper := st, rk_u := u'\<rparr>) rs"

definition fedavg_sync :: "pmap \<Rightarrow> nat \<Rightarrow> ('s, 'r) rank_state list \<Rightarrow> ('s, 'r) rank_state list" where
  "fedavg_sync pm nd rs =
     (let us = allReduceKT pm nd True (map rk_u rs)
      in map (\<lambda>r. (rs ! r)\<lparr>rk_u := us ! r\<rparr>) [0..<length rs])"

text \<open>
  The sum that rank \<open>r\<close> receives for mode \<open>i\<close> when the Ktensors of all ranks are \<open>gs\<close>;
  the statements about \<^verbatim>\<open>allReduceKT\<close> refer to it.
\<close>

definition subcomm_sum :: "pmap \<Rightarrow> ktensor list \<Rightarrow> nat \<Rightarrow> nat \<Rightarrow> facmat" where
  "subcomm_sum pm gs i r =
     MPI_Allreduce_SUM (factors (gs ! r) ! i) (map (\<lambda>q. factors (gs ! q) ! i) (subComm pm i r))"

text \<open>
  The processor map fits \<open>n\<close> ranks and \<open>nd\<close> modes: every sub-communicator consists of
  ranks of the grid.
\<close>

definition pmap_ok :: "pmap \<Rightarrow> nat \<Rightarrow> nat \<Rightarrow> bool" where
  "pmap_ok pm n nd = (\<forall>i < nd. \<forall>r < n. \<forall>q \<in> set (subComm pm i r). q < n)"

text \<open>
  The local gradient estimate of a rank in an inner iteration: what \<^verbatim>\<open>fusedGradient\<close>
  leaves in the zeroed \<^verbatim>\<open>GFac\<close>.
\<close>

definition local_gradient ::
  "('r \<Rightarrow> ktensor \<Rightarrow> ktensor \<Rightarrow> ktensor \<times> 'r) \<Rightarrow> ('s, 'r) rank_state \<Rightarrow> ktensor" where
  "local_gradient fusedGradient x = fst (fusedGradient (rk_sampler x) (rk_u x) (kt_zero (rk_g x)))"

subsection \<open>ProcessorMap::ProcessorMap\<close>

text \<open>
  The constructor, for \<open>nranks\<close> processes and a tensor with the mode sizes \<open>dim_sizes\<close>:
  rank 0 chooses the grid and broadcasts it; the sub-communicator of mode \<open>i\<close> and its
  size follow from \<^verbatim>\<open>MPI_Cart_sub\<close> (the size is the same on every rank and is read off
  rank 0).  The grid holds all \<open>nranks\<close> processes, over which the tensor is distributed.
\<close>

definition ProcessorMap :: "nat \<Rightarrow> nat list \<Rightarrow> genten_error + pmap" where
  "ProcessorMap nranks dim_sizes =
     (case CartGrid nranks dim_sizes MinFactorSpace of
        Inl err \<Rightarrow> Inl err
      | Inr dimension_sizes \<Rightarrow>
          Inr \<lparr>nprocs = nranks,
               gridSize = prod_list dimension_sizes,
               subCommSizes = map (\<lambda>i. length (cart_sub dimension_sizes i 0))
                                  [0..<length dimension_sizes],
               subComm = cart_sub dimension_sizes\<rparr>)"

section \<open>The initial guess of DistGCP (init_factors)\<close>

text \<open>
  \<^verbatim>\<open>DistGCP::init_factors\<close> on one rank, up to the collective call: unit weights, random
  factor matrices \<open>mats\<close> (the outcome of \<^verbatim>\<open>setMatricesScatter\<close>), the weights scaled by
  \<^verbatim>\<open>1.0 / norm_x\<close>, where \<^verbatim>\<open>norm_x\<close> is the norm of the local tensor, and
  \<^verbatim>\<open>Kfac_.distribute()\<close>.  For \<^verbatim>\<open>norm_x = 0\<close> the scale is not finite.
\<close>

definition init_factors_rank :: "real \<Rightarrow> nat \<Rightarrow> facmat list \<Rightarrow> ktensor option" where
  "init_factors_rank norm_x rank mats =
     (let Kfac = setWeights 1 \<lparr>weights = replicate rank 1, factors = mats\<rparr>
      in if norm_x = 0 then None
         else distribute (weights_times (1 / norm_x) Kfac))"

text \<open>
  The function on all ranks: rank \<open>q\<close> has the local tensor norm \<open>fst (locals ! q)\<close> and
  draws the factor matrices \<open>snd (locals ! q)\<close>; on a grid of more than one process the
  Ktensors then go through \<^verbatim>\<open>allReduceKT(Kfac_)\<close>, whose flag defaults to \<^verbatim>\<open>true\<close>.
\<close>

definition init_factors ::
  "pmap \<Rightarrow> nat \<Rightarrow> nat \<Rightarrow> (real \<times> facmat list) list \<Rightarrow> ktensor list option" where
  "init_factors pm rank nd locals =
     (let ks = map (\<lambda>x. init_factors_rank (fst x) rank (snd x)) locals
      in if None \<in> set ks then None
         else
           let Kfacs = map the ks
           in Some (if gridSize pm > 1 then allReduceKT pm nd True Kfacs else Kfacs))"

section \<open>The plain SGD stepper and a grid of two processes\<close>

text \<open>
  Modelled from the spec: \<^verbatim>\<open>SGDStep::eval\<close> (Genten_GCP_SGD_Step.hpp is not among the
  sources at hand).  "SGD: \<^verbatim>\<open>param -= rate * grad\<close>", on every entry of the factor
  matrices, and "all variants must support optional box constraints (elementwise
  lower/upper bound clamping after the update)".  The bounds are fixed when the stepper
  is built (\<open>None\<close>: no constraint); the stepper's state is its step size, set by
  \<^verbatim>\<open>setStep\<close>.
\<close>

definition box_clamp :: "(real \<times> real) option \<Rightarrow> real \<Rightarrow> real" where
  "box_clamp bounds x = (case bounds of None \<Rightarrow> x | Some (lb, ub) \<Rightarrow> min ub (max lb x))"

definition sgd_eval :: "(real \<times> real) option \<Rightarrow> real \<Rightarrow> ktensor \<Rightarrow> ktensor \<Rightarrow> real \<times> ktensor" where
  "sgd_eval bounds step g params =
     (step, params\<lparr>factors := map2 (map2 (map2 (\<lambda>param grad. box_clamp bounds (param - step * grad))))
                                  (factors params) (factors g)\<rparr>)"

text \<open>
  Modelled from the spec: \<^verbatim>\<open>SGDStep::update\<close> (Genten_GCP_SGD_Step.hpp is not among the
  sources at hand).  The spec's plain SGD keeps no state besides the step size, so that
  \<^verbatim>\<open>update\<close> leaves the stepper as it is.
\<close>

definition sgd_update :: "real \<Rightarrow> real" where
  "sgd_update st = st"

text \<open>
  Two processes and a tensor with the mode sizes 1 and 2.  \<^verbatim>\<open>CartGrid\<close> chooses the grid
  \<open>[1, 2]\<close>: mode 0 is not split, so that both ranks hold its factor matrix and form its
  sub-communicator, and mode 1 is split, so that each rank holds its own row and is alone
  in its sub-communicator.  \<open>demo_pmap\<close> is the map that the constructor builds (lemma
  \<open>demo_pmap_built\<close>).  Both ranks hold \<open>1 \<times> 1\<close> factor matrices with the entry 0 and
  use the step size 1, and the local gradient estimate is 1 in every entry on both.
\<close>

definition demo_pmap :: pmap where
  "demo_pmap = \<lparr>nprocs = 2, gridSize = 2, subCommSizes = [2, 1], subComm = cart_sub [1, 2]\<rparr>"

definition demo_rank_after :: "facmat list \<Rightarrow> facmat list \<Rightarrow> (real, unit) rank_state" where
  "demo_rank_after us gs =
     \<lparr>rk_u = \<lparr>weights = [1], factors = us\<rparr>,
      rk_g = \<lparr>weights = [1], factors = gs\<rparr>,
      rk_stepper = 1, rk_sampler = ()\<rparr>"

definition demo_rank :: "(real, unit) rank_state" where
  "demo_rank = demo_rank_after [[[0]], [[0]]] [[[0]], [[0]]]"

definition demo_gradient :: "unit \<Rightarrow> ktensor \<Rightarrow> ktensor \<Rightarrow> ktensor \<times> unit" where
  "demo_gradient smp ut GFac = (GFac\<lparr>factors := [[[1]], [[1]]]\<rparr>, smp)"

text \<open>
  The two functions of the inner loop of fedOpt (\<open>fed_inner\<close>) on the states of all
  ranks, with plain SGD without box constraints as the local stepper, which the rank
  states carry.
\<close>

definition fed_rank_iter ::
  "('r \<Rightarrow> ktensor \<Rightarrow> ktensor \<Rightarrow> ktensor \<times> 'r) \<Rightarrow>
   ((real, 'r) rank_state list, unit, unit) fed_local \<Rightarrow> ((real, 'r) rank_state list, unit, unit) fed_local" where
  "fed_rank_iter fusedGradient x = (fedOpt_do_epoch_iter (sgd_eval None) fusedGradient (fst x), snd x)"

definition fed_rank_sync ::
  "pmap \<Rightarrow> nat \<Rightarrow>
   ((real, 'r) rank_state list, unit, unit) fed_local \<Rightarrow> ((real, 'r) rank_state list, unit, unit) fed_local" where
  "fed_rank_sync pm nd x = (fedavg_sync pm nd (fst x), snd x)"

text \<open>A single process and a tensor with one mode of size 1: the grid is \<open>[1]\<close>.\<close>

definition one_process_pmap :: pmap where
  "one_process_pmap = \<lparr>nprocs = 1, gridSize = 1, subCommSizes = [1], subComm = cart_sub [1]\<rparr>"

text \<open>
  The same two ranks with local gradient estimates that differ: the sampler of a rank
  stands for the entries it has drawn, and the estimate is the number it carries, in
  every entry.
\<close>

definition demo_rank_sampling :: "real \<Rightarrow> (real, real) rank_state" where
  "demo_rank_sampling gval =
     \<lparr>rk_u = \<lparr>weights = [1], factors = [[[0]], [[0]]]\<rparr>,
      rk_g = \<lparr>weights = [1], factors = [[[0]], [[0]]]\<rparr>,
      rk_stepper = 1, rk_sampler = gval\<rparr>"

definition demo_sampled_gradient :: "real \<Rightarrow> ktensor \<Rightarrow> ktensor \<Rightarrow> ktensor \<times> real" where
  "demo_sampled_gradient smp ut GFac = (GFac\<lparr>factors := [[[smp]], [[smp]]]\<rparr>, smp)"

section \<open>Verification\<close>

subsection \<open>Medium-grain blocking\<close>













subsection \<open>Accepting and rejecting an epoch\<close>

text \<open>The inner loop of fedOpt returns unless \<^verbatim>\<open>dp_iters\<close> is zero.\<close>

lemma fed_inner_returns:
  "dp_iters \<noteq> 0 \<Longrightarrow> \<exists>x'. fed_inner d a m dp_iters fa n i x = Inr x'"
proof (induction d a m dp_iters fa n i x rule: fed_inner.induct)
  case (1 do_epoch_iter avg meta dp_iters fedavg epochIters i x)
  show ?case
  proof (cases "i < epochIters")
    case False
    then show ?thesis by (subst fed_inner.simps) (simp del: split_paired_Ex)
  next
    case True
    show ?thesis
    proof (cases "c_rem (int i + 1) dp_iters = 0 \<or> int i = int epochIters - 1")
      case sync: True
      from "1.IH"(1)[OF True refl "1.prems" sync "1.prems"]
      show ?thesis using True sync "1.prems" by (subst fed_inner.simps) (simp add: Let_def)
    next
      case nosync: False
      from "1.IH"(2)[OF True refl "1.prems" nosync "1.prems"]
      show ?thesis using True nosync "1.prems" by (subst fed_inner.simps) (simp add: Let_def)
    qed
  qed
qed

text \<open>The decision at the end of an epoch, on the state after the fit evaluation.\<close>

lemma trad_accept_reject_fields:
  fixes s :: "('u, 's, 'a) trad_state" and c :: "('u, 's, 'm, 'a) collab"
  shows "accepts (fest_prev s) (fest s) (fest_best s) \<Longrightarrow>
       stepper (trad_accept_reject c s) = stepper_setPassed c (stepper s) \<and>
       annealer (trad_accept_reject c s) = annealer_success c (annealer s) \<and>
       fest_prev (trad_accept_reject c s) = fest s \<and> u (trad_accept_reject c s) = u s \<and>
       (fp_less (fest s) (fest_best s) \<longrightarrow>
          u_best (trad_accept_reject c s) = u s \<and> fest_best (trad_accept_reject c s) = fest s) \<and>
       (\<not> fp_less (fest s) (fest_best s) \<longrightarrow>
          u_best (trad_accept_reject c s) = u_best s \<and> fest_best (trad_accept_reject c s) = fest_best s)"
    and "\<not> accepts (fest_prev s) (fest s) (fest_best s) \<Longrightarrow>
       u (trad_accept_reject c s) = u_best s \<and> u_best (trad_accept_reject c s) = u_best s \<and>
       stepper (trad_accept_reject c s) = stepper_setFailed c (stepper s) \<and>
       annealer (trad_accept_reject c s) = annealer_failed c (annealer s) \<and>
       fest_best (trad_accept_reject c s) = fest_best s \<and>
       fest_prev (trad_accept_reject c s) = fest_prev s"
  by (simp_all add: trad_accept_reject_def Let_def)

lemma fed_accept_reject_fields:
  fixes t :: "('u, 's, 'm, 'a) fed_state" and c :: "('u, 's, 'm, 'a) collab"
  shows "accepts (fest_prev t) (fest t) (fest_best t) \<Longrightarrow>
       stepper (fed_accept_reject c t) = stepper_setPassed c (stepper t) \<and>
       meta_stepper (fed_accept_reject c t) = meta_setPassed c (meta_stepper t) \<and>
       annealer (fed_accept_reject c t) = annealer_success c (annealer t) \<and>
       fest_prev (fed_accept_reject c t) = fest t \<and> u (fed_accept_reject c t) = u t \<and>
       (fp_less (fest t) (fest_best t) \<longrightarrow>
          u_best (fed_accept_reject c t) = u t \<and> fest_best (fed_accept_reject c t) = fest t) \<and>
       (\<not> fp_less (fest t) (fest_best t) \<longrightarrow>
          u_best (fed_accept_reject c t) = u_best t \<and> fest_best (fed_accept_reject c t) = fest_best t)"
    and "\<not> accepts (fest_prev t) (fest t) (fest_best t) \<Longrightarrow>
       u (fed_accept_reject c t) = u_best t \<and> u_best (fed_accept_reject c t) = u_best t \<and>
       stepper (fed_accept_reject c t) = stepper_setFailed c (stepper t) \<and>
       meta_stepper (fed_accept_reject c t) = meta_setFailed c (meta_stepper t) \<and>
       annealer (fed_accept_reject c t) = annealer_failed c (annealer t) \<and>
       fest_best (fed_accept_reject c t) = fest_best t \<and>
       fest_prev (fed_accept_reject c t) = fest_prev t"
  by (simp_all add: fed_accept_reject_def Let_def)

text \<open>
  Claim C1, as amended.  Every epoch of \<^verbatim>\<open>allReduceTrad\<close> (epoch \<open>e\<close> of the loop is
  \<open>trad_epoch\<close>) and every epoch of \<^verbatim>\<open>fedOpt\<close> whose fit estimate is not NaN (the inner loop
  returns for \<^verbatim>\<open>dp_iters \<noteq> 0\<close>, and the loop goes on with the state after the decision)
  is accepted exactly when \<^verbatim>\<open>fest_diff > -0.001 * fest_best\<close>, which for finite values is
  the inequality on the reals and is false when the fit estimate is NaN.  Here \<open>f\<close> is the
  fit estimate after the inner iterations, taken on the parameters they leave.  On accept
  the stepper (in fedOpt also the meta stepper) and the annealer are notified of success,
  \<^verbatim>\<open>fest_prev\<close> becomes \<open>f\<close> and the parameters are kept; the best snapshot (\<^verbatim>\<open>u_best\<close>,
  \<^verbatim>\<open>fest_best\<close>) is replaced only if \<open>f < fest_best\<close>, and is left alone otherwise.  On
  reject the parameters are restored from the best snapshot and the steppers and the
  annealer are notified of failure.
\<close>

theorem epoch_decision:
  fixes c :: "('u, 's, 'm, 'a) collab"
    and s :: "('u, 's, 'a) trad_state" and t :: "('u, 's, 'm, 'a) fed_state"
    and iter :: "'u \<times> 's \<Rightarrow> 'u \<times> 's" and epochIters e maxEpochs :: nat and dp_iters :: int
  assumes e: "e < maxEpochs" and dp: "dp_iters \<noteq> 0"
  defines "an \<equiv> snd (annealer_call c (annealer s) e)"
    and "x \<equiv> (iter ^^ epochIters) (u s, stepper_setStep c (fst (annealer_call c (annealer s) e)) (stepper s))"
    and "s' \<equiv> trad_epoch c iter epochIters e s"
    and "an\<^sub>t \<equiv> snd (annealer_call c (annealer t) e)"
  defines "f \<equiv> gcp_value c (fst x)"
  shows
   "(accepts (Finite p) (Finite v) (Finite b) \<longleftrightarrow> p - v > - 0.001 * b)
    \<and> \<not> accepts (fest_prev s) NaN (fest_best s)
    \<and> trad_epochs c iter epochIters maxEpochs e s = trad_epochs c iter epochIters maxEpochs (Suc e) s'
    \<and> (accepts (fest_prev s) f (fest_best s) \<longrightarrow>
         stepper s' = stepper_setPassed c (snd x) \<and>
         annealer s' = annealer_success c an \<and>
         fest_prev s' = f \<and> u s' = fst x \<and>
         (fp_less f (fest_best s) \<longrightarrow> u_best s' = fst x \<and> fest_best s' = f) \<and>
         (\<not> fp_less f (fest_best s) \<longrightarrow> u_best s' = u_best s \<and> fest_best s' = fest_best s))
    \<and> (\<not> accepts (fest_prev s) f (fest_best s) \<longrightarrow>
         u s' = u_best s \<and> u_best s' = u_best s \<and>
         stepper s' = stepper_setFailed c (snd x) \<and>
         annealer s' = annealer_failed c an \<and>
         fest_best s' = fest_best s \<and> fest_prev s' = fest_prev s)
    \<and> (\<exists>u' st' mst' t'.
         fed_inner do_epoch_iter avg meta dp_iters fedavg epochIters 0
           (u t, stepper_setStep c (fst (annealer_call c (annealer t) e)) (stepper t), meta_stepper t)
           = Inr (u', st', mst')
       \<and> t' = fed_accept_reject c
                (t\<lparr>annealer := an\<^sub>t, u := u', stepper := st', meta_stepper := mst',
                   fest := gcp_value c u'\<rparr>)
       \<and> (\<not> isnan (gcp_value c u') \<longrightarrow>
            fed_epochs c do_epoch_iter avg meta dp_iters fedavg epochIters maxEpochs e t
              = fed_epochs c do_epoch_iter avg meta dp_iters fedavg epochIters maxEpochs (Suc e) t'
          \<and> (accepts (fest_prev t) (gcp_value c u') (fest_best t) \<longrightarrow>
               stepper t' = stepper_setPassed c st' \<and>
               meta_stepper t' = meta_setPassed c mst' \<and>
               annealer t' = annealer_success c an\<^sub>t \<and>
               fest_prev t' = gcp_value c u' \<and> u t' = u' \<and>
               (fp_less (gcp_value c u') (fest_best t) \<longrightarrow>
                  u_best t' = u' \<and> fest_best t' = gcp_value c u') \<and>
               (\<not> fp_less (gcp_value c u') (fest_best t) \<longrightarrow>
                  u_best t' = u_best t \<and> fest_best t' = fest_best t))
          \<and> (\<not> accepts (fest_prev t) (gcp_value c u') (fest_best t) \<longrightarrow>
               u t' = u_best t \<and> u_best t' = u_best t \<and>
               stepper t' = stepper_setFailed c st' \<and>
               meta_stepper t' = meta_setFailed c mst' \<and>
               annealer t' = annealer_failed c an\<^sub>t \<and>
               fest_best t' = fest_best t \<and> fest_prev t' = fest_prev t)))"
proof -
  have ineq: "accepts (Finite p) (Finite v) (Finite b) \<longleftrightarrow> p - v > - 0.001 * b"
    by (simp add: accepts_def fp_sub_def fp_greater_def)
  have nan: "\<not> accepts (fest_prev s) NaN (fest_best s)"
    by (cases "fest_prev s"; cases "fest_best s")
       (simp_all add: accepts_def fp_sub_def fp_greater_def)
  have loop: "trad_epochs c iter epochIters maxEpochs e s
      = trad_epochs c iter epochIters maxEpochs (Suc e) s'"
    unfolding s'_def using e by (subst trad_epochs.simps) simp
  let ?s3 = "s\<lparr>annealer := an, u := fst x, stepper := snd x, fest := f\<rparr>"
  have s': "s' = trad_accept_reject c ?s3"
    unfolding s'_def trad_epoch_def an_def x_def f_def
    by (simp add: Let_def split_beta)
  have tr_acc: "accepts (fest_prev s) f (fest_best s) \<longrightarrow>
         stepper s' = stepper_setPassed c (snd x) \<and>
         annealer s' = annealer_success c an \<and>
         fest_prev s' = f \<and> u s' = fst x \<and>
         (fp_less f (fest_best s) \<longrightarrow> u_best s' = fst x \<and> fest_best s' = f) \<and>
         (\<not> fp_less f (fest_best s) \<longrightarrow> u_best s' = u_best s \<and> fest_best s' = fest_best s)"
    unfolding s' using trad_accept_reject_fields(1)[of ?s3 c] by simp
  have tr_rej: "\<not> accepts (fest_prev s) f (fest_best s) \<longrightarrow>
         u s' = u_best s \<and> u_best s' = u_best s \<and>
         stepper s' = stepper_setFailed c (snd x) \<and>
         annealer s' = annealer_failed c an \<and>
         fest_best s' = fest_best s \<and> fest_prev s' = fest_prev s"
    unfolding s' using trad_accept_reject_fields(2)[of ?s3 c] by simp
  obtain x' where x': "fed_inner do_epoch_iter avg meta dp_iters fedavg epochIters 0
        (u t, stepper_setStep c (fst (annealer_call c (annealer t) e)) (stepper t), meta_stepper t)
        = Inr x'"
    using fed_inner_returns[OF dp] by blast
  obtain u' st' mst' where x'_eq: "x' = (u', st', mst')" by (cases x') auto
  let ?t3 = "t\<lparr>annealer := an\<^sub>t, u := u', stepper := st', meta_stepper := mst',
                fest := gcp_value c u'\<rparr>"
  define t' where "t' = fed_accept_reject c ?t3"
  have fed_loop: "\<not> isnan (gcp_value c u') \<Longrightarrow>
         fed_epochs c do_epoch_iter avg meta dp_iters fedavg epochIters maxEpochs e t
           = fed_epochs c do_epoch_iter avg meta dp_iters fedavg epochIters maxEpochs (Suc e) t'"
    using e x' unfolding x'_eq t'_def an\<^sub>t_def
    by (subst fed_epochs.simps) (simp add: Let_def split_beta)
  have fed_acc: "accepts (fest_prev t) (gcp_value c u') (fest_best t) \<longrightarrow>
               stepper t' = stepper_setPassed c st' \<and>
               meta_stepper t' = meta_setPassed c mst' \<and>
               annealer t' = annealer_success c an\<^sub>t \<and>
               fest_prev t' = gcp_value c u' \<and> u t' = u' \<and>
               (fp_less (gcp_value c u') (fest_best t) \<longrightarrow>
                  u_best t' = u' \<and> fest_best t' = gcp_value c u') \<and>
               (\<not> fp_less (gcp_value c u') (fest_best t) \<longrightarrow>
                  u_best t' = u_best t \<and> fest_best t' = fest_best t)"
    unfolding t'_def using fed_accept_reject_fields(1)[of ?t3 c] by simp
  have fed_rej: "\<not> accepts (fest_prev t) (gcp_value c u') (fest_best t) \<longrightarrow>
               u t' = u_best t \<and> u_best t' = u_best t \<and>
               stepper t' = stepper_setFailed c st' \<and>
               meta_stepper t' = meta_setFailed c mst' \<and>
               annealer t' = annealer_failed c an\<^sub>t \<and>
               fest_best t' = fest_best t \<and> fest_prev t' = fest_prev t"
    unfolding t'_def using fed_accept_reject_fields(2)[of ?t3 c] by simp
  have fed: "\<exists>u' st' mst' t'.
         fed_inner do_epoch_iter avg meta dp_iters fedavg epochIters 0
           (u t, stepper_setStep c (fst (annealer_call c (annealer t) e)) (stepper t), meta_stepper t)
           = Inr (u', st', mst')
       \<and> t' = fed_accept_reject c
                (t\<lparr>annealer := an\<^sub>t, u := u', stepper := st', meta_stepper := mst',
                   fest := gcp_value c u'\<rparr>)
       \<and> (\<not> isnan (gcp_value c u') \<longrightarrow>
            fed_epochs c do_epoch_iter avg meta dp_iters fedavg epochIters maxEpochs e t
              = fed_epochs c do_epoch_iter avg meta dp_iters fedavg epochIters maxEpochs (Suc e) t'
          \<and> (accepts (fest_prev t) (gcp_value c u') (fest_best t) \<longrightarrow>
               stepper t' = stepper_setPassed c st' \<and>
               meta_stepper t' = meta_setPassed c mst' \<and>
               annealer t' = annealer_success c an\<^sub>t \<and>
               fest_prev t' = gcp_value c u' \<and> u t' = u' \<and>
               (fp_less (gcp_value c u') (fest_best t) \<longrightarrow>
                  u_best t' = u' \<and> fest_best t' = gcp_value c u') \<and>
               (\<not> fp_less (gcp_value c u') (fest_best t) \<longrightarrow>
                  u_best t' = u_best t \<and> fest_best t' = fest_best t))
          \<and> (\<not> accepts (fest_prev t) (gcp_value c u') (fest_best t) \<longrightarrow>
               u t' = u_best t \<and> u_best t' = u_best t \<and>
               stepper t' = stepper_setFailed c st' \<and>
               meta_stepper t' = meta_setFailed c mst' \<and>
               annealer t' = annealer_failed c an\<^sub>t \<and>
               fest_best t' = fest_best t \<and> fest_prev t' = fest_prev t))"
    apply (rule exI[of _ u'], rule exI[of _ st'], rule exI[of _ mst'], rule exI[of _ t'])
    using x' x'_eq t'_def fed_loop fed_acc fed_rej by blast
  from ineq nan loop tr_acc tr_rej fed show ?thesis by (intro conjI)
qed

text \<open>
  The theorem at epoch 0 of 1 with one inner iteration: an accepted, improving epoch of
  allReduceTrad (fit \<open>1/2\<close> after 1) and a rejected epoch of fedOpt (fit \<open>3/2\<close> after 1).
\<close>

theorem epoch_decision_witness:
  "(0::nat) < 1 \<and> (1::int) \<noteq> 0
   \<and> accepts (Finite 1) (Finite (1/2)) (Finite 1) \<and> fp_less (Finite (1/2)) (Finite 1)
   \<and> trad_epoch (demo_collab (fit_after_start (1/2))) demo_iter 1 0 demo_trad_start
       = \<lparr>u = 1, u_best = 1, fest = Finite (1/2), fest_best = Finite (1/2),
          fest_prev = Finite (1/2), stepper = 1, annealer = (1, 1)\<rparr>
   \<and> \<not> accepts (Finite 1) (Finite (3/2)) (Finite 1) \<and> \<not> isnan (Finite (3/2))
   \<and> fed_epochs (demo_collab (fit_after_start (3/2))) demo_local_iter demo_sync demo_sync 1 True 1 1 0
        demo_fed_start
       = Inr (Finite 1, \<lparr>u = 0, u_best = 0, fest = Finite 1, fest_best = Finite 1,
                fest_prev = Finite 1, stepper = - 1, annealer = (1, - 1), meta_stepper = - 1\<rparr>)"
proof -
  have hyp: "(0::nat) < 1" "(1::int) \<noteq> 0" by simp_all
  have a1: "accepts (Finite 1) (Finite (1/2)) (Finite 1)"
    using epoch_decision[OF hyp, where p = 1 and v = "1/2" and b = 1, THEN conjunct1] by simp
  have a2: "\<not> accepts (Finite 1) (Finite (3/2)) (Finite 1)"
    using epoch_decision[OF hyp, where p = 1 and v = "3/2" and b = 1, THEN conjunct1] by simp
  have run: "fp_less (Finite (1/2)) (Finite 1)
     \<and> trad_epoch (demo_collab (fit_after_start (1/2))) demo_iter 1 0 demo_trad_start
       = \<lparr>u = 1, u_best = 1, fest = Finite (1/2), fest_best = Finite (1/2),
          fest_prev = Finite (1/2), stepper = 1, annealer = (1, 1)\<rparr>
     \<and> \<not> isnan (Finite (3/2))
     \<and> fed_epochs (demo_collab (fit_after_start (3/2))) demo_local_iter demo_sync demo_sync 1 True 1 1 0
        demo_fed_start
       = Inr (Finite 1, \<lparr>u = 0, u_best = 0, fest = Finite 1, fest_best = Finite 1,
                fest_prev = Finite 1, stepper = - 1, annealer = (1, - 1), meta_stepper = - 1\<rparr>)"
    by code_simp
  from hyp a1 a2 run show ?thesis by (intro conjI) (elim conjE, assumption)+
qed

text \<open>
  Claim C1 as stated fails: from \<^verbatim>\<open>fest_prev = fest_best = 1\<close>, an epoch whose fit estimate
  is \<open>1.0005\<close> is accepted (\<open>-0.0005 > -0.001\<close>; the stepper and the annealer are notified
  of success), but \<^verbatim>\<open>fest < fest_best\<close> is false and the snapshot \<^verbatim>\<open>u_best\<close> stays at the
  parameters 0 of the start instead of the parameters 1 of the epoch, in either strategy.
\<close>

theorem accepted_without_snapshot:
  "accepts (Finite 1) (Finite (2001/2000)) (Finite 1)
   \<and> trad_epoch (demo_collab (fit_after_start (2001/2000))) demo_iter 1 0 demo_trad_start
       = \<lparr>u = 1, u_best = 0, fest = Finite (2001/2000), fest_best = Finite 1,
          fest_prev = Finite (2001/2000), stepper = 1, annealer = (1, 1)\<rparr>
   \<and> fed_epochs (demo_collab (fit_after_start (2001/2000))) demo_local_iter demo_sync demo_sync 1 True 1 1 0
        demo_fed_start
       = Inr (Finite (2001/2000),
              \<lparr>u = 1, u_best = 0, fest = Finite (2001/2000), fest_best = Finite 1,
                fest_prev = Finite (2001/2000), stepper = 1, annealer = (1, 1), meta_stepper = 1\<rparr>)"
  by code_simp

subsection \<open>A fit estimate that is not finite\<close>

text \<open>
  Claim C6, as amended.  In fedOpt (with \<^verbatim>\<open>dp_iters \<noteq> 0\<close>), an epoch's inner loop returns,
  and if the fit estimate evaluated after it is NaN, the function returns at once, with
  the value \<^verbatim>\<open>fest_best\<close>: the result does not depend on \<open>maxEpochs\<close>, and the final
  state is the state right after the fit evaluation, so that no further epoch has run.
\<close>

theorem fedOpt_nan_returns_best:
  assumes "dp_iters \<noteq> 0" and "e < maxEpochs"
  shows "\<exists>u' st' mst'.
      fed_inner do_epoch_iter avg meta dp_iters fedavg epochIters 0
        (u s, stepper_setStep c (fst (annealer_call c (annealer s) e)) (stepper s), meta_stepper s)
        = Inr (u', st', mst')
    \<and> (isnan (gcp_value c u') \<longrightarrow>
         fed_epochs c do_epoch_iter avg meta dp_iters fedavg epochIters maxEpochs e s
           = Inr (fest_best s,
                  s\<lparr>annealer := snd (annealer_call c (annealer s) e),
                    stepper := st', u := u', meta_stepper := mst', fest := gcp_value c u'\<rparr>))"
proof -
  obtain x' where x': "fed_inner do_epoch_iter avg meta dp_iters fedavg epochIters 0
        (u s, stepper_setStep c (fst (annealer_call c (annealer s) e)) (stepper s), meta_stepper s)
        = Inr x'"
    using fed_inner_returns[OF assms(1)] by blast
  obtain u' st' mst' where x'_eq: "x' = (u', st', mst')" by (cases x') auto
  have "isnan (gcp_value c u') \<Longrightarrow>
         fed_epochs c do_epoch_iter avg meta dp_iters fedavg epochIters maxEpochs e s
           = Inr (fest_best s,
                  s\<lparr>annealer := snd (annealer_call c (annealer s) e),
                    stepper := st', u := u', meta_stepper := mst', fest := gcp_value c u'\<rparr>)"
    using assms(2) x' unfolding x'_eq
    by (subst fed_epochs.simps) (simp add: Let_def split_beta)
  with x' x'_eq show ?thesis by blast
qed

lemma demo_inner_run:
  "fed_inner demo_local_iter demo_sync demo_sync 1 True 1 0 (0, 0, 0) = Inr (1, 0, 0)"
  by code_simp

text \<open>The theorem at epoch 0 of 2, for a fit estimate that is NaN after one iteration.\<close>

theorem fedOpt_nan_returns_best_witness:
  "(1::int) \<noteq> 0 \<and> (0::nat) < 2
   \<and> fed_inner demo_local_iter demo_sync demo_sync 1 True 1 0 (0, 0, 0) = Inr (1, 0, 0)
   \<and> isnan (gcp_value (demo_collab nan_after_start) 1)
   \<and> fed_epochs (demo_collab nan_after_start) demo_local_iter demo_sync demo_sync 1 True 1 2 0
        (demo_fed_state (Finite 1)\<lparr>u := 0\<rparr>)
      = Inr (Finite 1, \<lparr>u = 1, u_best = 0, fest = NaN, fest_best = Finite 1, fest_prev = Finite 1,
               stepper = 0, annealer = (2, 0), meta_stepper = 0\<rparr>)"
  using fedOpt_nan_returns_best[of 1 0 2 demo_local_iter demo_sync demo_sync True 1
       "demo_fed_state (Finite 1)\<lparr>u := 0\<rparr>" "demo_collab nan_after_start"] demo_inner_run
  by (simp add: demo_collab_def demo_fed_state_def nan_after_start_def)

text \<open>
  Claim C6 as stated fails twice.  In fedOpt a fit estimate of \<open>+\<infinity>\<close> after epoch 0 is
  not NaN: the epoch is rejected and epoch 1 runs (the annealer is asked for a learning
  rate twice and fails twice).  In allReduceTrad there is no test at all: a NaN fit
  estimate after epoch 0 fails the comparison, the epoch is rejected, and epoch 1 runs.
\<close>

theorem nonfinite_fit_continues:
  "\<not> isfinite (gcp_value (demo_collab inf_after_start) 1)
   \<and> fedOpt (demo_collab inf_after_start) demo_local_iter demo_sync demo_sync 1 True 1 2 0 0 0 (0, 0)
      = Inr (Finite 1, \<lparr>u = 0, u_best = 0, fest = Finite 1, fest_best = Finite 1, fest_prev = Finite 1,
               stepper = - 2, annealer = (2, - 2), meta_stepper = - 2\<rparr>)
   \<and> \<not> isfinite (gcp_value (demo_collab nan_after_start) 1)
   \<and> allReduceTrad (demo_collab nan_after_start) demo_iter 1 2 0 0 (0, 0)
      = (Finite 1, \<lparr>u = 0, u_best = 0, fest = Finite 1, fest_best = Finite 1, fest_prev = Finite 1,
               stepper = - 2, annealer = (2, - 2)\<rparr>)"
  by code_simp

subsection \<open>Fixing up the MTTKRP-All method on Cuda\<close>

lemma fixup_defaults_keep:
  assumes "mttkrp_all_method p \<noteq> All_Default"
  shows "mttkrp_all_method (fixup_default_mttkrp_all sp (fixup_default_mttkrp sp p)) = mttkrp_all_method p"
    and "solver_method (fixup_default_mttkrp_all sp (fixup_default_mttkrp sp p)) = solver_method p"
    and "sampling_type (fixup_default_mttkrp_all sp (fixup_default_mttkrp sp p)) = sampling_type p"
    and "fuse (fixup_default_mttkrp_all sp (fixup_default_mttkrp sp p)) = fuse p"
  using assms by (simp_all add: fixup_default_mttkrp_all_def fixup_default_mttkrp_def)

lemma fixup_cuda_atomic:
  assumes "is_cuda sp" and "solver_method p = GCP_SGD" and "sampling_type p = SemiStratified" and "fuse p"
    and "mttkrp_all_method p \<noteq> All_Atomic"
  shows "\<exists>pre. fst (fixup_cuda names all_names sp (p, out)) = (fst (fixup_cuda names all_names sp (p, out)))\<lparr>mttkrp_all_method := All_Atomic\<rparr>
          \<and> snd (fixup_cuda names all_names sp (p, out)) =
              out @ pre @ (if mttkrp_all_method p = All_Single \<or> mttkrp_all_method p = All_Duplicated
                           then notice_invalid_all all_names (mttkrp_all_method p) else notice_fused)"
proof (cases "mttkrp_method p = MTTKRP_Single \<or> mttkrp_method p = MTTKRP_Duplicated")
  case True
  with assms show ?thesis
    by (auto simp: fixup_cuda_def Let_def notice_invalid_all_def notice_fused_def)
next
  case False
  with assms show ?thesis
    by (auto simp: fixup_cuda_def Let_def notice_invalid_all_def notice_fused_def)
qed

text \<open>
  Claim C8.  On a Cuda execution space, for GCP-SGD with semi-stratified sampling and
  fused kernels, an explicit MTTKRP-All method (not Default) other than Atomic is changed
  to Atomic by \<^verbatim>\<open>fixup\<close>, and a notice of the change is appended to the output stream
  (after \<open>pre\<close>, the notice about the MTTKRP method if there is one): the "invalid for
  Cuda" notice for Single and Duplicated, the "requires atomic" notice otherwise.
  \<^verbatim>\<open>fixup\<close> has no error exit, and the guard of the fused Cuda kernel, the only place
  that rejects a method other than Atomic, passes on the parameters it returns.
\<close>

theorem fixup_overrides_to_atomic:
  assumes "is_cuda sp" and "solver_method p = GCP_SGD" and "sampling_type p = SemiStratified" and "fuse p"
    and "mttkrp_all_method p \<noteq> All_Default" and "mttkrp_all_method p \<noteq> All_Atomic"
  shows "\<exists>pre. mttkrp_all_method (fst (fixup names all_names sp p out)) = All_Atomic
          \<and> snd (fixup names all_names sp p out) =
              out @ pre @ (if mttkrp_all_method p = All_Single \<or> mttkrp_all_method p = All_Duplicated
                           then notice_invalid_all all_names (mttkrp_all_method p) else notice_fused)
          \<and> cuda_run_guard (fst (fixup names all_names sp p out)) = Inr ()"
proof -
  let ?q = "fixup_default_mttkrp_all sp (fixup_default_mttkrp sp p)"
  note keep = fixup_defaults_keep[OF assms(5), of sp]
  have q: "solver_method ?q = GCP_SGD" "sampling_type ?q = SemiStratified" "fuse ?q"
    "mttkrp_all_method ?q \<noteq> All_Atomic"
    using assms keep by simp_all
  obtain pre where pre:
    "fst (fixup_cuda names all_names sp (?q, out)) = (fst (fixup_cuda names all_names sp (?q, out)))\<lparr>mttkrp_all_method := All_Atomic\<rparr>"
    "snd (fixup_cuda names all_names sp (?q, out)) =
              out @ pre @ (if mttkrp_all_method ?q = All_Single \<or> mttkrp_all_method ?q = All_Duplicated
                           then notice_invalid_all all_names (mttkrp_all_method ?q) else notice_fused)"
    using fixup_cuda_atomic[OF assms(1) q, of names all_names out] by blast
  have at: "mttkrp_all_method (fst (fixup names all_names sp p out)) = All_Atomic"
    unfolding fixup_def by (subst pre(1)) simp
  have log: "snd (fixup names all_names sp p out) =
              out @ pre @ (if mttkrp_all_method p = All_Single \<or> mttkrp_all_method p = All_Duplicated
                           then notice_invalid_all all_names (mttkrp_all_method p) else notice_fused)"
    unfolding fixup_def using pre(2) keep(1) by simp
  from at log show ?thesis by (auto simp: cuda_run_guard_def)
qed

text \<open>The theorem for an explicit choice of Iterated on a Volta GPU with 64-bit reals.\<close>

theorem fixup_overrides_to_atomic_witness:
  "is_cuda demo_cuda \<and> solver_method (demo_params All_Iterated) = GCP_SGD
   \<and> sampling_type (demo_params All_Iterated) = SemiStratified \<and> fuse (demo_params All_Iterated)
   \<and> mttkrp_all_method (demo_params All_Iterated) \<noteq> All_Default
   \<and> mttkrp_all_method (demo_params All_Iterated) \<noteq> All_Atomic
   \<and> mttkrp_all_method (fst (fixup demo_names demo_all_names demo_cuda (demo_params All_Iterated) [])) = All_Atomic
   \<and> (\<exists>pre. snd (fixup demo_names demo_all_names demo_cuda (demo_params All_Iterated) []) = pre @ notice_fused)
   \<and> cuda_run_guard (fst (fixup demo_names demo_all_names demo_cuda (demo_params All_Iterated) [])) = Inr ()"
  using fixup_overrides_to_atomic[of demo_cuda "demo_params All_Iterated" demo_names demo_all_names "[]"]
  by (simp add: demo_cuda_def demo_params_def)

subsection \<open>Default sample counts and weights of the semi-stratified sampler\<close>

lemma indx_wrap_small: "n < 2 ^ 64 \<Longrightarrow> indx_wrap n = n"
  by (simp add: indx_wrap_def)

lemma ceil_div_nat:
  assumes d: "0 < d"
  shows "(n + (d - 1)) div d = nat \<lceil>real n / real d\<rceil>"
proof -
  define k where "k = (n + (d - 1)) div d"
  have A: "k * d \<le> n + (d - 1)"
    unfolding k_def by simp
  have B: "n + (d - 1) < k * d + d"
    unfolding k_def using d by (metis dividend_less_div_times add.commute)
  from B d have B': "n \<le> k * d" by simp
  from A d have A': "int k * int d - int d < int n"
  proof -
    have "int (k * d) \<le> int (n + (d - 1))" using A by (rule iffD2[OF of_nat_le_iff])
    then have "int k * int d \<le> int n + (int d - 1)" using d by simp
    then show ?thesis by simp
  qed
  have dr: "0 < real d" using d by simp
  have up: "real n / real d \<le> real_of_int (int k)"
  proof -
    have "real n \<le> real (k * d)" using B' by (rule iffD2[OF of_nat_le_iff])
    then have "real n \<le> real k * real d" by simp
    then show ?thesis using dr by (simp add: pos_divide_le_eq)
  qed
  have lo: "real_of_int (int k) - 1 < real n / real d"
  proof -
    have "real_of_int (int k * int d - int d) < real_of_int (int n)"
      using A' by (rule iffD2[OF of_int_less_iff])
    then have "(real k - 1) * real d < real n" by (simp add: algebra_simps)
    then show ?thesis using dr by (simp add: pos_less_divide_eq)
  qed
  have "\<lceil>real n / real d\<rceil> = int k"
    using lo up by (rule ceiling_unique)
  then show ?thesis unfolding k_def by simp
qed

lemma indx_max_eq: "indx_max a b = max a b"
  by (simp add: indx_max_def max_def)

lemma indx_min_eq: "indx_min a b = min a b"
  by (simp add: indx_min_def min_def)

lemma ftmp_no_wrap:
  assumes "nnz < 2 ^ 53"
  shows "indx_wrap (nnz + 99) div 100 = (nnz + 99) div 100"
proof -
  have "nnz + 99 < (2::nat) ^ 64" using assms by simp
  then show ?thesis by (simp add: indx_wrap_small)
qed

lemma gtmp_no_wrap:
  assumes "nnz < 2 ^ 53" and "0 < m" and "m < 2 ^ 62"
  shows "indx_wrap (indx_wrap (indx_wrap (3 * nnz) + m) + 2 ^ 64 - 1) = 3 * nnz + (m - 1)"
proof -
  have a: "3 * nnz < (2::nat) ^ 64" using assms(1) by simp
  have b: "3 * nnz + m < (2::nat) ^ 64" using assms(1,3) by simp
  have c: "3 * nnz + m + 2 ^ 64 - 1 = (3 * nnz + (m - 1)) + 1 * 2 ^ 64"
    using assms(2) by simp
  have d: "3 * nnz + (m - 1) < (2::nat) ^ 64" using assms(1,3) by simp
  have "indx_wrap (3 * nnz + m + 2 ^ 64 - 1) = 3 * nnz + (m - 1)"
    unfolding c indx_wrap_def using d by (simp only: mod_mult_self1 mod_less)
  then show ?thesis by (simp only: indx_wrap_small[OF a] indx_wrap_small[OF b])
qed

lemma zeros_default:
  assumes "nnz \<le> numel" and "numel < 2 ^ 53"
  shows "indx_of_fp (fp_min (fp_of_indx a) (fp_sub (Finite (real numel)) (fp_of_indx nnz)))
           = Inr (min a (numel - nnz))"
proof -
  have sub: "fp_sub (Finite (real numel)) (fp_of_indx nnz) = Finite (real (numel - nnz))"
    using assms(1) by (simp add: fp_sub_def fp_of_indx_def)
  have mn: "fp_min (fp_of_indx a) (Finite (real (numel - nnz))) = Finite (real (min a (numel - nnz)))"
    by (simp add: fp_min_def fp_of_indx_def min_def)
  have "min a (numel - nnz) < 2 ^ 64"
  proof -
    have "min a (numel - nnz) \<le> numel" by simp
    also have "numel < 2 ^ 53" by (rule assms(2))
    also have "(2::nat) ^ 53 < 2 ^ 64" by simp
    finally show ?thesis .
  qed
  then have "real (min a (numel - nnz)) < 2 ^ 64"
    by (metis of_nat_less_iff of_nat_numeral of_nat_power)
  then show ?thesis
    unfolding sub mn by simp
qed

lemma sampler_init_explicit:
  assumes le: "nnz \<le> numel" and small: "numel < 2 ^ 53"
    and m0: "0 < maxiters ap" and m1: "maxiters ap < 2 ^ 62"
  shows "SemiStratifiedSampler_init nnz (Finite (real numel)) ap =
     Inr \<lparr>nsamples_nonzeros_value = default_nsnv nnz ap,
          nsamples_zeros_value = default_nszv nnz numel ap,
          nsamples_nonzeros_grad = default_nsng nnz ap,
          nsamples_zeros_grad = default_nszg nnz numel ap,
          weight_nonzeros_value =
            (if fp_less (w_f_nz ap) (Finite 0)
             then fp_div (Finite (real nnz)) (Finite (real (default_nsnv nnz ap))) else w_f_nz ap),
          weight_zeros_value =
            (if fp_less (w_f_z ap) (Finite 0)
             then fp_div (Finite (real numel - real nnz)) (Finite (real (default_nszv nnz numel ap)))
             else w_f_z ap),
          weight_nonzeros_grad =
            (if fp_less (w_g_nz ap) (Finite 0)
             then fp_div (Finite (real nnz)) (Finite (real (default_nsng nnz ap))) else w_g_nz ap),
          weight_zeros_grad =
            (if fp_less (w_g_z ap) (Finite 0)
             then fp_div (Finite (real numel)) (Finite (real (default_nszg nnz numel ap)))
             else w_g_z ap)\<rparr>"
proof -
  have nnz: "nnz < 2 ^ 53" using le small by simp
  note z = zeros_default[OF le small]
  have sub: "fp_sub (Finite (real numel)) (Finite (real nnz)) = Finite (real numel - real nnz)"
    by (simp add: fp_sub_def)
  have zv: "(if num_samples_zeros_value ap = 0
              then indx_of_fp (fp_min (fp_of_indx (default_nsnv nnz ap)) (fp_sub (Finite (real numel)) (fp_of_indx nnz)))
              else Inr (num_samples_zeros_value ap)) = Inr (default_nszv nnz numel ap)"
    by (simp only: z default_nszv_def if_distrib[of Inr, symmetric] if_cancel)
  have zg: "(if num_samples_zeros_grad ap = 0
              then indx_of_fp (fp_min (fp_of_indx (default_nsng nnz ap)) (fp_sub (Finite (real numel)) (fp_of_indx nnz)))
              else Inr (num_samples_zeros_grad ap)) = Inr (default_nszg nnz numel ap)"
    by (simp only: z default_nszg_def if_distrib[of Inr, symmetric] if_cancel)
  have nv: "(if num_samples_nonzeros_value ap = 0
             then indx_min (indx_max (indx_wrap (nnz + 99) div 100) 100000) nnz
             else num_samples_nonzeros_value ap) = default_nsnv nnz ap"
    by (simp only: ftmp_no_wrap[OF nnz] indx_max_eq indx_min_eq default_nsnv_def)
  have ng: "(if num_samples_nonzeros_grad ap = 0
             then indx_min (indx_max (indx_wrap (indx_wrap (indx_wrap (3 * nnz) + maxiters ap) + 2 ^ 64 - 1)
                                 div maxiters ap) 1000) nnz
             else num_samples_nonzeros_grad ap) = default_nsng nnz ap"
    by (simp only: gtmp_no_wrap[OF nnz m0 m1] indx_max_eq indx_min_eq default_nsng_def)
  have m0': "(maxiters ap = 0) = False" using m0 by simp
  show ?thesis
    unfolding SemiStratifiedSampler_init_def Let_def
    apply (simp only: m0' if_False nv ng zv zg sum.case)
    apply (simp only: fp_of_indx_def sub)
    done
qed

lemma fp_div_pos: "0 < n \<Longrightarrow> fp_div (Finite x) (Finite (real n)) = Finite (x / real n)"
  by simp

text \<open>
  Claim C4.  For a tensor with \<open>nnz\<close> nonzeros out of \<open>numel\<close> entries (\<open>numel\<close> below
  \<open>2\<^sup>5\<^sup>3\<close>, so that the conversions to \<^verbatim>\<open>ttb_real\<close> are exact) and a positive number of
  epochs, the constructor returns a sampler, and each sample count that the
  configuration leaves at zero is set as follows: nonzero value samples to one percent of
  \<open>nnz\<close> (rounded up) or 100000, whichever is larger, capped at \<open>nnz\<close>; zero value samples
  to the nonzero value samples capped at the number \<open>numel - nnz\<close> of implicit zeros;
  nonzero gradient samples to \<open>3 nnz / maxEpochs\<close> (rounded up) or 1000, whichever is
  larger, capped at \<open>nnz\<close>; zero gradient samples to the nonzero gradient samples capped
  at the number of implicit zeros.
\<close>

theorem sampler_default_counts:
  assumes "nnz \<le> numel" and "numel < 2 ^ 53" and "0 < maxiters ap" and "maxiters ap < 2 ^ 62"
  shows "\<exists>s. SemiStratifiedSampler_init nnz (Finite (real numel)) ap = Inr s \<and>
     (num_samples_nonzeros_value ap = 0 \<longrightarrow>
        nsamples_nonzeros_value s = min (max (nat \<lceil>real nnz / 100\<rceil>) 100000) nnz) \<and>
     (num_samples_zeros_value ap = 0 \<longrightarrow>
        nsamples_zeros_value s = min (nsamples_nonzeros_value s) (numel - nnz)) \<and>
     (num_samples_nonzeros_grad ap = 0 \<longrightarrow>
        nsamples_nonzeros_grad s = min (max (nat \<lceil>3 * real nnz / real (maxiters ap)\<rceil>) 1000) nnz) \<and>
     (num_samples_zeros_grad ap = 0 \<longrightarrow>
        nsamples_zeros_grad s = min (nsamples_nonzeros_grad s) (numel - nnz))"
proof -
  have f: "(nnz + 99) div 100 = nat \<lceil>real nnz / 100\<rceil>"
    using ceil_div_nat[of 100 nnz] by simp
  have "(3 * nnz + (maxiters ap - 1)) div maxiters ap = nat \<lceil>real (3 * nnz) / real (maxiters ap)\<rceil>"
    using assms(3) by (rule ceil_div_nat)
  then have g: "(3 * nnz + (maxiters ap - Suc 0)) div maxiters ap = nat \<lceil>3 * real nnz / real (maxiters ap)\<rceil>"
    by simp
  show ?thesis
    unfolding sampler_init_explicit[OF assms]
    by (simp add: default_nsnv_def default_nsng_def default_nszv_def default_nszg_def f g)
qed

text \<open>The theorem for twenty million nonzeros among \<open>10\<^sup>1\<^sup>0\<close> entries and 1000 epochs.\<close>

theorem sampler_default_counts_witness:
  "(20000000::nat) \<le> 10000000000 \<and> (10000000000::nat) < 2 ^ 53
   \<and> 0 < maxiters (demo_sampler_params 0) \<and> maxiters (demo_sampler_params 0) < 2 ^ 62
   \<and> num_samples_nonzeros_value (demo_sampler_params 0) = 0
   \<and> num_samples_zeros_value (demo_sampler_params 0) = 0
   \<and> num_samples_nonzeros_grad (demo_sampler_params 0) = 0
   \<and> num_samples_zeros_grad (demo_sampler_params 0) = 0
   \<and> (\<exists>s. SemiStratifiedSampler_init 20000000 (Finite (real (10000000000::nat))) (demo_sampler_params 0) = Inr s
        \<and> nsamples_nonzeros_value s = 200000 \<and> nsamples_zeros_value s = 200000
        \<and> nsamples_nonzeros_grad s = 60000 \<and> nsamples_zeros_grad s = 60000)"
proof -
  from sampler_default_counts[of 20000000 10000000000 "demo_sampler_params 0"]
  obtain s where
    "SemiStratifiedSampler_init 20000000 (Finite (real (10000000000::nat))) (demo_sampler_params 0) = Inr s"
    "nsamples_nonzeros_value s = 200000"
    "nsamples_zeros_value s = min (nsamples_nonzeros_value s) 9980000000"
    "nsamples_nonzeros_grad s = 60000"
    "nsamples_zeros_grad s = min (nsamples_nonzeros_grad s) 9980000000"
    by (auto simp: demo_sampler_params_def)
  then show ?thesis by (auto simp: demo_sampler_params_def)
qed

text \<open>
  Claim C5, as amended.  Under the same conditions, each weight that the configuration
  leaves negative is set to the population of its stratum divided by its (positive)
  sample count, where the population is \<open>nnz\<close> for the two nonzero strata, the number
  \<open>numel - nnz\<close> of implicit zeros for the zero stratum of the value estimate, and the
  number \<open>numel\<close> of all entries of the tensor for the zero stratum of the gradient.
\<close>

theorem sampler_default_weights:
  assumes "nnz \<le> numel" and "numel < 2 ^ 53" and "0 < maxiters ap" and "maxiters ap < 2 ^ 62"
  shows "\<exists>s. SemiStratifiedSampler_init nnz (Finite (real numel)) ap = Inr s \<and>
     (fp_less (w_f_nz ap) (Finite 0) \<and> 0 < nsamples_nonzeros_value s \<longrightarrow>
        weight_nonzeros_value s = Finite (real nnz / real (nsamples_nonzeros_value s))) \<and>
     (fp_less (w_f_z ap) (Finite 0) \<and> 0 < nsamples_zeros_value s \<longrightarrow>
        weight_zeros_value s = Finite (real (numel - nnz) / real (nsamples_zeros_value s))) \<and>
     (fp_less (w_g_nz ap) (Finite 0) \<and> 0 < nsamples_nonzeros_grad s \<longrightarrow>
        weight_nonzeros_grad s = Finite (real nnz / real (nsamples_nonzeros_grad s))) \<and>
     (fp_less (w_g_z ap) (Finite 0) \<and> 0 < nsamples_zeros_grad s \<longrightarrow>
        weight_zeros_grad s = Finite (real numel / real (nsamples_zeros_grad s)))"
  unfolding sampler_init_explicit[OF assms]
  using assms(1) by (simp add: of_nat_diff)

text \<open>The theorem for 2 nonzeros among 10 entries and 4 samples in each stratum.\<close>

theorem sampler_default_weights_witness:
  "(2::nat) \<le> 10 \<and> (10::nat) < 2 ^ 53
   \<and> 0 < maxiters (demo_sampler_params 4) \<and> maxiters (demo_sampler_params 4) < 2 ^ 62
   \<and> fp_less (w_f_nz (demo_sampler_params 4)) (Finite 0)
   \<and> fp_less (w_f_z (demo_sampler_params 4)) (Finite 0)
   \<and> fp_less (w_g_nz (demo_sampler_params 4)) (Finite 0)
   \<and> fp_less (w_g_z (demo_sampler_params 4)) (Finite 0)
   \<and> (\<exists>s. SemiStratifiedSampler_init 2 (Finite (real (10::nat))) (demo_sampler_params 4) = Inr s
        \<and> 0 < nsamples_nonzeros_value s \<and> 0 < nsamples_zeros_value s
        \<and> 0 < nsamples_nonzeros_grad s \<and> 0 < nsamples_zeros_grad s
        \<and> weight_nonzeros_value s = Finite (1 / 2) \<and> weight_zeros_value s = Finite 2
        \<and> weight_nonzeros_grad s = Finite (1 / 2) \<and> weight_zeros_grad s = Finite (5 / 2))"
proof -
  have run: "SemiStratifiedSampler_init 2 (Finite (real (10::nat))) (demo_sampler_params 4) =
    Inr \<lparr>nsamples_nonzeros_value = 4, nsamples_zeros_value = 4, nsamples_nonzeros_grad = 4,
         nsamples_zeros_grad = 4, weight_nonzeros_value = Finite (1 / 2),
         weight_zeros_value = Finite 2, weight_nonzeros_grad = Finite (1 / 2),
         weight_zeros_grad = Finite (5 / 2)\<rparr>"
    by (simp add: SemiStratifiedSampler_init_def demo_sampler_params_def Let_def indx_wrap_def
      indx_max_def indx_min_def fp_of_indx_def fp_sub_def)
  show ?thesis
    using sampler_default_weights[of 2 10 "demo_sampler_params 4"]
    unfolding run by (simp add: demo_sampler_params_def)
qed

text \<open>
  Claim C5 as stated fails for the zero stratum of the gradient: with 2 nonzeros among 10
  entries and 4 samples, the weight is \<open>10 / 4\<close> and not \<open>(10 - 2) / 4\<close>.
\<close>

theorem zero_grad_weight_uses_total:
  "fp_less (w_g_z (demo_sampler_params 4)) (Finite 0)
   \<and> map_sum id nsamples_zeros_grad (SemiStratifiedSampler_init 2 (Finite 10) (demo_sampler_params 4)) = Inr 4
   \<and> map_sum id weight_zeros_grad (SemiStratifiedSampler_init 2 (Finite 10) (demo_sampler_params 4))
        = Inr (Finite (5 / 2))
   \<and> Finite (5 / 2) \<noteq> Finite ((10 - 2) / 4)"
  by (simp add: SemiStratifiedSampler_init_def demo_sampler_params_def Let_def indx_wrap_def
      indx_max_def indx_min_def fp_of_indx_def)

subsection \<open>The norm of the initial guess\<close>

text \<open>Scaling the weights by \<open>c\<close> scales the squared norm by \<open>c\<^sup>2\<close>.\<close>

lemma sum_list_scale_cong:
  fixes c :: real
  assumes "\<And>x. x \<in> set xs \<Longrightarrow> f x = c * g x"
  shows "sum_list (map f xs) = c * sum_list (map g xs)"
  using assms by (induction xs) (simp_all add: algebra_simps)

lemma normFsq_scale:
  "normFsq gramian (weights_times c M) = c\<^sup>2 * normFsq gramian M"
proof -
  let ?n = "length (weights M)"
  let ?l = "weights M"
  let ?l' = "map (\<lambda>w. w * c) (weights M)"
  let ?H = "hadamard_of_gramians gramian (factors M)"
  have inner: "(\<Sum>q \<leftarrow> [r + 1..<?n]. 2 * ?l' ! r * ?l' ! q * ?H r q)
     = c\<^sup>2 * (\<Sum>q \<leftarrow> [r + 1..<?n]. 2 * ?l ! r * ?l ! q * ?H r q)" if r: "r < ?n" for r
  proof (rule sum_list_scale_cong)
    fix q assume "q \<in> set [r + 1..<?n]"
    then have q: "q < ?n" by simp
    have "2 * ?l' ! r * ?l' ! q * ?H r q = 2 * (?l ! r * c) * (?l ! q * c) * ?H r q"
      using r q by simp
    also have "\<dots> = c\<^sup>2 * (2 * ?l ! r * ?l ! q * ?H r q)"
      by (simp only: power2_eq_square ac_simps)
    finally show "2 * ?l' ! r * ?l' ! q * ?H r q = c\<^sup>2 * (2 * ?l ! r * ?l ! q * ?H r q)" .
  qed
  have outer: "(\<Sum>r \<leftarrow> [0..<?n]. ?l' ! r * ?l' ! r * ?H r r
                  + (\<Sum>q \<leftarrow> [r + 1..<?n]. 2 * ?l' ! r * ?l' ! q * ?H r q))
      = c\<^sup>2 * (\<Sum>r \<leftarrow> [0..<?n]. ?l ! r * ?l ! r * ?H r r
                  + (\<Sum>q \<leftarrow> [r + 1..<?n]. 2 * ?l ! r * ?l ! q * ?H r q))"
  proof (rule sum_list_scale_cong)
    fix r assume "r \<in> set [0..<?n]"
    then have r: "r < ?n" by simp
    have "?l' ! r * ?l' ! r * ?H r r = (?l ! r * c) * (?l ! r * c) * ?H r r"
      using r by simp
    also have "\<dots> = c\<^sup>2 * (?l ! r * ?l ! r * ?H r r)"
      by (simp only: power2_eq_square ac_simps)
    finally have "?l' ! r * ?l' ! r * ?H r r = c\<^sup>2 * (?l ! r * ?l ! r * ?H r r)" .
    then show "?l' ! r * ?l' ! r * ?H r r + (\<Sum>q \<leftarrow> [r + 1..<?n]. 2 * ?l' ! r * ?l' ! q * ?H r q)
       = c\<^sup>2 * (?l ! r * ?l ! r * ?H r r + (\<Sum>q \<leftarrow> [r + 1..<?n]. 2 * ?l ! r * ?l ! q * ?H r q))"
      by (simp only: inner[OF r] distrib_left)
  qed
  show ?thesis
    unfolding normFsq_def weights_times_def ncomponents_def Let_def
    using outer by simp
qed

text \<open>
  The random initial guess of \<^verbatim>\<open>driver\<close> has the norm of the data, whatever the random
  factor matrices are, as long as their Ktensor with unit weights is not zero.
\<close>

lemma driver_initial_guess_norm:
  assumes "0 \<le> norm_x"
    and "normFsq gramian (setWeights 1 \<lparr>weights = replicate rank 1, factors = mats\<rparr>) > 0"
  shows "\<exists>u. driver_initial_guess gramian norm_x rank mats = Some u
             \<and> sqrt (normFsq gramian u) = norm_x"
proof -
  let ?u0 = "setWeights 1 \<lparr>weights = replicate rank 1, factors = mats\<rparr>"
  let ?nu = "sqrt (normFsq gramian ?u0)"
  have nu: "0 < ?nu" using assms(2) by simp
  have "sqrt (normFsq gramian (weights_times (norm_x / ?nu) ?u0)) = \<bar>norm_x / ?nu\<bar> * ?nu"
    by (simp only: normFsq_scale real_sqrt_mult real_sqrt_abs)
  also have "\<dots> = norm_x" using nu assms(1) by simp
  finally show ?thesis
    using nu by (simp add: driver_initial_guess_def Let_def)
qed

text \<open>The maps that \<^verbatim>\<open>ProcessorMap\<close> builds for the closed instances.\<close>

lemma one_process_pmap_built: "ProcessorMap 1 [1] = Inr one_process_pmap"
proof -
  have "CartGrid 1 [1] MinFactorSpace = Inr [1]" by code_simp
  moreover have "map (\<lambda>i. length (cart_sub [1] i 0)) [0..<length [1::nat]] = [1]" by code_simp
  ultimately show ?thesis by (simp add: ProcessorMap_def one_process_pmap_def)
qed

text \<open>
  Scaling the columns of every factor matrix by the same number \<open>c\<close> scales every entry of
  the Hadamard product of the Gramians by \<open>c\<^sup>2\<close> for every mode.
\<close>

lemma rows_gramian_colScale:
  assumes "\<forall>row \<in> set A. length row = n" and "r < n" and "q < n"
  shows "rows_gramian (colScale (replicate n c) A) r q = c\<^sup>2 * rows_gramian A r q"
proof -
  have "(\<Sum>row \<leftarrow> map (\<lambda>row. map2 (\<lambda>x c. x * c) row (replicate n c)) A. row ! r * row ! q)
      = c\<^sup>2 * (\<Sum>row \<leftarrow> A. row ! r * row ! q)"
    unfolding map_map comp_def
  proof (rule sum_list_scale_cong)
    fix row assume "row \<in> set A"
    then have len: "length row = n" using assms(1) by blast
    have "map2 (\<lambda>x c. x * c) row (replicate n c) ! r = row ! r * c"
         "map2 (\<lambda>x c. x * c) row (replicate n c) ! q = row ! q * c"
      using len assms(2,3) by simp_all
    then show "map2 (\<lambda>x c. x * c) row (replicate n c) ! r * map2 (\<lambda>x c. x * c) row (replicate n c) ! q
        = c\<^sup>2 * (row ! r * row ! q)"
      by (simp add: power2_eq_square)
  qed
  then show ?thesis by (simp add: rows_gramian_def colScale_def)
qed

lemma fold_times_scale:
  fixes k :: real
  shows "fold (\<lambda>A h. h * g A) dat (k * h0) = k * fold (\<lambda>A h. h * g A) dat h0"
  by (induction dat arbitrary: h0) (simp_all add: mult.assoc)

lemma hadamard_colScale:
  assumes "\<forall>A \<in> set dat. \<forall>row \<in> set A. length row = n" and "r < n" and "q < n"
  shows "fold (\<lambda>A h. h * rows_gramian A r q) (map (colScale (replicate n c)) dat) h0
       = (c\<^sup>2) ^ length dat * fold (\<lambda>A h. h * rows_gramian A r q) dat h0"
  using assms(1)
proof (induction dat arbitrary: h0)
  case Nil
  show ?case by simp
next
  case (Cons A dat)
  have A: "rows_gramian (colScale (replicate n c) A) r q = c\<^sup>2 * rows_gramian A r q"
    using Cons.prems assms(2,3) by (intro rows_gramian_colScale) simp_all
  have "fold (\<lambda>A h. h * rows_gramian A r q) (map (colScale (replicate n c)) (A # dat)) h0
      = (c\<^sup>2) ^ length dat * fold (\<lambda>A h. h * rows_gramian A r q) dat (h0 * (c\<^sup>2 * rows_gramian A r q))"
    using Cons.IH[of "h0 * (c\<^sup>2 * rows_gramian A r q)"] Cons.prems by (simp add: A)
  also have "h0 * (c\<^sup>2 * rows_gramian A r q) = c\<^sup>2 * (h0 * rows_gramian A r q)"
    by simp
  also have "(c\<^sup>2) ^ length dat * fold (\<lambda>A h. h * rows_gramian A r q) dat (c\<^sup>2 * (h0 * rows_gramian A r q))
      = (c\<^sup>2) ^ length (A # dat) * fold (\<lambda>A h. h * rows_gramian A r q) (A # dat) h0"
    by (simp add: fold_times_scale)
  finally show ?case .
qed

text \<open>
  On every rank, \<^verbatim>\<open>DistGCP::init_factors\<close> leaves unit weights and a Ktensor whose norm is
  the norm of the random Ktensor with unit weights divided by the norm of the local data
  (and not the norm of the data), whatever the random factor matrices are.
\<close>

lemma init_factors_rank_norm:
  assumes nx: "0 < norm_x" and nd: "mats \<noteq> []"
    and cols: "\<forall>A \<in> set mats. \<forall>row \<in> set A. length row = rank"
  shows "\<exists>u. init_factors_rank norm_x rank mats = Some u
             \<and> weights u = replicate rank 1
             \<and> sqrt (normFsq rows_gramian u)
                 = sqrt (normFsq rows_gramian \<lparr>weights = replicate rank 1, factors = mats\<rparr>) / norm_x"
proof -
  define c where "c = root (length mats) (1 / norm_x)"
  let ?init = "\<lparr>weights = replicate rank 1, factors = mats\<rparr>"
  let ?res = "\<lparr>weights = replicate rank 1, factors = map (colScale (replicate rank c)) mats\<rparr>"
  have len: "0 < length mats" using nd by simp
  have start: "weights_times (1 / norm_x) (setWeights 1 ?init)
      = \<lparr>weights = replicate rank (1 / norm_x), factors = mats\<rparr>"
    by (simp add: setWeights_def weights_times_def map_replicate_const)
  have "distribute \<lparr>weights = replicate rank (1 / norm_x), factors = mats\<rparr> = Some ?res"
    unfolding distribute_def ndims_def Let_def c_def
    using nd nx by (simp add: map_replicate_const power_nd_root_def)
  then have run: "init_factors_rank norm_x rank mats = Some ?res"
    using nx by (simp add: init_factors_rank_def Let_def start)
  have cpow: "(c\<^sup>2) ^ length mats = (1 / norm_x)\<^sup>2"
  proof -
    have "(c\<^sup>2) ^ length mats = (c ^ length mats)\<^sup>2"
      by (simp add: power_mult[symmetric] mult.commute)
    also have "c ^ length mats = 1 / norm_x"
      unfolding c_def using nx len by (intro real_root_pow_pos2) simp_all
    finally show ?thesis .
  qed
  have H: "hadamard_of_gramians rows_gramian (factors ?res) r q
         = (1 / norm_x)\<^sup>2 * hadamard_of_gramians rows_gramian (factors ?init) r q"
    if "r < rank" "q < rank" for r q
    using hadamard_colScale[OF cols that, of c 1] cpow by (simp add: hadamard_of_gramians_def)
  have inner: "(\<Sum>q \<leftarrow> [r + 1..<rank]. 2 * replicate rank (1::real) ! r * replicate rank 1 ! q
                   * hadamard_of_gramians rows_gramian (factors ?res) r q)
      = (1 / norm_x)\<^sup>2 * (\<Sum>q \<leftarrow> [r + 1..<rank]. 2 * replicate rank (1::real) ! r * replicate rank 1 ! q
                   * hadamard_of_gramians rows_gramian (factors ?init) r q)" if r: "r < rank" for r
  proof (rule sum_list_scale_cong)
    fix q assume "q \<in> set [r + 1..<rank]"
    then have q: "q < rank" by simp
    show "2 * replicate rank (1::real) ! r * replicate rank 1 ! q * hadamard_of_gramians rows_gramian (factors ?res) r q
        = (1 / norm_x)\<^sup>2 * (2 * replicate rank (1::real) ! r * replicate rank 1 ! q
             * hadamard_of_gramians rows_gramian (factors ?init) r q)"
      by (simp only: H[OF r q] ac_simps)
  qed
  have "normFsq rows_gramian ?res = (1 / norm_x)\<^sup>2 * normFsq rows_gramian ?init"
    unfolding normFsq_def ncomponents_def Let_def ktensor.simps length_replicate
  proof (rule sum_list_scale_cong)
    fix r assume "r \<in> set [0..<rank]"
    then have r: "r < rank" by simp
    have "replicate rank (1::real) ! r * replicate rank 1 ! r * hadamard_of_gramians rows_gramian (factors ?res) r r
        = (1 / norm_x)\<^sup>2 * (replicate rank (1::real) ! r * replicate rank 1 ! r
             * hadamard_of_gramians rows_gramian (factors ?init) r r)"
      by (simp only: H[OF r r] ac_simps)
    then show "replicate rank (1::real) ! r * replicate rank 1 ! r
            * hadamard_of_gramians rows_gramian (map (colScale (replicate rank c)) mats) r r
          + (\<Sum>q \<leftarrow> [r + 1..<rank]. 2 * replicate rank (1::real) ! r * replicate rank 1 ! q
               * hadamard_of_gramians rows_gramian (map (colScale (replicate rank c)) mats) r q)
        = (1 / norm_x)\<^sup>2 * (replicate rank (1::real) ! r * replicate rank 1 ! r
            * hadamard_of_gramians rows_gramian mats r r
          + (\<Sum>q \<leftarrow> [r + 1..<rank]. 2 * replicate rank (1::real) ! r * replicate rank 1 ! q
               * hadamard_of_gramians rows_gramian mats r q))"
      using inner[OF r] by (simp add: distrib_left)
  qed
  then have "sqrt (normFsq rows_gramian ?res) = \<bar>1 / norm_x\<bar> * sqrt (normFsq rows_gramian ?init)"
    by (simp only: real_sqrt_mult real_sqrt_abs)
  also have "\<dots> = sqrt (normFsq rows_gramian ?init) / norm_x" using nx by simp
  finally show ?thesis using run by simp
qed

text \<open>
  Claim C9 at a concrete input: one process, rank 1, one mode of size 1, the random
  factor entry 1 and data of norm 2.  \<^verbatim>\<open>DistGCP::init_factors\<close> scales the weight to \<open>1/2\<close>
  and \<^verbatim>\<open>distribute\<close> moves it into the factor matrix: the result has the weight 1, the
  factor entry \<open>1/2\<close> and the norm \<open>1/2\<close>, which is not the norm 2 of the data; \<^verbatim>\<open>driver\<close>
  produces the weight 2 and a Ktensor of norm 2.
\<close>

theorem init_factors_norm_mismatch:
  "init_factors one_process_pmap 1 1 [(2, [[[1]]])] = Some [\<lparr>weights = [1], factors = [[[1 / 2]]]\<rparr>]
   \<and> sqrt (normFsq rows_gramian \<lparr>weights = [1], factors = [[[1 / 2]]]\<rparr>) = 1 / 2
   \<and> (1 / 2 :: real) \<noteq> 2
   \<and> driver_initial_guess rows_gramian 2 1 [[[1]]] = Some \<lparr>weights = [2], factors = [[[1]]]\<rparr>
   \<and> sqrt (normFsq rows_gramian \<lparr>weights = [2], factors = [[[1]]]\<rparr>) = 2"
proof -
  have a: "sqrt (1 / 4) = 1 / 2"
    using real_sqrt_abs[of "1 / 2"] by (simp add: power2_eq_square)
  have b: "sqrt 4 = 2"
    using real_sqrt_abs[of 2] by simp
  have r: "init_factors_rank 2 1 [[[1]]] = Some \<lparr>weights = [1], factors = [[[1 / 2]]]\<rparr>"
    by (simp add: init_factors_rank_def distribute_def power_nd_root_def colScale_def
        setWeights_def weights_times_def ndims_def Let_def)
  have c: "init_factors one_process_pmap 1 1 [(2, [[[1]]])] = Some [\<lparr>weights = [1], factors = [[[1 / 2]]]\<rparr>]"
    unfolding init_factors_def Let_def by (simp add: r[unfolded One_nat_def] one_process_pmap_def)
  show ?thesis
    by (simp add: c[unfolded One_nat_def] driver_initial_guess_def setWeights_def weights_times_def
        normFsq_def ncomponents_def hadamard_of_gramians_def rows_gramian_def a b)
qed

subsection \<open>The contributions of the fused gradient kernel\<close>

text \<open>The loop of \<^verbatim>\<open>row_func\<close> multiplies by the entries of all modes below the bound but \<open>n\<close>.\<close>

lemma row_product_closed:
  "row_product M ind bound n j v =
     v * (\<Prod>m \<leftarrow> filter (\<lambda>m. m \<noteq> n) [0..<bound]. entry (factors M ! m) (ind ! m) j)"
proof -
  have "fold (\<lambda>m tmp. if m \<noteq> n then tmp * entry (factors M ! m) (ind ! m) j else tmp) ms v
      = v * (\<Prod>m \<leftarrow> filter (\<lambda>m. m \<noteq> n) ms. entry (factors M ! m) (ind ! m) j)" for ms
    by (induction ms arbitrary: v) (simp_all add: mult.assoc)
  then show ?thesis by (simp add: row_product_def)
qed

text \<open>
  Without a previous model, \<^verbatim>\<open>row_func\<close> adds to \<^verbatim>\<open>G[n].entry(k,j)\<close> the value \<^verbatim>\<open>y_val\<close>
  times the product of the entries of the other modes: of all other modes \<open>m < nd\<close> for
  a nonzero sample, but only of the other modes \<open>m < d\<close> for a zero sample.
\<close>

lemma nonzero_row_func_adds:
  assumes "n < length G" and "k < length (G ! n)" and "j < length (G ! n ! k)"
  shows "\<exists>G'. nonzero_row_func M False nd ind y_val yt_val j k n G = Inr G'
          \<and> G' ! n ! k ! j = G ! n ! k ! j
               + y_val * (\<Prod>m \<leftarrow> filter (\<lambda>m. m \<noteq> n) [0..<nd]. entry (factors M ! m) (ind ! m) j)"
  using assms by (simp add: nonzero_row_func_def atomic_add_def row_product_closed)

lemma zero_row_func_adds:
  assumes "n < length G" and "k < length (G ! n)" and "j < length (G ! n ! k)"
  shows "\<exists>G'. zero_row_func M False d nd ind y_val yt_val j k n G = Inr G'
          \<and> G' ! n ! k ! j = G ! n ! k ! j
               + y_val * (\<Prod>m \<leftarrow> filter (\<lambda>m. m \<noteq> n) [0..<d]. entry (factors M ! m) (ind ! m) j)"
  using assms by (simp add: zero_row_func_def atomic_add_def row_product_closed)

text \<open>
  Claim C3 at a concrete input: three modes, \<^verbatim>\<open>modes = [0, 1]\<close> (so \<open>d = 2 < nd = 3\<close>), a
  zero sample at the coordinate \<open>(0, 0, 0)\<close> with \<^verbatim>\<open>m_val = 30\<close> and \<^verbatim>\<open>y_val = 60\<close>.  The
  claim's contribution to mode 0 is \<open>60 \<cdot> (3 \<cdot> 5) = 900\<close>; \<^verbatim>\<open>row_func\<close> of the zero samples
  adds \<open>60 \<cdot> 3 = 180\<close>, leaving out mode 2, and the loop over the modes goes on to read
  \<^verbatim>\<open>modes[2]\<close>.  With all three modes in \<^verbatim>\<open>modes\<close> the zero sample adds 900, 600 and 360,
  and the nonzero sample is right for \<^verbatim>\<open>modes = [0, 1]\<close> as well.
\<close>

theorem zero_sample_product_stops_at_d:
  "have_Mprev demo_M
   \<and> compute_Ktensor_value demo_M [0, 0, 0] = 30
   \<and> 1 * gaussian_deriv 0 30 = 60 \<and> 1 * gaussian_deriv 30 30 = 0
   \<and> zero_row_func demo_M True 2 3 [0, 0, 0] 60 0 0 0 0 [[[0]], [[0]]] = Inr [[[180]], [[0]]]
   \<and> (60 :: real) * (3 * 5) = 900
   \<and> zero_sample demo_M demo_M demo_M gaussian_deriv 1 [0, 1] [0, 0, 0] [[[0]], [[0]]]
        = Inl OutOfBounds
   \<and> zero_sample demo_M demo_M demo_M gaussian_deriv 1 [0, 1, 2] [0, 0, 0] [[[0]], [[0]], [[0]]]
        = Inr [[[900]], [[600]], [[360]]]
   \<and> nonzero_sample demo_X demo_M demo_M demo_M gaussian_deriv 1 [0, 1] 0 [[[0]], [[0]]]
        = Inr [[[- 30]], [[- 20]]]"
  by (simp add: compute_Ktensor_value_def zero_row_func_def zero_sample_def nonzero_sample_def
      nonzero_row_func_def atomic_add_def row_product_def entry_def demo_M_def demo_X_def
      gaussian_deriv_def have_Mprev_def ncomponents_def ndims_def Let_def upt_conv_Cons)

subsection \<open>The all-reduce of the gradient\<close>

lemma length_allreduce_mode [simp]: "length (allreduce_mode pm i gs) = length gs"
  by (simp add: allreduce_mode_def)

lemma allreduce_mode_nth:
  "r < length gs \<Longrightarrow> allreduce_mode pm i gs ! r =
     (if subCommSizes pm ! i = 1 then gs ! r
      else (gs ! r)\<lparr>factors := (factors (gs ! r))[i := subcomm_sum pm gs i r]\<rparr>)"
  by (simp add: allreduce_mode_def subcomm_sum_def)

lemma length_fold_allreduce [simp]: "length (fold (allreduce_mode pm) [0..<m] gs) = length gs"
  by (induction m) simp_all

lemma fold_allreduce_shape:
  "r < length gs \<Longrightarrow>
     weights (fold (allreduce_mode pm) [0..<m] gs ! r) = weights (gs ! r) \<and>
     length (factors (fold (allreduce_mode pm) [0..<m] gs ! r)) = length (factors (gs ! r))"
  by (induction m) (simp_all add: allreduce_mode_nth)

lemma subcomm_sum_cong:
  assumes "\<forall>q \<in> set (subComm pm i r). factors (gs' ! q) ! i = factors (gs ! q) ! i"
    and "factors (gs' ! r) ! i = factors (gs ! r) ! i"
  shows "subcomm_sum pm gs' i r = subcomm_sum pm gs i r"
proof -
  have "map (\<lambda>q. factors (gs' ! q) ! i) (subComm pm i r) = map (\<lambda>q. factors (gs ! q) ! i) (subComm pm i r)"
    using assms(1) by (intro map_cong refl) simp
  then show ?thesis unfolding subcomm_sum_def assms(2) by (rule arg_cong)
qed

lemma fold_allreduce_factor:
  assumes ok: "pmap_ok pm (length gs) nd" and m: "m \<le> nd"
    and nf: "\<forall>r < length gs. length (factors (gs ! r)) = nd"
  shows "\<forall>r < length gs. \<forall>i < nd.
     factors (fold (allreduce_mode pm) [0..<m] gs ! r) ! i =
       (if i < m \<and> subCommSizes pm ! i \<noteq> 1 then subcomm_sum pm gs i r else factors (gs ! r) ! i)"
  using m
proof (induction m)
  case 0
  then show ?case by simp
next
  case (Suc m)
  let ?gs' = "fold (allreduce_mode pm) [0..<m] gs"
  have IH: "\<And>r i. r < length gs \<Longrightarrow> i < nd \<Longrightarrow>
     factors (?gs' ! r) ! i =
       (if i < m \<and> subCommSizes pm ! i \<noteq> 1 then subcomm_sum pm gs i r else factors (gs ! r) ! i)"
    using Suc by simp
  have m_nd: "m < nd" using Suc.prems by simp
  show ?case
  proof (intro allI impI)
    fix r i assume r: "r < length gs" and i: "i < nd"
    have len: "length (factors (?gs' ! r)) = nd"
      using fold_allreduce_shape[OF r, of pm m] nf r by simp
    have step: "fold (allreduce_mode pm) [0..<Suc m] gs ! r =
        (if subCommSizes pm ! m = 1 then ?gs' ! r
         else (?gs' ! r)\<lparr>factors := (factors (?gs' ! r))[m := subcomm_sum pm ?gs' m r]\<rparr>)"
      using r by (simp add: allreduce_mode_nth)
    have same: "subcomm_sum pm ?gs' m r = subcomm_sum pm gs m r"
    proof (rule subcomm_sum_cong)
      show "\<forall>q \<in> set (subComm pm m r). factors (?gs' ! q) ! m = factors (gs ! q) ! m"
      proof
        fix q assume "q \<in> set (subComm pm m r)"
        then have q: "q < length gs" using ok m_nd r by (auto simp: pmap_ok_def)
        show "factors (?gs' ! q) ! m = factors (gs ! q) ! m"
          using IH[OF q m_nd] by simp
      qed
      show "factors (?gs' ! r) ! m = factors (gs ! r) ! m"
        using IH[OF r m_nd] by simp
    qed
    show "factors (fold (allreduce_mode pm) [0..<Suc m] gs ! r) ! i =
       (if i < Suc m \<and> subCommSizes pm ! i \<noteq> 1 then subcomm_sum pm gs i r else factors (gs ! r) ! i)"
    proof (cases "i = m")
      case True
      show ?thesis
      proof (cases "subCommSizes pm ! m = 1")
        case one: True
        show ?thesis unfolding step using one True IH[OF r m_nd] by simp
      next
        case notone: False
        show ?thesis unfolding step using notone True len m_nd same by simp
      qed
    next
      case False
      have "factors (fold (allreduce_mode pm) [0..<Suc m] gs ! r) ! i = factors (?gs' ! r) ! i"
        unfolding step using False by simp
      also have "\<dots> = (if i < m \<and> subCommSizes pm ! i \<noteq> 1 then subcomm_sum pm gs i r else factors (gs ! r) ! i)"
        by (rule IH[OF r i])
      also have "\<dots> = (if i < Suc m \<and> subCommSizes pm ! i \<noteq> 1 then subcomm_sum pm gs i r else factors (gs ! r) ! i)"
        using False by (simp add: less_Suc_eq)
      finally show ?thesis .
    qed
  qed
qed

lemma MPI_Allreduce_SUM_entry:
  "a < length own \<Longrightarrow> b < length (own ! a) \<Longrightarrow>
     MPI_Allreduce_SUM own bufs ! a ! b = (\<Sum>buf \<leftarrow> bufs. buf ! a ! b)"
  by (simp add: MPI_Allreduce_SUM_def)

lemma subcomm_sum_entry:
  "a < length (factors (gs ! r) ! i) \<Longrightarrow> b < length (factors (gs ! r) ! i ! a) \<Longrightarrow>
     subcomm_sum pm gs i r ! a ! b = (\<Sum>q \<leftarrow> subComm pm i r. factors (gs ! q) ! i ! a ! b)"
  by (simp add: subcomm_sum_def MPI_Allreduce_SUM_entry comp_def)

lemma allReduceKT_sum:
  assumes "pmap_ok pm (length gs) nd" and "\<forall>r < length gs. length (factors (gs ! r)) = nd"
    and "r < length gs"
  shows "length (allReduceKT pm nd False gs) = length gs"
    and "weights (allReduceKT pm nd False gs ! r) = weights (gs ! r)"
    and "length (factors (allReduceKT pm nd False gs ! r)) = nd"
    and "i < nd \<Longrightarrow> factors (allReduceKT pm nd False gs ! r) ! i =
          (if nprocs pm = 1 \<or> subCommSizes pm ! i = 1 then factors (gs ! r) ! i
           else subcomm_sum pm gs i r)"
proof -
  show "length (allReduceKT pm nd False gs) = length gs"
    by (simp add: allReduceKT_def)
  show "weights (allReduceKT pm nd False gs ! r) = weights (gs ! r)"
    using fold_allreduce_shape[OF assms(3), of pm nd] by (simp add: allReduceKT_def)
  show "length (factors (allReduceKT pm nd False gs ! r)) = nd"
    using fold_allreduce_shape[OF assms(3), of pm nd] assms(2,3) by (simp add: allReduceKT_def)
  show "factors (allReduceKT pm nd False gs ! r) ! i =
          (if nprocs pm = 1 \<or> subCommSizes pm ! i = 1 then factors (gs ! r) ! i
           else subcomm_sum pm gs i r)" if "i < nd"
    using fold_allreduce_factor[OF assms(1) le_refl assms(2)] assms(3) that
    by (simp add: allReduceKT_def)
qed

lemma allreduce_step_length [simp]:
  "length (allreduce_step flag pm nd update eval fusedGradient rs) = length rs"
  unfolding allreduce_step_def Let_def by simp

lemma allreduce_step_nth:
  assumes r: "r < length rs"
  shows "rk_g (allreduce_step flag pm nd update eval fusedGradient rs ! r)
           = allReduceKT pm nd flag (map (local_gradient fusedGradient) rs) ! r"
    and "(rk_stepper (allreduce_step flag pm nd update eval fusedGradient rs ! r),
          rk_u (allreduce_step flag pm nd update eval fusedGradient rs ! r))
           = eval (update (rk_stepper (rs ! r)))
                  (allReduceKT pm nd flag (map (local_gradient fusedGradient) rs) ! r)
                  (rk_u (rs ! r))"
  unfolding allreduce_step_def Let_def
  using r by (simp_all add: split_beta comp_def local_gradient_def[abs_def])

text \<open>
  Claim C2.  In an inner iteration of \<^verbatim>\<open>allReduceTrad\<close>, on every rank \<open>r\<close>, the gradient
  that \<^verbatim>\<open>stepper.eval\<close> consumes (after \<^verbatim>\<open>stepper.update()\<close>, on the parameters the
  iteration started from) is the locally computed gradient Ktensor after the all-reduce:
  its weights are untouched, and its factor matrix of every mode \<open>i\<close> is the sum, entry by
  entry and without any division, of the local factor matrices of the ranks in the
  sub-communicator of mode \<open>i\<close>; a mode whose sub-communicator has size 1 (and every mode
  when there is a single process) keeps the local factor matrix.  The inner loop applies
  the same body in every iteration.
\<close>

theorem trad_iteration_sums_gradient:
  assumes "pmap_ok pm (length rs) nd"
    and "\<forall>q < length rs. length (factors (local_gradient fusedGradient (rs ! q))) = nd"
    and "r < length rs"
  shows "(rk_stepper (allReduceTrad_iter pm nd update eval fusedGradient rs ! r),
          rk_u (allReduceTrad_iter pm nd update eval fusedGradient rs ! r))
           = eval (update (rk_stepper (rs ! r)))
                  (rk_g (allReduceTrad_iter pm nd update eval fusedGradient rs ! r))
                  (rk_u (rs ! r))
     \<and> weights (rk_g (allReduceTrad_iter pm nd update eval fusedGradient rs ! r))
           = weights (local_gradient fusedGradient (rs ! r))
     \<and> length (factors (rk_g (allReduceTrad_iter pm nd update eval fusedGradient rs ! r))) = nd
     \<and> (\<forall>i < nd. factors (rk_g (allReduceTrad_iter pm nd update eval fusedGradient rs ! r)) ! i =
           (if nprocs pm = 1 \<or> subCommSizes pm ! i = 1
            then factors (local_gradient fusedGradient (rs ! r)) ! i
            else MPI_Allreduce_SUM (factors (local_gradient fusedGradient (rs ! r)) ! i)
                   (map (\<lambda>q. factors (local_gradient fusedGradient (rs ! q)) ! i) (subComm pm i r))))
     \<and> (\<forall>i < nd. nprocs pm \<noteq> 1 \<and> subCommSizes pm ! i \<noteq> 1 \<longrightarrow>
          (\<forall>a < length (factors (local_gradient fusedGradient (rs ! r)) ! i).
           \<forall>b < length (factors (local_gradient fusedGradient (rs ! r)) ! i ! a).
             factors (rk_g (allReduceTrad_iter pm nd update eval fusedGradient rs ! r)) ! i ! a ! b
               = (\<Sum>q \<leftarrow> subComm pm i r. factors (local_gradient fusedGradient (rs ! q)) ! i ! a ! b)))
     \<and> allReduceTrad_inner_loop pm nd update eval fusedGradient (Suc k) rs0
           = allReduceTrad_iter pm nd update eval fusedGradient
               (allReduceTrad_inner_loop pm nd update eval fusedGradient k rs0)"
proof -
  let ?G = "map (local_gradient fusedGradient) rs"
  let ?rs' = "allReduceTrad_iter pm nd update eval fusedGradient rs"
  have ok: "pmap_ok pm (length ?G) nd" using assms(1) by simp
  have nf: "\<forall>q < length ?G. length (factors (?G ! q)) = nd" using assms(2) by simp
  have r: "r < length ?G" using assms(3) by simp
  note red = allReduceKT_sum[OF ok nf r]
  have g: "rk_g (?rs' ! r) = allReduceKT pm nd False ?G ! r"
    unfolding allReduceTrad_iter_def by (rule allreduce_step_nth(1)[OF assms(3)])
  have members: "\<And>i. i < nd \<Longrightarrow>
      map (\<lambda>q. factors (?G ! q) ! i) (subComm pm i r)
        = map (\<lambda>q. factors (local_gradient fusedGradient (rs ! q)) ! i) (subComm pm i r)"
  proof (rule map_cong[OF refl])
    fix i q assume "i < nd" and "q \<in> set (subComm pm i r)"
    then have "q < length rs" using assms(1,3) by (auto simp: pmap_ok_def)
    then show "factors (?G ! q) ! i = factors (local_gradient fusedGradient (rs ! q)) ! i" by simp
  qed
  have c1: "(rk_stepper (?rs' ! r), rk_u (?rs' ! r)) = eval (update (rk_stepper (rs ! r))) (rk_g (?rs' ! r)) (rk_u (rs ! r))"
    unfolding g unfolding allReduceTrad_iter_def by (rule allreduce_step_nth(2)[OF assms(3)])
  have c2: "weights (rk_g (?rs' ! r)) = weights (local_gradient fusedGradient (rs ! r))"
    unfolding g using red(2) assms(3) by simp
  have c2': "length (factors (rk_g (?rs' ! r))) = nd"
    unfolding g by (rule red(3))
  have c3: "\<forall>i < nd. factors (rk_g (?rs' ! r)) ! i =
           (if nprocs pm = 1 \<or> subCommSizes pm ! i = 1
            then factors (local_gradient fusedGradient (rs ! r)) ! i
            else MPI_Allreduce_SUM (factors (local_gradient fusedGradient (rs ! r)) ! i)
                   (map (\<lambda>q. factors (local_gradient fusedGradient (rs ! q)) ! i) (subComm pm i r)))"
  proof (intro allI impI)
    fix i assume i: "i < nd"
    have own: "factors (?G ! r) ! i = factors (local_gradient fusedGradient (rs ! r)) ! i"
      using assms(3) by simp
    show "factors (rk_g (?rs' ! r)) ! i =
           (if nprocs pm = 1 \<or> subCommSizes pm ! i = 1
            then factors (local_gradient fusedGradient (rs ! r)) ! i
            else MPI_Allreduce_SUM (factors (local_gradient fusedGradient (rs ! r)) ! i)
                   (map (\<lambda>q. factors (local_gradient fusedGradient (rs ! q)) ! i) (subComm pm i r)))"
      unfolding g red(4)[OF i] subcomm_sum_def members[OF i] own ..
  qed
  have c4: "\<forall>i < nd. nprocs pm \<noteq> 1 \<and> subCommSizes pm ! i \<noteq> 1 \<longrightarrow>
          (\<forall>a < length (factors (local_gradient fusedGradient (rs ! r)) ! i).
           \<forall>b < length (factors (local_gradient fusedGradient (rs ! r)) ! i ! a).
             factors (rk_g (?rs' ! r)) ! i ! a ! b
               = (\<Sum>q \<leftarrow> subComm pm i r. factors (local_gradient fusedGradient (rs ! q)) ! i ! a ! b))"
    using c3 by (simp add: MPI_Allreduce_SUM_entry comp_def)
  have c5: "allReduceTrad_inner_loop pm nd update eval fusedGradient (Suc k) rs0
           = allReduceTrad_iter pm nd update eval fusedGradient
               (allReduceTrad_inner_loop pm nd update eval fusedGradient k rs0)"
    by (simp add: allReduceTrad_inner_loop_def)
  from c1 c2 c2' c3 c4 c5 show ?thesis by blast
qed

text \<open>
  The grid of two processes for a tensor with the mode sizes 1 and 2 is the map that the
  constructor builds, and its sub-communicators are both ranks for mode 0 and the rank
  alone for mode 1.
\<close>

lemma demo_pmap_built: "ProcessorMap 2 [1, 2] = Inr demo_pmap"
proof -
  have "CartGrid 2 [1, 2] MinFactorSpace = Inr [1, 2]" by code_simp
  moreover have "map (\<lambda>i. length (cart_sub [1, 2] i 0)) [0..<length [1::nat, 2]] = [2, 1]" by code_simp
  ultimately show ?thesis by (simp add: ProcessorMap_def demo_pmap_def)
qed

lemma demo_subComm:
  "subComm demo_pmap 0 0 = [0, 1]" "subComm demo_pmap 0 (Suc 0) = [0, 1]"
  "subComm demo_pmap (Suc 0) 0 = [0]" "subComm demo_pmap (Suc 0) (Suc 0) = [1]"
  unfolding demo_pmap_def pmap.simps by code_simp+

lemma demo_pmap_sizes:
  "nprocs demo_pmap = 2" "subCommSizes demo_pmap = [2, 1]"
  by (simp_all add: demo_pmap_def)

lemma demo_pmap_ok: "pmap_ok demo_pmap 2 2"
  by (auto simp: pmap_ok_def demo_pmap_def cart_sub_def)

text \<open>
  Two ranks that form the sub-communicator of mode 0, local gradient 1 on both: the step
  consumes 2 for mode 0 and the local 1 for mode 1.
\<close>

lemma demo_trad_run:
  "allReduceTrad_iter demo_pmap 2 sgd_update (sgd_eval None) demo_gradient [demo_rank, demo_rank]
     = [demo_rank_after [[[- 2]], [[- 1]]] [[[2]], [[1]]], demo_rank_after [[[- 2]], [[- 1]]] [[[2]], [[1]]]]"
  by (simp add: allReduceTrad_iter_def allreduce_step_def allReduceKT_def allreduce_mode_def
      MPI_Allreduce_SUM_def demo_subComm demo_pmap_sizes demo_rank_def demo_rank_after_def
      demo_gradient_def sgd_update_def sgd_eval_def box_clamp_def kt_zero_def Let_def
      numeral_2_eq_2)

theorem trad_iteration_sums_gradient_witness:
  "(0::nat) < length [demo_rank, demo_rank]
   \<and> nprocs demo_pmap \<noteq> 1 \<and> subCommSizes demo_pmap ! 0 \<noteq> 1 \<and> subCommSizes demo_pmap ! 1 = 1
   \<and> factors (local_gradient demo_gradient demo_rank) = [[[1]], [[1]]]
   \<and> factors (rk_g (allReduceTrad_iter demo_pmap 2 sgd_update (sgd_eval None) demo_gradient
                       [demo_rank, demo_rank] ! 0)) ! 0 ! 0 ! 0 = 2
   \<and> factors (rk_g (allReduceTrad_iter demo_pmap 2 sgd_update (sgd_eval None) demo_gradient
                       [demo_rank, demo_rank] ! 0)) ! 1 = [[1]]"
proof -
  let ?rs = "[demo_rank, demo_rank]"
  let ?g = "factors (rk_g (allReduceTrad_iter demo_pmap 2 sgd_update (sgd_eval None) demo_gradient ?rs ! 0))"
  have h1: "pmap_ok demo_pmap (length ?rs) 2"
    using demo_pmap_ok by (simp add: numeral_2_eq_2)
  have lg: "factors (local_gradient demo_gradient demo_rank) = [[[1]], [[1]]]"
    by (simp add: local_gradient_def demo_gradient_def)
  have h2: "\<forall>q < length ?rs. length (factors (local_gradient demo_gradient (?rs ! q))) = 2"
    by (simp add: lg less_Suc_eq)
  have h3: "(0::nat) < length ?rs" by simp
  have h4: "nprocs demo_pmap \<noteq> 1 \<and> subCommSizes demo_pmap ! 0 \<noteq> 1 \<and> subCommSizes demo_pmap ! 1 = 1"
    by (simp add: demo_pmap_sizes)
  note inst = trad_iteration_sums_gradient[OF h1 h2 h3, of sgd_update "sgd_eval None" 0 ?rs]
  note modes = inst[THEN conjunct2, THEN conjunct2, THEN conjunct2, THEN conjunct1, rule_format]
  note sums = inst[THEN conjunct2, THEN conjunct2, THEN conjunct2, THEN conjunct2, THEN conjunct1,
      rule_format]
  have "?g ! 0 ! 0 ! 0
      = (\<Sum>q \<leftarrow> subComm demo_pmap 0 0. factors (local_gradient demo_gradient (?rs ! q)) ! 0 ! 0 ! 0)"
    by (rule sums) (simp_all add: demo_pmap_sizes lg)
  then have m0: "?g ! 0 ! 0 ! 0 = 2"
    by (simp add: lg demo_subComm)
  have "?g ! 1 = (if nprocs demo_pmap = 1 \<or> subCommSizes demo_pmap ! 1 = 1
            then factors (local_gradient demo_gradient (?rs ! 0)) ! 1
            else MPI_Allreduce_SUM (factors (local_gradient demo_gradient (?rs ! 0)) ! 1)
                   (map (\<lambda>q. factors (local_gradient demo_gradient (?rs ! q)) ! 1) (subComm demo_pmap 1 0)))"
    by (rule modes) simp
  then have m1: "?g ! 1 = [[1]]" by (simp add: lg demo_pmap_sizes)
  from h3 h4 lg m0 m1 show ?thesis by simp
qed

subsection \<open>Federated averaging in every iteration\<close>

lemma length_scale_mode [simp]: "length (scale_mode pm d gs) = length gs"
  by (simp add: scale_mode_def)

lemma length_fold_scale [simp]: "length (fold (scale_mode pm) [0..<m] gs) = length gs"
  by (induction m) simp_all

lemma fold_scale_nth:
  assumes r: "r < length gs"
  shows "weights (fold (scale_mode pm) [0..<m] gs ! r) = weights (gs ! r)
       \<and> length (factors (fold (scale_mode pm) [0..<m] gs ! r)) = length (factors (gs ! r))
       \<and> (\<forall>i < length (factors (gs ! r)).
            factors (fold (scale_mode pm) [0..<m] gs ! r) ! i =
              (if i < m then facmat_times (1 / real (subCommSizes pm ! i)) (factors (gs ! r) ! i)
               else factors (gs ! r) ! i))"
proof (induction m)
  case 0
  then show ?case by simp
next
  case (Suc m)
  let ?gs' = "fold (scale_mode pm) [0..<m] gs"
  have r': "r < length ?gs'" using r by simp
  have step: "fold (scale_mode pm) [0..<Suc m] gs ! r =
      (?gs' ! r)\<lparr>factors := (factors (?gs' ! r))[m := facmat_times (1 / real (subCommSizes pm ! m)) (factors (?gs' ! r) ! m)]\<rparr>"
    using r' by (simp add: scale_mode_def)
  show ?case
    unfolding step using Suc by (auto simp: nth_list_update less_Suc_eq)
qed

lemma allReduceKT_avg:
  assumes "pmap_ok pm (length gs) nd" and "\<forall>r < length gs. length (factors (gs ! r)) = nd"
    and "r < length gs" and "nprocs pm \<noteq> 1"
  shows "weights (allReduceKT pm nd True gs ! r) = weights (gs ! r)"
    and "length (factors (allReduceKT pm nd True gs ! r)) = nd"
    and "i < nd \<Longrightarrow> factors (allReduceKT pm nd True gs ! r) ! i =
          facmat_times (1 / real (subCommSizes pm ! i))
            (if subCommSizes pm ! i = 1 then factors (gs ! r) ! i else subcomm_sum pm gs i r)"
proof -
  let ?gs1 = "fold (allreduce_mode pm) [0..<nd] gs"
  have r1: "r < length ?gs1" using assms(3) by simp
  have sh: "weights (?gs1 ! r) = weights (gs ! r)" "length (factors (?gs1 ! r)) = nd"
    using fold_allreduce_shape[OF assms(3), of pm nd] assms(2,3) by simp_all
  note sc = fold_scale_nth[OF r1, of pm nd]
  have kt: "allReduceKT pm nd True gs = fold (scale_mode pm) [0..<nd] ?gs1"
    using assms(4) by (simp add: allReduceKT_def)
  show "weights (allReduceKT pm nd True gs ! r) = weights (gs ! r)"
    unfolding kt using sc sh by simp
  show "length (factors (allReduceKT pm nd True gs ! r)) = nd"
    unfolding kt using sc sh by simp
  show "factors (allReduceKT pm nd True gs ! r) ! i =
          facmat_times (1 / real (subCommSizes pm ! i))
            (if subCommSizes pm ! i = 1 then factors (gs ! r) ! i else subcomm_sum pm gs i r)" if i: "i < nd"
  proof -
    have "factors (fold (scale_mode pm) [0..<nd] ?gs1 ! r) ! i
        = facmat_times (1 / real (subCommSizes pm ! i)) (factors (?gs1 ! r) ! i)"
      using sc sh i by simp
    moreover have "factors (?gs1 ! r) ! i =
        (if subCommSizes pm ! i = 1 then factors (gs ! r) ! i else subcomm_sum pm gs i r)"
      using fold_allreduce_factor[OF assms(1) le_refl assms(2)] assms(3) i by simp
    ultimately show ?thesis unfolding kt by simp
  qed
qed

lemma facmat_eqI:
  fixes X Y :: facmat
  assumes "length X = length Y"
    and "\<And>a. a < length X \<Longrightarrow> length (X ! a) = length (Y ! a)"
    and "\<And>a b. a < length X \<Longrightarrow> b < length (X ! a) \<Longrightarrow> X ! a ! b = Y ! a ! b"
  shows "X = Y"
proof (rule nth_equalityI[OF assms(1)])
  fix a assume a: "a < length X"
  show "X ! a = Y ! a"
    by (rule nth_equalityI[OF assms(2)[OF a]]) (rule assms(3)[OF a])
qed

lemma same_shape_D:
  fixes A B :: facmat
  assumes "map length B = map length A"
  shows "length B = length A" and "a < length A \<Longrightarrow> length (B ! a) = length (A ! a)"
proof -
  show l: "length B = length A" using assms by (metis length_map)
  show "length (B ! a) = length (A ! a)" if "a < length A"
    using assms that l by (metis nth_map)
qed

lemma sum_list_affine:
  fixes c s :: real
  shows "(\<Sum>q \<leftarrow> qs. c - s * g q) = real (length qs) * c - s * (\<Sum>q \<leftarrow> qs. g q)"
  by (induction qs) (simp_all add: algebra_simps)

lemma avg_of_steps:
  fixes A B :: facmat and Gm :: "nat \<Rightarrow> facmat" and s :: real
  assumes B: "map length B = map length A"
    and G: "\<forall>q \<in> set mem. map length (Gm q) = map length A"
    and P: "length mem = P" "0 < P"
  shows "facmat_times (1 / real P)
           (MPI_Allreduce_SUM (map2 (map2 (\<lambda>p g. p - s * g)) A B)
              (map (\<lambda>q. map2 (map2 (\<lambda>p g. p - s * g)) A (Gm q)) mem))
       = map2 (map2 (\<lambda>p g. p - s * g)) A
           (facmat_times (1 / real P) (MPI_Allreduce_SUM B (map Gm mem)))"
    (is "?L = ?R")
proof (rule facmat_eqI)
  note Bs = same_shape_D[OF B]
  show len: "length ?L = length ?R"
    by (simp add: facmat_times_def MPI_Allreduce_SUM_def Bs(1))
  have lenL: "length ?L = length A"
    by (simp add: facmat_times_def MPI_Allreduce_SUM_def Bs(1))
  show rows: "length (?L ! a) = length (?R ! a)" if "a < length ?L" for a
  proof -
    have a: "a < length A" using that lenL by simp
    then show ?thesis
      by (simp add: facmat_times_def MPI_Allreduce_SUM_def Bs(1) Bs(2)[OF a])
  qed
  show "?L ! a ! b = ?R ! a ! b" if "a < length ?L" and "b < length (?L ! a)" for a b
  proof -
    have a: "a < length A" using that(1) lenL by simp
    have b: "b < length (A ! a)"
      using that(2) a by (simp add: facmat_times_def MPI_Allreduce_SUM_def Bs(1) Bs(2)[OF a])
    have member: "map2 (map2 (\<lambda>p g. p - s * g)) A (Gm q) ! a ! b = A ! a ! b - s * (Gm q ! a ! b)"
      if "q \<in> set mem" for q
    proof -
      note Gs = same_shape_D[OF G[rule_format, OF that]]
      show ?thesis using a b Gs(1) Gs(2)[OF a] by simp
    qed
    have "?L ! a ! b =
        (\<Sum>q \<leftarrow> mem. map2 (map2 (\<lambda>p g. p - s * g)) A (Gm q) ! a ! b) * (1 / real P)"
      using a b by (simp add: facmat_times_def MPI_Allreduce_SUM_def Bs(1) Bs(2)[OF a] comp_def)
    also have "(\<Sum>q \<leftarrow> mem. map2 (map2 (\<lambda>p g. p - s * g)) A (Gm q) ! a ! b)
        = (\<Sum>q \<leftarrow> mem. A ! a ! b - s * (Gm q ! a ! b))"
      by (rule arg_cong[where f = sum_list], rule map_cong[OF refl]) (rule member)
    also have "\<dots> = real P * (A ! a ! b) - s * (\<Sum>q \<leftarrow> mem. Gm q ! a ! b)"
      by (simp add: sum_list_affine P(1))
    also have "(real P * (A ! a ! b) - s * (\<Sum>q \<leftarrow> mem. Gm q ! a ! b)) * (1 / real P)
        = A ! a ! b - s * ((\<Sum>q \<leftarrow> mem. Gm q ! a ! b) * (1 / real P))"
      using P(2) by (simp add: field_simps)
    also have "\<dots> = ?R ! a ! b"
      using a b by (simp add: facmat_times_def MPI_Allreduce_SUM_def Bs(1) Bs(2)[OF a] comp_def)
    finally show ?thesis .
  qed
qed

lemma facmat_times_one [simp]: "facmat_times 1 A = A"
  by (simp add: facmat_times_def map_idI)

lemma sgd_eval_shape:
  "weights (snd (sgd_eval None step g params)) = weights params"
  "length (factors (snd (sgd_eval None step g params))) = min (length (factors params)) (length (factors g))"
  "i < length (factors params) \<Longrightarrow> i < length (factors g) \<Longrightarrow>
     factors (snd (sgd_eval None step g params)) ! i
       = map2 (map2 (\<lambda>param grad. param - step * grad)) (factors params ! i) (factors g ! i)"
  by (simp_all add: sgd_eval_def box_clamp_def)

lemma fedavg_sync_nth:
  "r < length rs \<Longrightarrow> rk_u (fedavg_sync pm nd rs ! r) = allReduceKT pm nd True (map rk_u rs) ! r"
  by (simp add: fedavg_sync_def Let_def)

lemma fedOpt_do_epoch_iter_u:
  "map rk_u (fedOpt_do_epoch_iter eval fusedGradient rs)
     = map (\<lambda>x. snd (eval (rk_stepper x) (local_gradient fusedGradient x) (rk_u x))) rs"
  by (simp add: fedOpt_do_epoch_iter_def Let_def split_beta comp_def local_gradient_def)

lemma length_fedOpt_do_epoch_iter [simp]:
  "length (fedOpt_do_epoch_iter eval fusedGradient rs) = length rs"
  by (simp add: fedOpt_do_epoch_iter_def)

lemma fed_inner_every_iteration:
  "fed_inner d a m 1 True n i x = Inr (((\<lambda>y. a (d y)) ^^ (n - i)) x)"
proof (induction d a m "1::int" True n i x rule: fed_inner.induct)
  case (1 do_epoch_iter avg meta epochIters i x)
  show ?case
  proof (cases "i < epochIters")
    case False
    then show ?thesis by (subst fed_inner.simps) simp
  next
    case True
    have sync: "c_rem (int i + 1) 1 = 0 \<or> int i = int epochIters - 1"
      by (simp add: c_rem_def c_quot_def)
    have one: "(1::int) \<noteq> 0" by simp
    have "fed_inner do_epoch_iter avg meta 1 True epochIters i x
        = fed_inner do_epoch_iter avg meta 1 True epochIters (Suc i) (avg (do_epoch_iter x))"
      using True sync by (subst fed_inner.simps) (simp add: Let_def)
    also have "\<dots> = Inr (((\<lambda>y. avg (do_epoch_iter y)) ^^ (epochIters - Suc i)) (avg (do_epoch_iter x)))"
      using "1.hyps"(1)[OF True refl one sync] by simp
    also have "((\<lambda>y. avg (do_epoch_iter y)) ^^ (epochIters - Suc i)) (avg (do_epoch_iter x))
        = ((\<lambda>y. avg (do_epoch_iter y)) ^^ (epochIters - i)) x"
    proof -
      define f where "f = (\<lambda>y. avg (do_epoch_iter y))"
      have k: "epochIters - i = Suc (epochIters - Suc i)" using True by simp
      have "(f ^^ (epochIters - Suc i)) (f x) = (f ^^ Suc (epochIters - Suc i)) x"
        by (simp only: funpow_Suc_right o_apply)
      then show ?thesis unfolding k f_def by simp
    qed
    finally show ?thesis .
  qed
qed

text \<open>
  Claim C7, as amended.  With \<^verbatim>\<open>downpour_iters = 1\<close> and \<^verbatim>\<open>fedavg = true\<close> the inner loop
  of \<^verbatim>\<open>fedOpt\<close> synchronises after every local iteration, and one such iteration with
  the plain SGD stepper without box constraints leaves on rank \<open>r\<close> the parameters that
  the iteration of \<^verbatim>\<open>allReduceTrad\<close> would leave if its all-reduce of the gradient averaged
  over the sub-communicators (\<^verbatim>\<open>allReduceKT\<close> with \<^verbatim>\<open>divide_by_grid_size = true\<close>) instead
  of summing, provided that the ranks of every sub-communicator of \<open>r\<close> start from the
  same factor matrix of that mode and that all ranks use the same step size.
\<close>

theorem fedavg_step_is_averaged_allreduce:
  assumes ok: "pmap_ok pm (length rs) nd"
    and nfu: "\<forall>q < length rs. length (factors (rk_u (rs ! q))) = nd"
    and nfg: "\<forall>q < length rs. length (factors (local_gradient fusedGradient (rs ! q))) = nd"
    and shape: "\<forall>q < length rs. \<forall>i < nd.
        map length (factors (local_gradient fusedGradient (rs ! q)) ! i)
          = map length (factors (rk_u (rs ! q)) ! i)"
    and step: "\<forall>q < length rs. rk_stepper (rs ! q) = step"
    and comm: "\<forall>i < nd. length (subComm pm i r) = subCommSizes pm ! i \<and> 0 < subCommSizes pm ! i"
    and consistent: "\<forall>i < nd. \<forall>q \<in> set (subComm pm i r).
        factors (rk_u (rs ! q)) ! i = factors (rk_u (rs ! r)) ! i"
    and r: "r < length rs"
  shows "rk_u (fedavg_sync pm nd (fedOpt_do_epoch_iter (sgd_eval None) fusedGradient rs) ! r)
           = rk_u (allreduce_step True pm nd sgd_update (sgd_eval None) fusedGradient rs ! r)
       \<and> fed_inner d a m 1 True n 0 x = Inr (((\<lambda>y. a (d y)) ^^ n) x)"
proof -
  let ?G = "\<lambda>q. local_gradient fusedGradient (rs ! q)"
  let ?U = "\<lambda>q. rk_u (rs ! q)"
  let ?Gs = "map (local_gradient fusedGradient) rs"
  let ?Ls = "map (\<lambda>x. snd (sgd_eval None (rk_stepper x) (local_gradient fusedGradient x) (rk_u x))) rs"
  let ?f = "\<lambda>param grad. param - step * grad"
  have L_nth: "?Ls ! q = snd (sgd_eval None step (?G q) (?U q))" if "q < length rs" for q
    using that step by simp
  have lhs: "rk_u (fedavg_sync pm nd (fedOpt_do_epoch_iter (sgd_eval None) fusedGradient rs) ! r)
      = allReduceKT pm nd True ?Ls ! r"
    using r by (simp add: fedavg_sync_nth fedOpt_do_epoch_iter_u)
  have rhs: "rk_u (allreduce_step True pm nd sgd_update (sgd_eval None) fusedGradient rs ! r)
      = snd (sgd_eval None step (allReduceKT pm nd True ?Gs ! r) (?U r))"
  proof -
    have "snd (rk_stepper (allreduce_step True pm nd sgd_update (sgd_eval None) fusedGradient rs ! r),
               rk_u (allreduce_step True pm nd sgd_update (sgd_eval None) fusedGradient rs ! r))
        = snd (sgd_eval None (sgd_update (rk_stepper (rs ! r))) (allReduceKT pm nd True ?Gs ! r) (?U r))"
      by (simp only: allreduce_step_nth(2)[OF r])
    then show ?thesis using step r by (simp add: sgd_update_def)
  qed
  have main: "allReduceKT pm nd True ?Ls ! r = snd (sgd_eval None step (allReduceKT pm nd True ?Gs ! r) (?U r))"
  proof (cases "nprocs pm = 1")
    case True
    then show ?thesis using r L_nth[OF r] by (simp add: allReduceKT_def)
  next
    case False
    have okL: "pmap_ok pm (length ?Ls) nd" and okG: "pmap_ok pm (length ?Gs) nd"
      using ok by simp_all
    have nfL: "\<forall>q < length ?Ls. length (factors (?Ls ! q)) = nd"
      using nfu nfg by (simp add: sgd_eval_shape)
    have nfG: "\<forall>q < length ?Gs. length (factors (?Gs ! q)) = nd"
      using nfg by simp
    have rL: "r < length ?Ls" and rG: "r < length ?Gs" using r by simp_all
    note avL = allReduceKT_avg[OF okL nfL rL False]
    note avG = allReduceKT_avg[OF okG nfG rG False]
    have factor_eq: "factors (allReduceKT pm nd True ?Ls ! r) ! i
        = factors (snd (sgd_eval None step (allReduceKT pm nd True ?Gs ! r) (?U r))) ! i" if i: "i < nd" for i
    proof -
      let ?A = "factors (?U r) ! i" and ?B = "factors (?G r) ! i"
      let ?P = "subCommSizes pm ! i"
      let ?mem = "subComm pm i r"
      have BA: "map length ?B = map length ?A" using shape r i by simp
      have Lr: "factors (?Ls ! r) ! i = map2 (map2 ?f) ?A ?B"
        using L_nth[OF r] nfu nfg r i by (simp add: sgd_eval_shape)
      have Gr: "factors (?Gs ! r) ! i = ?B" using r by simp
      have right: "factors (snd (sgd_eval None step (allReduceKT pm nd True ?Gs ! r) (?U r))) ! i
          = map2 (map2 ?f) ?A (factors (allReduceKT pm nd True ?Gs ! r) ! i)"
        using nfu r i avG(2) by (simp add: sgd_eval_shape)
      show ?thesis
      proof (cases "?P = 1")
        case True
        show ?thesis
          unfolding right avL(3)[OF i] avG(3)[OF i] using True Lr Gr by simp
      next
        case notone: False
        have mem_ok: "q < length rs" if "q \<in> set ?mem" for q
          using that ok r i by (auto simp: pmap_ok_def)
        have memL: "map (\<lambda>q. factors (?Ls ! q) ! i) ?mem
            = map (\<lambda>q. map2 (map2 ?f) ?A (factors (?G q) ! i)) ?mem"
        proof (rule map_cong[OF refl])
          fix q assume q: "q \<in> set ?mem"
          have ql: "q < length rs" by (rule mem_ok[OF q])
          have "factors (?Ls ! q) ! i = map2 (map2 ?f) (factors (?U q) ! i) (factors (?G q) ! i)"
            using L_nth[OF ql] nfu nfg ql i by (simp add: sgd_eval_shape)
          also have "factors (?U q) ! i = ?A" using consistent i q by simp
          finally show "factors (?Ls ! q) ! i = map2 (map2 ?f) ?A (factors (?G q) ! i)" .
        qed
        have memG: "map (\<lambda>q. factors (?Gs ! q) ! i) ?mem = map (\<lambda>q. factors (?G q) ! i) ?mem"
          by (rule map_cong[OF refl]) (simp add: mem_ok)
        have shapes: "\<forall>q \<in> set ?mem. map length (factors (?G q) ! i) = map length ?A"
        proof
          fix q assume q: "q \<in> set ?mem"
          have "map length (factors (?G q) ! i) = map length (factors (?U q) ! i)"
            using shape mem_ok[OF q] i by simp
          also have "factors (?U q) ! i = ?A" using consistent i q by simp
          finally show "map length (factors (?G q) ! i) = map length ?A" .
        qed
        have P: "length ?mem = ?P" "0 < ?P" using comm i by simp_all
        have "factors (allReduceKT pm nd True ?Ls ! r) ! i
            = facmat_times (1 / real ?P)
                (MPI_Allreduce_SUM (map2 (map2 ?f) ?A ?B)
                   (map (\<lambda>q. map2 (map2 ?f) ?A (factors (?G q) ! i)) ?mem))"
          unfolding avL(3)[OF i] using notone by (simp add: subcomm_sum_def Lr memL)
        also have "\<dots> = map2 (map2 ?f) ?A
            (facmat_times (1 / real ?P) (MPI_Allreduce_SUM ?B (map (\<lambda>q. factors (?G q) ! i) ?mem)))"
          by (rule avg_of_steps[OF BA shapes P])
        also have "\<dots> = map2 (map2 ?f) ?A (factors (allReduceKT pm nd True ?Gs ! r) ! i)"
          unfolding avG(3)[OF i] using notone by (simp add: subcomm_sum_def Gr memG)
        finally show ?thesis unfolding right .
      qed
    qed
    have w: "weights (allReduceKT pm nd True ?Ls ! r)
        = weights (snd (sgd_eval None step (allReduceKT pm nd True ?Gs ! r) (?U r)))"
      using avL(1) L_nth[OF r] r by (simp add: sgd_eval_shape)
    have len: "length (factors (allReduceKT pm nd True ?Ls ! r)) = nd"
        "length (factors (snd (sgd_eval None step (allReduceKT pm nd True ?Gs ! r) (?U r)))) = nd"
      using avL(2) avG(2) nfu r by (simp_all add: sgd_eval_shape)
    have fs: "factors (allReduceKT pm nd True ?Ls ! r)
        = factors (snd (sgd_eval None step (allReduceKT pm nd True ?Gs ! r) (?U r)))"
      by (rule nth_equalityI) (simp_all add: len factor_eq)
    show ?thesis by (rule ktensor.equality) (simp_all add: w fs)
  qed
  have loop: "fed_inner d a m 1 True n 0 x = Inr (((\<lambda>y. a (d y)) ^^ n) x)"
    using fed_inner_every_iteration[of d a m n 0 x] by simp
  from lhs rhs main loop show ?thesis by simp
qed

text \<open>
  Claim C7 as stated fails.  On the grid of two processes, with parameters 0, step size 1
  and local gradient 1 on both ranks: one inner iteration of \<^verbatim>\<open>fedOpt\<close> with
  \<^verbatim>\<open>downpour_iters = 1\<close> and \<^verbatim>\<open>fedavg = true\<close> leaves the parameter \<open>- 1\<close> in the shared mode 0
  (the average of the two local results), one inner iteration of \<^verbatim>\<open>allReduceTrad\<close> leaves
  \<open>- 2\<close> there (a step along the sum of the two gradients).
\<close>

theorem fedavg_differs_from_sum_allreduce:
  "fed_inner (fed_rank_iter demo_gradient) (fed_rank_sync demo_pmap 2) (fed_rank_sync demo_pmap 2)
       1 True 1 0 ([demo_rank, demo_rank], (), ())
     = Inr ([demo_rank_after [[[- 1]], [[- 1]]] [[[1]], [[1]]],
             demo_rank_after [[[- 1]], [[- 1]]] [[[1]], [[1]]]], (), ())
   \<and> allReduceTrad_inner_loop demo_pmap 2 sgd_update (sgd_eval None) demo_gradient 1 [demo_rank, demo_rank]
     = [demo_rank_after [[[- 2]], [[- 1]]] [[[2]], [[1]]],
        demo_rank_after [[[- 2]], [[- 1]]] [[[2]], [[1]]]]
   \<and> rk_u (demo_rank_after [[[- 1]], [[- 1]]] [[[1]], [[1]]])
       \<noteq> rk_u (demo_rank_after [[[- 2]], [[- 1]]] [[[2]], [[1]]])"
proof -
  have a: "fedavg_sync demo_pmap 2 (fedOpt_do_epoch_iter (sgd_eval None) demo_gradient [demo_rank, demo_rank])
      = [demo_rank_after [[[- 1]], [[- 1]]] [[[1]], [[1]]],
         demo_rank_after [[[- 1]], [[- 1]]] [[[1]], [[1]]]]"
    by (simp add: fedavg_sync_def fedOpt_do_epoch_iter_def allReduceKT_def allreduce_mode_def
        scale_mode_def facmat_times_def MPI_Allreduce_SUM_def demo_subComm demo_pmap_sizes
        demo_rank_def demo_rank_after_def demo_gradient_def sgd_eval_def box_clamp_def kt_zero_def
        Let_def numeral_2_eq_2)
  have c: "fed_inner (fed_rank_iter demo_gradient) (fed_rank_sync demo_pmap 2) (fed_rank_sync demo_pmap 2)
       1 True 1 0 ([demo_rank, demo_rank], (), ())
     = Inr ([demo_rank_after [[[- 1]], [[- 1]]] [[[1]], [[1]]],
             demo_rank_after [[[- 1]], [[- 1]]] [[[1]], [[1]]]], (), ())"
    unfolding fed_inner_every_iteration
    by (simp add: fed_rank_iter_def fed_rank_sync_def a)
  have d: "allReduceTrad_inner_loop demo_pmap 2 sgd_update (sgd_eval None) demo_gradient 1 [demo_rank, demo_rank]
     = [demo_rank_after [[[- 2]], [[- 1]]] [[[2]], [[1]]],
        demo_rank_after [[[- 2]], [[- 1]]] [[[2]], [[1]]]]"
    unfolding allReduceTrad_inner_loop_def
    by (simp only: One_nat_def funpow.simps o_apply id_apply demo_trad_run)
  have e: "rk_u (demo_rank_after [[[- 1]], [[- 1]]] [[[1]], [[1]]])
       \<noteq> rk_u (demo_rank_after [[[- 2]], [[- 1]]] [[[2]], [[1]]])"
    by (simp add: demo_rank_after_def)
  from c d e show ?thesis by (intro conjI)
qed

text \<open>The same two ranks: both sides of the amended statement give \<open>- 1\<close> in both modes.\<close>

theorem fedavg_step_is_averaged_allreduce_witness:
  "(0::nat) < length [demo_rank, demo_rank]
   \<and> rk_u (fedavg_sync demo_pmap 2 (fedOpt_do_epoch_iter (sgd_eval None) demo_gradient [demo_rank, demo_rank]) ! 0)
       = \<lparr>weights = [1], factors = [[[- 1]], [[- 1]]]\<rparr>
   \<and> rk_u (allreduce_step True demo_pmap 2 sgd_update (sgd_eval None) demo_gradient [demo_rank, demo_rank] ! 0)
       = \<lparr>weights = [1], factors = [[[- 1]], [[- 1]]]\<rparr>"
proof -
  let ?rs = "[demo_rank, demo_rank]"
  have lg: "local_gradient demo_gradient demo_rank = \<lparr>weights = [1], factors = [[[1]], [[1]]]\<rparr>"
    by (simp add: local_gradient_def demo_gradient_def demo_rank_def demo_rank_after_def kt_zero_def)
  have ru: "rk_u demo_rank = \<lparr>weights = [1], factors = [[[0]], [[0]]]\<rparr>" "rk_stepper demo_rank = 1"
    by (simp_all add: demo_rank_def demo_rank_after_def)
  have h1: "pmap_ok demo_pmap (length ?rs) 2"
    using demo_pmap_ok by (simp add: numeral_2_eq_2)
  have h2: "\<forall>q < length ?rs. length (factors (rk_u (?rs ! q))) = 2"
    by (simp add: less_Suc_eq ru)
  have h3: "\<forall>q < length ?rs. length (factors (local_gradient demo_gradient (?rs ! q))) = 2"
    by (simp add: less_Suc_eq lg)
  have h4: "\<forall>q < length ?rs. \<forall>i < 2.
        map length (factors (local_gradient demo_gradient (?rs ! q)) ! i)
          = map length (factors (rk_u (?rs ! q)) ! i)"
    by (simp add: less_Suc_eq lg ru numeral_2_eq_2)
  have h5: "\<forall>q < length ?rs. rk_stepper (?rs ! q) = 1"
    by (simp add: less_Suc_eq ru)
  have h6: "\<forall>i < 2. length (subComm demo_pmap i 0) = subCommSizes demo_pmap ! i \<and> 0 < subCommSizes demo_pmap ! i"
    by (simp add: less_Suc_eq numeral_2_eq_2 demo_subComm demo_pmap_sizes)
  have h7: "\<forall>i < 2. \<forall>q \<in> set (subComm demo_pmap i 0).
        factors (rk_u (?rs ! q)) ! i = factors (rk_u (?rs ! 0)) ! i"
    by (simp add: less_Suc_eq numeral_2_eq_2 demo_subComm)
  have h8: "(0::nat) < length ?rs" by simp
  have left: "rk_u (fedavg_sync demo_pmap 2 (fedOpt_do_epoch_iter (sgd_eval None) demo_gradient ?rs) ! 0)
       = \<lparr>weights = [1], factors = [[[- 1]], [[- 1]]]\<rparr>"
    by (simp add: fedavg_sync_def fedOpt_do_epoch_iter_def allReduceKT_def allreduce_mode_def
        scale_mode_def facmat_times_def MPI_Allreduce_SUM_def demo_subComm demo_pmap_sizes
        demo_rank_def demo_rank_after_def demo_gradient_def sgd_eval_def box_clamp_def kt_zero_def
        Let_def numeral_2_eq_2)
  from fedavg_step_is_averaged_allreduce[OF h1 h2 h3 h4 h5 h6 h7 h8]
  have "rk_u (fedavg_sync demo_pmap 2 (fedOpt_do_epoch_iter (sgd_eval None) demo_gradient ?rs) ! 0)
      = rk_u (allreduce_step True demo_pmap 2 sgd_update (sgd_eval None) demo_gradient ?rs ! 0)"
    by blast
  with left h8 show ?thesis by simp
qed

text \<open>
  The amended statement needs the stepper without box constraints.  With the bounds
  \<open>[0, 10]\<close> and the local gradients 1 and \<open>- 3\<close>, the local steps give 0 (clamped) and 3,
  whose average is \<open>3/2\<close>, while a step along the averaged gradient \<open>- 1\<close> gives 1.
\<close>

lemma box_constraints_break_the_average:
  "factors (rk_u (fedavg_sync demo_pmap 2
       (fedOpt_do_epoch_iter (sgd_eval (Some (0, 10))) demo_sampled_gradient
          [demo_rank_sampling 1, demo_rank_sampling (- 3)]) ! 0)) ! 0 = [[3 / 2]]
   \<and> factors (rk_u (allreduce_step True demo_pmap 2 sgd_update (sgd_eval (Some (0, 10)))
          demo_sampled_gradient [demo_rank_sampling 1, demo_rank_sampling (- 3)] ! 0)) ! 0 = [[1]]"
  by (simp add: fedavg_sync_def fedOpt_do_epoch_iter_def allreduce_step_def allReduceKT_def
      allreduce_mode_def scale_mode_def facmat_times_def MPI_Allreduce_SUM_def demo_subComm
      demo_pmap_sizes demo_rank_sampling_def demo_sampled_gradient_def sgd_eval_def sgd_update_def
      box_clamp_def kt_zero_def Let_def numeral_2_eq_2)

end
